(* ===== verification/Prelude.thy ===== *)
theory Prelude
  imports Main "HOL-Library.AList"
begin

text \<open>
  What every component shares: Go's fixed-width integers, written as \<open>int\<close> with the
  wrap-around explicit (\<open>i64\<close>, \<open>i32\<close>), Go's truncating division, instants and
  durations of package \<open>time\<close>, string maps as association lists, and the generic list
  lemmas the component proofs rest on.

  Collections: \<open>go_arith\<close> gathers the facts that remove a wrap-around once its argument
  is known to be in range.
\<close>

named_theorems go_arith

section \<open>Fixed-width integers\<close>

definition in_i64 :: "int \<Rightarrow> bool" where
  "in_i64 x \<longleftrightarrow> - 9223372036854775808 \<le> x \<and> x \<le> 9223372036854775807"

definition in_i32 :: "int \<Rightarrow> bool" where
  "in_i32 x \<longleftrightarrow> - 2147483648 \<le> x \<and> x \<le> 2147483647"

lemma in_i64_0 [simp]: "in_i64 0"
  by (simp add: in_i64_def)

text \<open>The value of an \<open>int64\<close> (\<open>int32\<close>) expression whose exact value is \<open>x\<close>.\<close>

definition i64 :: "int \<Rightarrow> int" where
  "i64 x = (x + 9223372036854775808) mod 18446744073709551616 - 9223372036854775808"

definition i32 :: "int \<Rightarrow> int" where
  "i32 x = (x + 2147483648) mod 4294967296 - 2147483648"

lemma i64_id [go_arith]: "in_i64 x \<Longrightarrow> i64 x = x"
  by (simp add: i64_def in_i64_def)

lemma i32_id [go_arith]: "in_i32 x \<Longrightarrow> i32 x = x"
  by (simp add: i32_def in_i32_def)

lemma i64_range [simp]: "in_i64 (i64 x)"
proof -
  have "0 \<le> (x + 9223372036854775808) mod 18446744073709551616"
    and "(x + 9223372036854775808) mod 18446744073709551616 < 18446744073709551616"
    by simp_all
  then show ?thesis unfolding i64_def in_i64_def by linarith
qed

lemma i64_idem [simp]: "i64 (i64 x) = i64 x"
  by (rule i64_id) simp

lemma i64_0 [simp]: "i64 0 = 0"
  by (simp add: i64_def)

lemma i64_cong_mod: "i64 x mod 18446744073709551616 = x mod 18446744073709551616"
  by (simp add: i64_def mod_diff_left_eq)

lemma i64_eqI: "x mod 18446744073709551616 = y mod 18446744073709551616 \<Longrightarrow> i64 x = i64 y"
  unfolding i64_def by (subst (1 2) mod_add_left_eq [symmetric]) simp

lemma i64_add_left [simp]: "i64 (i64 x + y) = i64 (x + y)"
  by (rule i64_eqI) (metis mod_add_left_eq i64_cong_mod)

lemma i64_add_right [simp]: "i64 (x + i64 y) = i64 (x + y)"
  by (rule i64_eqI) (metis mod_add_right_eq i64_cong_mod)

lemma i64_diff_left [simp]: "i64 (i64 x - y) = i64 (x - y)"
  by (rule i64_eqI) (metis mod_diff_left_eq i64_cong_mod)

lemma i64_diff_right [simp]: "i64 (x - i64 y) = i64 (x - y)"
  by (rule i64_eqI) (metis mod_diff_right_eq i64_cong_mod)

text \<open>Go's \<open>/\<close> on integers truncates towards zero.\<close>

definition go_quot :: "int \<Rightarrow> int \<Rightarrow> int" where
  "go_quot a b = sgn a * sgn b * (\<bar>a\<bar> div \<bar>b\<bar>)"

lemma go_quot_nonneg [go_arith]: "0 \<le> a \<Longrightarrow> 0 < b \<Longrightarrow> go_quot a b = a div b"
  by (cases "a = 0") (simp_all add: go_quot_def)

lemma div_mult_bounds:
  fixes n d :: int
  assumes "0 < d"
  shows "n div d * d \<le> n" and "n < n div d * d + d"
proof -
  have m: "n = n div d * d + n mod d"
    by simp
  have "0 \<le> n mod d" and "n mod d < d"
    using assms by simp_all
  with m show "n div d * d \<le> n" and "n < n div d * d + d"
    by linarith+
qed

section \<open>Instants and durations\<close>

text \<open>
  A \<open>time.Time\<close> is the number of nanoseconds since the Unix epoch; the zero
  \<open>time.Time\<close> is January 1, year 1, 00:00:00 UTC. A \<open>time.Duration\<close> is an \<open>int64\<close>
  number of nanoseconds, and \<open>Time.Sub\<close> saturates.
\<close>

type_synonym time = int
type_synonym duration = int

definition zero_time :: time where
  "zero_time = - 62135596800000000000"

definition time_is_zero :: "time \<Rightarrow> bool" where
  "time_is_zero t \<longleftrightarrow> t = zero_time"

definition time_sub :: "time \<Rightarrow> time \<Rightarrow> duration" where
  "time_sub t u = max (- 9223372036854775808) (min 9223372036854775807 (t - u))"

abbreviation second :: duration where
  "second \<equiv> 1000000000"

abbreviation minute :: duration where
  "minute \<equiv> 60 * second"

abbreviation hour :: duration where
  "hour \<equiv> 60 * minute"

lemma time_sub_less: "in_i64 d \<Longrightarrow> time_sub t u < d \<longleftrightarrow> t - u < d \<and> d \<noteq> - 9223372036854775808"
  by (auto simp: time_sub_def in_i64_def)

lemma time_sub_ge: "in_i64 d \<Longrightarrow> d \<le> t - u \<Longrightarrow> d \<le> time_sub t u"
  by (auto simp: time_sub_def in_i64_def)

lemma time_sub_mono: "t \<le> t' \<Longrightarrow> time_sub t u \<le> time_sub t' u"
  by (auto simp: time_sub_def)

section \<open>Lists\<close>

lemma sum_list_update_balance:
  fixes f :: "'a \<Rightarrow> 'm :: comm_monoid_add"
  assumes "i < length xs"
  shows "sum_list (map f (xs[i := y])) + f (xs ! i) = sum_list (map f xs) + f y"
  using assms
proof (induction xs arbitrary: i)
  case Nil
  then show ?case by simp
next
  case (Cons x xs)
  show ?case
  proof (cases i)
    case 0
    then show ?thesis by (simp add: ac_simps)
  next
    case (Suc j)
    with Cons.prems Cons.IH [of j] show ?thesis
      by (simp add: add.assoc)
  qed
qed

section \<open>String-keyed maps\<close>

text \<open>
  A Go map with string keys is an association list: a lookup is \<open>map_of\<close>, an assignment
  is \<open>AList.update\<close>. A nil map and an empty map read alike, and the code never writes to
  a map that may be nil.
\<close>

type_synonym 'v smap = "(string \<times> 'v) list"

lemma map_of_update_same [simp]: "map_of (AList.update k v m) k = Some v"
  by (simp add: update_conv')

lemma map_of_update_other [simp]: "k \<noteq> k' \<Longrightarrow> map_of (AList.update k v m) k' = map_of m k'"
  by (simp add: update_conv')

end
