(* ===== verification/PolicyMath.thy ===== *)
theory PolicyMath
  imports Prelude
begin

text \<open>
  The arithmetic of \<open>internal/policy/policy.go\<close>: rounding to steps, the scaled target
  and the decision whether a computed target is applied. Every \<open>int64\<close> operation
  carries its wrap-around.
\<close>

section \<open>Definitions\<close>

definition cpuStepMilli :: int where
  "cpuStepMilli = 50"

definition memoryStepBytes :: int where
  "memoryStepBytes = 64 * 1024 * 1024"

definition divCeil :: "int \<Rightarrow> int \<Rightarrow> int" where
  "divCeil n d =
     (if d = 0 then n
      else if n = 0 then 0
      else if n > 0 \<and> d > 0 then go_quot (i64 (i64 (n + d) - 1)) d
      else i64 (go_quot n d))"

definition roundUp :: "int \<Rightarrow> int \<Rightarrow> int" where
  "roundUp v step =
     (if step \<le> 0 then v
      else if v \<le> 0 then 0
      else i64 (go_quot (i64 (i64 (v + step) - 1)) step * step))"

definition roundDown :: "int \<Rightarrow> int \<Rightarrow> int" where
  "roundDown v step =
     (if step \<le> 0 then v
      else if v \<le> 0 then 0
      else i64 (go_quot v step * step))"

definition quantizeMilliCPU :: "int \<Rightarrow> int \<Rightarrow> bool \<Rightarrow> int" where
  "quantizeMilliCPU targetMilli currentMilli allowDown =
     (if cpuStepMilli \<le> 0 then targetMilli
      else if targetMilli > currentMilli then roundUp targetMilli cpuStepMilli
      else if targetMilli < currentMilli \<and> allowDown then roundDown targetMilli cpuStepMilli
      else targetMilli)"

definition quantizeBytesMemory :: "int \<Rightarrow> int \<Rightarrow> bool \<Rightarrow> int" where
  "quantizeBytesMemory targetBytes currentBytes allowDown =
     (if memoryStepBytes \<le> 0 then targetBytes
      else if targetBytes > currentBytes then roundUp targetBytes memoryStepBytes
      else if targetBytes < currentBytes \<and> allowDown then roundDown targetBytes memoryStepBytes
      else targetBytes)"

definition passesPercent :: "int \<Rightarrow> int \<Rightarrow> int \<Rightarrow> bool \<Rightarrow> bool" where
  "passesPercent target current pct up =
     (if pct \<le> 0 then True
      else if current = 0 then up \<and> target > 0
      else if up then i64 (i64 (target - current) * 100) \<ge> i64 (current * pct)
      else i64 (i64 (current - target) * 100) \<ge> i64 (current * pct))"

text \<open>
  The three results of \<open>decide\<close>: the decided value, whether it changes the request, and
  whether a downscale was skipped because it is not allowed.
\<close>

definition decide :: "int \<Rightarrow> int \<Rightarrow> int \<Rightarrow> int \<Rightarrow> bool \<Rightarrow> int \<Rightarrow> int \<times> bool \<times> bool" where
  "decide target0 current0 upPct downPct allowDown minChangeAbs =
     (let current = (if current0 < 0 then 0 else current0);
          target = (if target0 < 0 then 0 else target0)
      in if target = current then (current, False, False)
         else if target > current then
           (if \<not> passesPercent target current upPct True then (current, False, False)
            else if minChangeAbs > 0 \<and> i64 (target - current) < minChangeAbs
            then (current, False, False)
            else (target, True, False))
         else if \<not> allowDown then (current, False, True)
         else if \<not> passesPercent target current downPct False then (current, False, False)
         else if minChangeAbs > 0 \<and> i64 (current - target) < minChangeAbs
         then (current, False, False)
         else (target, True, False))"

section \<open>Rounding\<close>

lemma step_pos [simp]: "0 < cpuStepMilli" "0 < memoryStepBytes"
  by (simp_all add: cpuStepMilli_def memoryStepBytes_def)

lemma divCeil_eq:
  assumes "0 \<le> n" "0 < d" "in_i64 n" "in_i64 (n + d)"
  shows "divCeil n d = (n + d - 1) div d"
proof (cases "n = 0")
  case True
  then show ?thesis using assms(2) by (simp add: divCeil_def)
next
  case False
  have "in_i64 (n + d - 1)"
    using assms by (simp add: in_i64_def)
  then show ?thesis
    using assms False by (simp add: divCeil_def go_arith)
qed

lemma ceil_div_bounds:
  fixes n d :: int
  assumes "0 < d"
  shows "n \<le> (n + d - 1) div d * d" and "(n + d - 1) div d * d < n + d"
  using div_mult_bounds [OF assms, of "n + d - 1"] by linarith+

lemma roundUp_eq:
  assumes "0 < v" "0 < step" "in_i64 (v + step)"
  shows "roundUp v step = (v + step - 1) div step * step"
proof -
  have *: "in_i64 (v + step - 1)"
    using assms by (simp add: in_i64_def)
  have "in_i64 ((v + step - 1) div step * step)"
    using ceil_div_bounds [OF assms(2), of v] assms by (simp add: in_i64_def)
  with * show ?thesis
    using assms by (simp add: roundUp_def go_arith)
qed

lemma roundDown_eq:
  assumes "0 < v" "0 < step" "in_i64 v"
  shows "roundDown v step = v div step * step"
proof -
  have "0 \<le> v div step * step" and "v div step * step \<le> v"
    using assms div_mult_bounds(1) [OF assms(2), of v]
    by (simp_all add: pos_imp_zdiv_nonneg_iff)
  then have "in_i64 (v div step * step)"
    using assms by (simp add: in_i64_def)
  then show ?thesis
    using assms by (simp add: roundDown_def go_arith)
qed

lemma roundDown_below:
  assumes "v < step"
  shows "roundDown v step = (if step \<le> 0 then v else 0)"
  using assms by (auto simp: roundDown_def go_arith)

section \<open>Targets\<close>

text \<open>Rounding up gives the least multiple of the step that covers the scaled usage.\<close>

lemma scaled_roundUp:
  fixes x step :: int
  assumes "0 < x" "0 < step" "in_i64 (x + 100)" "in_i64 (x + step)"
    and t: "t = divCeil x 100"
  shows "x \<le> 100 * roundUp t step"
    and "100 * (roundUp t step - step) < x"
    and "step dvd roundUp t step"
proof -
  have te: "t = (x + 100 - 1) div 100"
    unfolding t using assms(1,3) by (intro divCeil_eq) (auto simp: in_i64_def)
  have lo: "x \<le> t * 100" and hi: "t * 100 < x + 100"
    using ceil_div_bounds [of 100 x] by (simp_all add: te)
  have "0 < t" and tx: "t \<le> x"
    using lo hi assms(1) by linarith+
  moreover have "in_i64 (t + step)"
    using assms(2,4) \<open>0 < t\<close> tx by (simp add: in_i64_def)
  ultimately have r: "roundUp t step = (t + step - 1) div step * step"
    using assms(2) by (intro roundUp_eq)
  note b = ceil_div_bounds [OF assms(2), of t]
  show "x \<le> 100 * roundUp t step"
    using lo b(1) by (simp add: r)
  show "100 * (roundUp t step - step) < x"
    using hi b(2) by (simp add: r)
  show "step dvd roundUp t step"
    by (simp add: r)
qed

text \<open>
  C37. When the usage scaled by the headroom exceeds the current CPU request, the quantized
  CPU target is the least multiple of the 50m step that covers it; this holds up to the
  point where \<open>int64\<close> arithmetic would wrap.
\<close>

theorem cpu_upscale_target_least:
  assumes "0 < use * headroom" "in_i64 (use * headroom + 100)"
    and "t = divCeil (i64 (use * headroom)) 100" "cur < t"
  shows "use * headroom \<le> 100 * quantizeMilliCPU t cur allowDown \<and>
    100 * (quantizeMilliCPU t cur allowDown - 50) < use * headroom \<and>
    50 dvd quantizeMilliCPU t cur allowDown"
proof -
  have x: "i64 (use * headroom) = use * headroom" "in_i64 (use * headroom + cpuStepMilli)"
    using assms(1,2) by (simp_all add: i64_id in_i64_def cpuStepMilli_def)
  have "quantizeMilliCPU t cur allowDown = roundUp t cpuStepMilli"
    using assms(4) by (simp add: quantizeMilliCPU_def cpuStepMilli_def)
  then show ?thesis
    using scaled_roundUp [OF assms(1) step_pos(1) assms(2) x(2), of t] assms(3) x(1)
    by (simp add: cpuStepMilli_def)
qed

theorem cpu_upscale_target_least_witness:
  "quantizeMilliCPU (divCeil (i64 (101 * 120)) 100) 50 True = 150 \<and> 50 dvd (150 :: int)"
proof -
  have v: "quantizeMilliCPU (divCeil (i64 (101 * 120)) 100) 50 True = 150"
    by (simp add: quantizeMilliCPU_def divCeil_def roundUp_def cpuStepMilli_def i64_def go_quot_def)
  have "50 dvd quantizeMilliCPU (divCeil (i64 (101 * 120)) 100) 50 True"
    using cpu_upscale_target_least [of 101 120 "divCeil (i64 (101 * 120)) 100" 50 True]
    by (simp add: in_i64_def divCeil_def i64_def go_quot_def)
  with v show ?thesis by simp
qed

text \<open>
  The same for memory and its 64Mi step: the quantized target is the least multiple of
  64Mi that covers the scaled usage.
\<close>

lemma memory_upscale_target_least:
  assumes "0 < use * headroom" "in_i64 (use * headroom + 67108864)"
    and "t = divCeil (i64 (use * headroom)) 100" "cur < t"
  shows "use * headroom \<le> 100 * quantizeBytesMemory t cur allowDown \<and>
    100 * (quantizeBytesMemory t cur allowDown - 67108864) < use * headroom \<and>
    67108864 dvd quantizeBytesMemory t cur allowDown"
proof -
  have x: "i64 (use * headroom) = use * headroom" "in_i64 (use * headroom + 100)"
    "in_i64 (use * headroom + memoryStepBytes)"
    using assms(1,2) by (simp_all add: i64_id in_i64_def memoryStepBytes_def)
  have "quantizeBytesMemory t cur allowDown = roundUp t memoryStepBytes"
    using assms(4) by (simp add: quantizeBytesMemory_def memoryStepBytes_def)
  then show ?thesis
    using scaled_roundUp [OF assms(1) step_pos(2) x(2) x(3), of t] assms(3) x(1)
    by (simp add: memoryStepBytes_def)
qed

lemma memory_upscale_target_least_witness:
  "quantizeBytesMemory (divCeil (i64 (68157440 * 100)) 100) 67108864 False = 134217728 \<and>
   67108864 dvd (134217728 :: int)"
proof -
  have v: "quantizeBytesMemory (divCeil (i64 (68157440 * 100)) 100) 67108864 False = 134217728"
    by (simp add: quantizeBytesMemory_def divCeil_def roundUp_def memoryStepBytes_def i64_def go_quot_def)
  have "67108864 dvd quantizeBytesMemory (divCeil (i64 (68157440 * 100)) 100) 67108864 False"
    using memory_upscale_target_least
      [of 68157440 100 "divCeil (i64 (68157440 * 100)) 100" 67108864 False]
    by (simp add: in_i64_def divCeil_def i64_def go_quot_def)
  with v show ?thesis by simp
qed

section \<open>Decisions\<close>

text \<open>
  What the thresholds ask of a change, over exact integers: relative to the current value in
  per cent, and at least the configured minimum.
\<close>

definition change_warranted :: "int \<Rightarrow> int \<Rightarrow> int \<Rightarrow> int \<Rightarrow> bool" where
  "change_warranted diff current pct minChangeAbs \<longleftrightarrow>
     (pct \<le> 0 \<or> 100 * diff \<ge> current * pct) \<and> (minChangeAbs \<le> 0 \<or> diff \<ge> minChangeAbs)"

text \<open>The values for which no product in \<open>decide\<close> wraps, given the CRD's percentages.\<close>

definition decidable_range :: "int \<Rightarrow> bool" where
  "decidable_range x \<longleftrightarrow> 0 \<le> x \<and> x \<le> 9223372036854775"

lemma mult_pct_range:
  assumes "decidable_range c" "p \<le> 1000" "0 < p"
  shows "in_i64 (c * p)"
proof -
  have "0 \<le> c * p"
    using assms by (simp add: decidable_range_def)
  moreover have "c * p \<le> 9223372036854775 * 1000"
    by (rule mult_mono) (use assms in \<open>auto simp: decidable_range_def\<close>)
  moreover note assms
  ultimately have "0 \<le> c * p" "c * p \<le> 9223372036854775 * 1000"
    by blast+
  then show ?thesis by (simp add: in_i64_def)
qed

lemma passesPercent_exact:
  assumes "decidable_range t" "decidable_range c" "p \<le> 1000" "t \<noteq> c" "up \<longleftrightarrow> t > c"
  shows "passesPercent t c p up \<longleftrightarrow> p \<le> 0 \<or> 100 * \<bar>t - c\<bar> \<ge> c * p"
proof (cases "0 < p")
  case True
  have "i64 (c * p) = c * p"
    by (rule i64_id [OF mult_pct_range [OF assms(2,3) True]])
  moreover have "i64 (t - c) = t - c" "i64 ((t - c) * 100) = (t - c) * 100"
    "i64 (c - t) = c - t" "i64 ((c - t) * 100) = (c - t) * 100"
    using assms(1,2) by (auto intro!: i64_id simp: decidable_range_def in_i64_def)
  ultimately show ?thesis
    using True assms unfolding passesPercent_def by (auto simp: decidable_range_def)
next
  case False
  then show ?thesis by (simp add: passesPercent_def)
qed

lemma decide_iff:
  assumes "decidable_range t" "decidable_range c" "upPct \<le> 1000" "downPct \<le> 1000"
  shows "decide t c upPct downPct allowDown minChange =
    (let chg = (t > c \<and> change_warranted (t - c) c upPct minChange) \<or>
               (t < c \<and> allowDown \<and> change_warranted (c - t) c downPct minChange)
     in (if chg then t else c, chg, t < c \<and> \<not> allowDown))"
proof -
  have nn: "\<not> t < 0" "\<not> c < 0"
    using assms(1,2) by (simp_all add: decidable_range_def)
  have d: "i64 (t - c) = t - c" "i64 (c - t) = c - t"
    using assms(1,2) by (auto intro!: i64_id simp: decidable_range_def in_i64_def)
  consider "t = c" | "c < t" | "t < c" by linarith
  then show ?thesis
  proof cases
    case 1
    then show ?thesis using nn by (simp add: decide_def)
  next
    case 2
    then show ?thesis
      using nn d passesPercent_exact [OF assms(1,2,3), of True]
      by (auto simp: decide_def change_warranted_def Let_def)
  next
    case 3
    then show ?thesis
      using nn d passesPercent_exact [OF assms(1,2,4), of False]
      by (auto simp: decide_def change_warranted_def Let_def)
  qed
qed

text \<open>
  C18. For targets and requests up to \<open>2\<^sup>63 / 1000\<close> and the percentages the CRD admits,
  \<open>decide\<close> changes the request exactly when the target differs, the direction is allowed,
  and the difference meets both the relative and the absolute threshold; it then yields the
  target, and otherwise the current value; it reports a skipped downscale exactly when the
  target is lower and downscaling is not allowed.
\<close>

theorem decide_exact:
  assumes "decidable_range t" "decidable_range c" "upPct \<le> 1000" "downPct \<le> 1000"
  shows "decide t c upPct downPct allowDown minChange =
    (let chg = (t > c \<and> change_warranted (t - c) c upPct minChange) \<or>
               (t < c \<and> allowDown \<and> change_warranted (c - t) c downPct minChange)
     in (if chg then t else c, chg, t < c \<and> \<not> allowDown))"
  by (rule decide_iff [OF assms])

theorem decide_exact_witness:
  "decide 150 100 20 20 False 50 = (150, True, False)"
  using decide_exact [of 150 100 20 20 False 50]
  by (simp add: decidable_range_def change_warranted_def)

lemma decide_changed:
  "decide t c u d a m = (v, True, sk) \<Longrightarrow>
    v = max 0 t \<and> v \<noteq> max 0 c \<and> (a \<or> max 0 c < v) \<and> \<not> sk"
  by (simp add: decide_def Let_def max_def split: if_splits)

lemma decide_unchanged:
  "decide t c u d a m = (v, False, sk) \<Longrightarrow> v = max 0 c"
  by (simp add: decide_def Let_def max_def split: if_splits)

end
