(* ===== verification/ApiTypes.thy ===== *)
theory ApiTypes
  imports Prelude
begin

text \<open>
  The data the operator works on. The policy object (\<open>api/v1alpha1/inplacepodresize_types.go\<close>)
  is a record per Go struct, with the source's field names. Pods, containers and pod
  metrics are Kubernetes types: their records hold the fields the operator reads or writes.

  \<open>resource.Quantity\<close> of \<open>k8s.io/apimachinery\<close> is not code of this repository. It is the
  type parameter \<open>'q\<close>, and the operations the code calls on it are the record
  \<open>'q quantity_ops\<close>, an argument of every definition that uses them. What their
  documentation promises is \<open>quantity_spec\<close>; it is a hypothesis of the theorems that need it.
\<close>

section \<open>Quantities\<close>

record 'q quantity_ops =
  q_milli :: "'q \<Rightarrow> int"              \<comment> \<open>\<open>MilliValue()\<close>\<close>
  q_value :: "'q \<Rightarrow> int"              \<comment> \<open>\<open>Value()\<close>\<close>
  q_cmp :: "'q \<Rightarrow> 'q \<Rightarrow> int"          \<comment> \<open>\<open>Cmp\<close>\<close>
  q_is_zero :: "'q \<Rightarrow> bool"           \<comment> \<open>\<open>IsZero()\<close>\<close>
  q_new_milli :: "int \<Rightarrow> 'q"          \<comment> \<open>\<open>NewMilliQuantity(_, DecimalSI)\<close>\<close>
  q_new_bytes :: "int \<Rightarrow> 'q"          \<comment> \<open>\<open>NewQuantity(_, BinarySI)\<close>\<close>
  q_zero :: 'q                        \<comment> \<open>\<open>Quantity{}\<close>\<close>
  q_string :: "'q \<Rightarrow> string"          \<comment> \<open>\<open>String()\<close>\<close>

definition ceil_div :: "int \<Rightarrow> int \<Rightarrow> int" where
  "ceil_div a b = - ((- a) div b)"

text \<open>
  \<open>amt q\<close> is the exact amount of \<open>q\<close> in units of \<open>10\<^sup>-\<^sup>9\<close>, the finest a quantity
  holds. \<open>MilliValue\<close> and \<open>Value\<close> round a non-negative amount up; a result that does
  not fit \<open>int64\<close> is left open.
\<close>

definition quantity_spec :: "'q quantity_ops \<Rightarrow> ('q \<Rightarrow> int) \<Rightarrow> bool" where
  "quantity_spec Q amt \<longleftrightarrow>
     (\<forall>a b. sgn (q_cmp Q a b) = sgn (amt a - amt b)) \<and>
     (\<forall>a. q_is_zero Q a \<longleftrightarrow> amt a = 0) \<and>
     (\<forall>m. in_i64 m \<longrightarrow> amt (q_new_milli Q m) = m * 1000000) \<and>
     (\<forall>b. in_i64 b \<longrightarrow> amt (q_new_bytes Q b) = b * 1000000000) \<and>
     amt (q_zero Q) = 0 \<and>
     (\<forall>a. in_i64 (q_milli Q a) \<and> in_i64 (q_value Q a)) \<and>
     (\<forall>a. 0 \<le> amt a \<longrightarrow> in_i64 (ceil_div (amt a) 1000000) \<longrightarrow>
        q_milli Q a = ceil_div (amt a) 1000000) \<and>
     (\<forall>a. 0 \<le> amt a \<longrightarrow> in_i64 (ceil_div (amt a) 1000000000) \<longrightarrow>
        q_value Q a = ceil_div (amt a) 1000000000)"

text \<open>
  A concrete instance for the witnesses: a quantity is its amount in units of
  \<open>10\<^sup>-\<^sup>9\<close>, and conversions to \<open>int64\<close> wrap.
\<close>

definition nano_ops :: "int quantity_ops" where
  "nano_ops = \<lparr>q_milli = (\<lambda>a. i64 (ceil_div a 1000000)),
     q_value = (\<lambda>a. i64 (ceil_div a 1000000000)),
     q_cmp = (\<lambda>a b. if a < b then -1 else if a = b then 0 else 1),
     q_is_zero = (\<lambda>a. a = 0),
     q_new_milli = (\<lambda>m. m * 1000000),
     q_new_bytes = (\<lambda>b. b * 1000000000),
     q_zero = 0,
     q_string = (\<lambda>a. if a = 0 then ''0'' else if a < 0 then ''-1'' else ''1'')\<rparr>"

lemma nano_ops_simps [simp]:
  "q_milli nano_ops a = i64 (ceil_div a 1000000)"
  "q_value nano_ops a = i64 (ceil_div a 1000000000)"
  "q_cmp nano_ops a b = (if a < b then -1 else if a = b then 0 else 1)"
  "q_is_zero nano_ops a \<longleftrightarrow> a = 0"
  "q_new_milli nano_ops m = m * 1000000"
  "q_new_bytes nano_ops m = m * 1000000000"
  "q_zero nano_ops = 0"
  by (simp_all add: nano_ops_def)

lemma nano_ops_spec: "quantity_spec nano_ops (\<lambda>a. a)"
  by (auto simp: quantity_spec_def i64_id)

lemma ceil_div_ge: "0 < b \<Longrightarrow> a \<le> ceil_div a b * b"
  using div_mult_bounds(1) [of b "- a"] by (simp add: ceil_div_def)

lemma ceil_div_less: "0 < b \<Longrightarrow> ceil_div a b * b < a + b"
  using div_mult_bounds(2) [of b "- a"] by (simp add: ceil_div_def)

lemma ceil_div_mult [simp]: "0 < b \<Longrightarrow> ceil_div (a * b) b = a"
  by (simp add: ceil_div_def flip: mult_minus_left)

lemma quantity_specD:
  assumes "quantity_spec Q amt"
  shows "0 < q_cmp Q a b \<longleftrightarrow> amt b < amt a"
    and "q_cmp Q a b < 0 \<longleftrightarrow> amt a < amt b"
    and "q_cmp Q a b = 0 \<longleftrightarrow> amt a = amt b"
    and "q_is_zero Q a \<longleftrightarrow> amt a = 0"
    and "in_i64 m \<Longrightarrow> amt (q_new_milli Q m) = m * 1000000"
    and "in_i64 m \<Longrightarrow> amt (q_new_bytes Q m) = m * 1000000000"
    and "amt (q_zero Q) = 0"
    and "in_i64 (q_milli Q a)"
    and "in_i64 (q_value Q a)"
    and "0 \<le> amt a \<Longrightarrow> in_i64 (ceil_div (amt a) 1000000) \<Longrightarrow>
      q_milli Q a = ceil_div (amt a) 1000000"
    and "0 \<le> amt a \<Longrightarrow> in_i64 (ceil_div (amt a) 1000000000) \<Longrightarrow>
      q_value Q a = ceil_div (amt a) 1000000000"
proof -
  have sgn: "sgn (q_cmp Q a b) = sgn (amt a - amt b)"
    using assms by (simp add: quantity_spec_def)
  show "0 < q_cmp Q a b \<longleftrightarrow> amt b < amt a"
    using sgn by (metis diff_gt_0_iff_gt sgn_greater)
  show "q_cmp Q a b < 0 \<longleftrightarrow> amt a < amt b"
    using sgn by (metis diff_less_0_iff_less sgn_less)
  show "q_cmp Q a b = 0 \<longleftrightarrow> amt a = amt b"
    using sgn by (metis eq_iff_diff_eq_0 sgn_0_0)
qed (use assms in \<open>simp_all add: quantity_spec_def\<close>)

section \<open>Pods and pod metrics\<close>

type_synonym 'q resource_list = "'q smap"

abbreviation ResourceCPU :: string where
  "ResourceCPU \<equiv> ''cpu''"

abbreviation ResourceMemory :: string where
  "ResourceMemory \<equiv> ''memory''"

record 'q container =
  ctr_name :: string
  requests :: "'q resource_list"
  limits :: "'q resource_list"

record 'q pod =
  pod_name :: string
  pod_namespace :: string
  pod_uid :: string
  resource_version :: string
  annotations :: "string smap option"
  deletion_timestamp :: "time option"
  phase :: string
  node_name :: string
  init_containers :: "'q container list"
  containers :: "'q container list"

datatype qos_class = Guaranteed | Burstable | BestEffort

record 'q container_metrics =
  cm_name :: string
  usage :: "'q resource_list"

record 'q pod_metrics =
  pm_name :: string
  pm_namespace :: string
  pm_containers :: "'q container_metrics list"

section \<open>The policy object\<close>

record namespace_selector =
  match_type :: string
  sel_include :: "string list"
  sel_exclude :: "string list"

record resource_toggles =
  tog_cpu :: bool
  tog_memory :: bool

abbreviation LimitsModeUnchanged :: string where
  "LimitsModeUnchanged \<equiv> ''Unchanged''"

abbreviation LimitsModeEqualRequests :: string where
  "LimitsModeEqualRequests \<equiv> ''EqualRequests''"

record managed_resources_spec =
  managed_requests :: resource_toggles
  limits_mode :: string

record algorithm_spec =
  headroom_percent :: int
  allow_downscale :: bool

record 'q bounds_spec =
  cpu_min :: "'q option"
  cpu_max :: "'q option"
  memory_min :: "'q option"
  memory_max :: "'q option"
  min_change_cpu :: "'q option"
  min_change_memory :: "'q option"

record thresholds_spec =
  up_percent :: int
  down_percent :: int

record 'q timing_spec =
  interval :: duration
  cooldown :: duration
  stabilization_window :: duration
  max_pods_per_run :: int
  max_concurrent_pods :: int
  max_total_cpu_increase :: "'q option"
  max_total_memory_increase :: "'q option"
  capability_check_interval :: duration

text \<open>\<open>PodSelector\<close> is a Kubernetes \<open>LabelSelector\<close>; its type is the parameter \<open>'l\<close>.\<close>

record ('q, 'l) policy_spec =
  enabled :: bool
  ns_selector :: namespace_selector
  pod_selector :: "'l option"
  resources :: managed_resources_spec
  algorithm :: algorithm_spec
  bounds :: "'q bounds_spec"
  thresholds :: thresholds_spec
  timing :: "'q timing_spec"

abbreviation cpu_on :: "('q, 'l) policy_spec \<Rightarrow> bool" where
  "cpu_on spec \<equiv> tog_cpu (managed_requests (resources spec))"

abbreviation memory_on :: "('q, 'l) policy_spec \<Rightarrow> bool" where
  "memory_on spec \<equiv> tog_memory (managed_requests (resources spec))"

text \<open>
  What the validation markers of the Go types (and so the generated CRD schema) guarantee
  of the percentages.
\<close>

definition crd_valid :: "('q, 'l) policy_spec \<Rightarrow> bool" where
  "crd_valid spec \<longleftrightarrow>
     0 \<le> headroom_percent (algorithm spec) \<and> headroom_percent (algorithm spec) \<le> 300 \<and>
     0 \<le> up_percent (thresholds spec) \<and> up_percent (thresholds spec) \<le> 1000 \<and>
     0 \<le> down_percent (thresholds spec) \<and> down_percent (thresholds spec) \<le> 1000 \<and>
     1 \<le> max_pods_per_run (timing spec) \<and> 1 \<le> max_concurrent_pods (timing spec)"

end
