(* ===== verification/Hash.thy ===== *)
theory Hash
  imports ApiTypes "HOL-Library.Word" "HOL-Library.Char_ord" "HOL-Library.List_Lexorder"
begin

text \<open>
  \<open>hashPodResources\<close> of \<open>internal/policy/policy.go\<close>: the resources of all containers as
  a sorted list of items, its JSON encoding, SHA-256, hexadecimal. The parts of the Go
  standard library it uses are modelled: \<open>encoding/json\<close> on this structure (with HTML
  escaping on; bytes from 128 up are copied, which is what the encoder does for valid
  UTF-8 other than U+2028 and U+2029), \<open>crypto/sha256\<close> and \<open>encoding/hex\<close>.
\<close>

unbundle bit_operations_syntax

section \<open>SHA-256\<close>

type_synonym u32 = "32 word"

definition sha_ch :: "u32 \<Rightarrow> u32 \<Rightarrow> u32 \<Rightarrow> u32" where
  "sha_ch x y z = xor (x AND y) ((NOT x) AND z)"

definition sha_maj :: "u32 \<Rightarrow> u32 \<Rightarrow> u32 \<Rightarrow> u32" where
  "sha_maj x y z = xor (xor (x AND y) (x AND z)) (y AND z)"

definition sha_bsig0 :: "u32 \<Rightarrow> u32" where
  "sha_bsig0 x = xor (xor (word_rotr 2 x) (word_rotr 13 x)) (word_rotr 22 x)"

definition sha_bsig1 :: "u32 \<Rightarrow> u32" where
  "sha_bsig1 x = xor (xor (word_rotr 6 x) (word_rotr 11 x)) (word_rotr 25 x)"

definition sha_ssig0 :: "u32 \<Rightarrow> u32" where
  "sha_ssig0 x = xor (xor (word_rotr 7 x) (word_rotr 18 x)) (drop_bit 3 x)"

definition sha_ssig1 :: "u32 \<Rightarrow> u32" where
  "sha_ssig1 x = xor (xor (word_rotr 17 x) (word_rotr 19 x)) (drop_bit 10 x)"

text \<open>The constants of FIPS 180-4, four 32-bit words to a numeral.\<close>

definition four_words :: "int \<Rightarrow> u32 list" where
  "four_words n = map (\<lambda>i. word_of_int (n div 2 ^ (32 * i))) [3, 2, 1, 0]"

definition sha_k :: "u32 list" where
  "sha_k = concat (map four_words
    [0x428a2f9871374491b5c0fbcfe9b5dba5, 0x3956c25b59f111f1923f82a4ab1c5ed5,
     0xd807aa9812835b01243185be550c7dc3, 0x72be5d7480deb1fe9bdc06a7c19bf174,
     0xe49b69c1efbe47860fc19dc6240ca1cc, 0x2de92c6f4a7484aa5cb0a9dc76f988da,
     0x983e5152a831c66db00327c8bf597fc7, 0xc6e00bf3d5a7914706ca635114292967,
     0x27b70a852e1b21384d2c6dfc53380d13, 0x650a7354766a0abb81c2c92e92722c85,
     0xa2bfe8a1a81a664bc24b8b70c76c51a3, 0xd192e819d6990624f40e3585106aa070,
     0x19a4c1161e376c082748774c34b0bcb5, 0x391c0cb34ed8aa4a5b9cca4f682e6ff3,
     0x748f82ee78a5636f84c878148cc70208, 0x90befffaa4506cebbef9a3f7c67178f2])"

definition sha_init :: "u32 list" where
  "sha_init = concat (map four_words
    [0x6a09e667bb67ae853c6ef372a54ff53a, 0x510e527f9b05688c1f83d9ab5be0cd19])"

text \<open>Message schedule: the words so far, newest first.\<close>

primrec sha_schedule :: "nat \<Rightarrow> u32 list \<Rightarrow> u32 list" where
  "sha_schedule 0 ws = rev ws"
| "sha_schedule (Suc n) ws =
     sha_schedule n ((sha_ssig1 (ws ! 1) + ws ! 6 + sha_ssig0 (ws ! 14) + ws ! 15) # ws)"

fun sha_round :: "u32 list \<Rightarrow> u32 \<times> u32 \<Rightarrow> u32 list" where
  "sha_round [a, b, c, d, e, f, g, h] (k, w) =
     (let t1 = h + sha_bsig1 e + sha_ch e f g + k + w; t2 = sha_bsig0 a + sha_maj a b c
      in [t1 + t2, a, b, c, d + t1, e, f, g])"
| "sha_round s _ = s"

definition sha_block :: "u32 list \<Rightarrow> u32 list \<Rightarrow> u32 list" where
  "sha_block hs ws =
     map2 (+) hs (foldl sha_round hs (zip sha_k (sha_schedule 48 (rev ws))))"

text \<open>The big-endian bytes of \<open>k\<close>, \<open>n\<close> of them; a byte is an \<open>int\<close> below 256.\<close>

primrec be_bytes :: "nat \<Rightarrow> int \<Rightarrow> int list" where
  "be_bytes 0 k = []"
| "be_bytes (Suc n) k = be_bytes n (k div 256) @ [k mod 256]"

definition sha_pad :: "int list \<Rightarrow> int list" where
  "sha_pad bs =
     (let n = length bs
      in bs @ [128] @ replicate ((119 - n mod 64) mod 64) 0 @ be_bytes 8 (8 * int n))"

fun be_words :: "int list \<Rightarrow> u32 list" where
  "be_words (a # b # c # d # bs) = word_of_int (((a * 256 + b) * 256 + c) * 256 + d) # be_words bs"
| "be_words _ = []"

function sha_blocks :: "u32 list \<Rightarrow> u32 list \<Rightarrow> u32 list" where
  "sha_blocks hs ws = (if ws = [] then hs else sha_blocks (sha_block hs (take 16 ws)) (drop 16 ws))"
  by pat_completeness auto
termination
  by (relation "measure (\<lambda>(hs, ws). length ws)") auto

declare sha_blocks.simps [simp del]

text \<open>\<open>sha256.Sum256\<close>: the digest as 32 bytes.\<close>

definition sha256 :: "string \<Rightarrow> int list" where
  "sha256 s =
     concat (map (\<lambda>w. be_bytes 4 (uint w))
       (sha_blocks sha_init (be_words (sha_pad (map of_char s)))))"

section \<open>Hexadecimal and JSON\<close>

definition hex_digit :: "int \<Rightarrow> char" where
  "hex_digit n = ''0123456789abcdef'' ! nat (n mod 16)"

definition hex_encode :: "int list \<Rightarrow> string" where
  "hex_encode bs = concat (map (\<lambda>b. [hex_digit (b div 16), hex_digit b]) bs)"

definition json_char :: "char \<Rightarrow> string" where
  "json_char c =
     (if c = CHR 0x22 then [CHR 0x5C, CHR 0x22]
      else if c = CHR 0x5C then [CHR 0x5C, CHR 0x5C]
      else if c = CHR 0x08 then [CHR 0x5C, CHR ''b'']
      else if c = CHR 0x0C then [CHR 0x5C, CHR ''f'']
      else if c = CHR 0x0A then [CHR 0x5C, CHR ''n'']
      else if c = CHR 0x0D then [CHR 0x5C, CHR ''r'']
      else if c = CHR 0x09 then [CHR 0x5C, CHR ''t'']
      else if of_char c < (32 :: int) \<or> c = CHR ''<'' \<or> c = CHR ''>'' \<or> c = CHR ''&''
      then CHR 0x5C # ''u00'' @ hex_encode [of_char c]
      else [c])"

definition json_string :: "string \<Rightarrow> string" where
  "json_string s = CHR 0x22 # concat (map json_char s) @ [CHR 0x22]"

fun json_join :: "string list \<Rightarrow> string" where
  "json_join [] = ''''"
| "json_join [x] = x"
| "json_join (x # y # xs) = x @ '','' @ json_join (y # xs)"

text \<open>A \<open>map[string]string\<close> is encoded with its keys sorted.\<close>

definition json_map :: "string smap \<Rightarrow> string" where
  "json_map m =
     ''{'' @ json_join (map (\<lambda>(k, v). json_string k @ '':'' @ json_string v) (sort_key fst m)) @ ''}''"

section \<open>The items of a pod\<close>

record hash_item =
  hi_name :: string
  hi_req :: "string smap"
  hi_lim :: "string smap"

definition item_of :: "'q quantity_ops \<Rightarrow> 'q container \<Rightarrow> hash_item" where
  "item_of Q c =
     \<lparr>hi_name = ctr_name c,
      hi_req = map (\<lambda>(k, v). (k, q_string Q v)) (requests c),
      hi_lim = map (\<lambda>(k, v). (k, q_string Q v)) (limits c)\<rparr>"

text \<open>\<open>omitempty\<close>: an empty map is left out of the object.\<close>

definition json_item :: "hash_item \<Rightarrow> string" where
  "json_item it =
     ''{'' @ json_join
       ([json_string ''name'' @ '':'' @ json_string (hi_name it)] @
        (if hi_req it = [] then [] else [json_string ''req'' @ '':'' @ json_map (hi_req it)]) @
        (if hi_lim it = [] then [] else [json_string ''lim'' @ '':'' @ json_map (hi_lim it)])) @ ''}''"

definition json_items :: "hash_item list \<Rightarrow> string" where
  "json_items its = ''['' @ json_join (map json_item its) @ '']''"

definition hash_text :: "'q quantity_ops \<Rightarrow> 'q pod \<Rightarrow> string" where
  "hash_text Q pod =
     (let cs = map (item_of Q) (init_containers pod @ containers pod)
      in json_items (sort_key hi_name cs))"

fun hashPodResources :: "'q quantity_ops \<Rightarrow> 'q pod option \<Rightarrow> string" where
  "hashPodResources Q None = ''''"
| "hashPodResources Q (Some pod) = hex_encode (sha256 (hash_text Q pod))"

declare hashPodResources.simps [simp del]

lemma length_be_bytes [simp]: "length (be_bytes n k) = n"
  by (induction n arbitrary: k) auto

lemma length_hex_encode [simp]: "length (hex_encode bs) = 2 * length bs"
  by (induction bs) (auto simp: hex_encode_def)

lemma hex_encode_digits: "set (hex_encode bs) \<subseteq> set ''0123456789abcdef''"
proof -
  have "hex_digit n \<in> set ''0123456789abcdef''" for n
    unfolding hex_digit_def by (rule nth_mem) (simp add: nat_less_iff)
  then show ?thesis by (auto simp: hex_encode_def)
qed

lemma length_sha_round [simp]: "length (sha_round hs kw) = length hs"
  by (cases "(hs, kw)" rule: sha_round.cases) (auto simp: Let_def)

lemma length_foldl_sha_round [simp]: "length (foldl sha_round hs kws) = length hs"
  by (induction kws arbitrary: hs) auto

lemma length_sha_blocks [simp]: "length (sha_blocks hs ws) = length hs"
  by (induction hs ws rule: sha_blocks.induct) (subst sha_blocks.simps, auto simp: sha_block_def)

lemma length_sha256: "length (sha256 s) = 32"
  by (simp add: sha256_def length_concat comp_def sha_init_def four_words_def sum_list_triv)

end
