(* ===== verification/Policy.thy ===== *)
theory Policy
  imports PolicyMath Hash
begin

text \<open>
  \<open>internal/policy/policy.go\<close>: the quality-of-service class of a pod, bounds, the limits
  mode, the per-container step of \<open>ComputeDesired\<close>, the repair of the QoS class
  (\<open>forceBurstable\<close>) and the request delta. Deep copies are the identity: HOL values are
  not shared. \<open>range\<close> over a slice with in-place updates is a map or fold over the list.
\<close>

section \<open>Reading quantities\<close>

definition quantityMilli :: "'q quantity_ops \<Rightarrow> 'q option \<Rightarrow> int" where
  "quantityMilli Q q = (case q of None \<Rightarrow> 0 | Some x \<Rightarrow> q_milli Q x)"

definition quantityBytes :: "'q quantity_ops \<Rightarrow> 'q option \<Rightarrow> int" where
  "quantityBytes Q q = (case q of None \<Rightarrow> 0 | Some x \<Rightarrow> q_value Q x)"

definition quantityMilliOrZero :: "'q quantity_ops \<Rightarrow> 'q resource_list \<Rightarrow> string \<Rightarrow> int" where
  "quantityMilliOrZero Q rl name = (case map_of rl name of None \<Rightarrow> 0 | Some q \<Rightarrow> q_milli Q q)"

definition quantityBytesOrZero :: "'q quantity_ops \<Rightarrow> 'q resource_list \<Rightarrow> string \<Rightarrow> int" where
  "quantityBytesOrZero Q rl name = (case map_of rl name of None \<Rightarrow> 0 | Some q \<Rightarrow> q_value Q q)"

text \<open>A lookup of a Go map without the \<open>ok\<close> result: the zero value for an absent key.\<close>

definition rl_get :: "'q quantity_ops \<Rightarrow> 'q resource_list \<Rightarrow> string \<Rightarrow> 'q" where
  "rl_get Q rl name = (case map_of rl name of None \<Rightarrow> q_zero Q | Some q \<Rightarrow> q)"

section \<open>Comparing resource lists\<close>

text \<open>One of the two loops: every entry of \<open>a\<close> agrees with \<open>b\<close>, absent meaning zero.\<close>

definition rl_covered :: "'q quantity_ops \<Rightarrow> ('q \<Rightarrow> 'q \<Rightarrow> int) \<Rightarrow> 'q resource_list \<Rightarrow> 'q resource_list \<Rightarrow> bool" where
  "rl_covered Q cmp a b =
     list_all (\<lambda>k. case map_of a k of None \<Rightarrow> True
       | Some av \<Rightarrow> (case map_of b k of None \<Rightarrow> q_is_zero Q av | Some bv \<Rightarrow> cmp av bv = 0))
     (map fst a)"

definition resourceListEqual :: "'q quantity_ops \<Rightarrow> 'q resource_list \<Rightarrow> 'q resource_list \<Rightarrow> bool" where
  "resourceListEqual Q a b \<longleftrightarrow>
     rl_covered Q (\<lambda>av bv. q_cmp Q av bv) a b \<and>
     rl_covered Q (\<lambda>bv av. q_cmp Q av bv) b a"

section \<open>Quality of service\<close>

definition cpu_mem_set :: "'q resource_list \<Rightarrow> bool \<times> bool" where
  "cpu_mem_set rl = (map_of rl ResourceCPU \<noteq> None, map_of rl ResourceMemory \<noteq> None)"

text \<open>One iteration of the loop of \<open>podQoSClass\<close> on the flags \<open>(bestEffort, guaranteed)\<close>.\<close>

definition qos_step :: "'q quantity_ops \<Rightarrow> 'q container \<Rightarrow> bool \<times> bool \<Rightarrow> bool \<times> bool" where
  "qos_step Q c = (\<lambda>(bestEffort, guaranteed).
     let req = requests c; lim = limits c;
         (reqCPUSet, reqMemSet) = cpu_mem_set req;
         (limCPUSet, limMemSet) = cpu_mem_set lim;
         bestEffort' = (if reqCPUSet \<or> reqMemSet \<or> limCPUSet \<or> limMemSet then False else bestEffort)
     in if \<not> reqCPUSet \<or> \<not> reqMemSet \<or> \<not> limCPUSet \<or> \<not> limMemSet then (bestEffort', False)
        else if q_cmp Q (rl_get Q req ResourceCPU) (rl_get Q lim ResourceCPU) \<noteq> 0 \<or>
                q_cmp Q (rl_get Q req ResourceMemory) (rl_get Q lim ResourceMemory) \<noteq> 0
        then (bestEffort', False)
        else (bestEffort', guaranteed))"

fun podQoSClass :: "'q quantity_ops \<Rightarrow> 'q pod option \<Rightarrow> qos_class" where
  "podQoSClass Q None = BestEffort"
| "podQoSClass Q (Some pod) =
     (let (bestEffort, guaranteed) =
        fold (qos_step Q) (init_containers pod @ containers pod) (True, True)
      in if guaranteed then Guaranteed else if bestEffort then BestEffort else Burstable)"

declare podQoSClass.simps [simp del]

section \<open>Bounds\<close>

text \<open>The updated list, whether the minimum was hit, whether the maximum was hit.\<close>

definition applyBounds ::
  "'q quantity_ops \<Rightarrow> 'q resource_list \<Rightarrow> string \<Rightarrow> 'q option \<Rightarrow> 'q option \<Rightarrow> 'q resource_list \<times> bool \<times> bool" where
  "applyBounds Q rl name minQ maxQ =
     (let cur = rl_get Q rl name;
          hitMin = (case minQ of None \<Rightarrow> False | Some m \<Rightarrow> q_cmp Q cur m < 0);
          hitMax = (case maxQ of None \<Rightarrow> False | Some m \<Rightarrow> q_cmp Q cur m > 0);
          rl1 = (case minQ of Some m \<Rightarrow> if hitMin then AList.update name m rl else rl | None \<Rightarrow> rl);
          rl2 = (case maxQ of Some m \<Rightarrow> if hitMax then AList.update name m rl1 else rl1 | None \<Rightarrow> rl1)
      in (rl2, hitMin, hitMax))"

section \<open>Results and errors\<close>

record delta =
  cpu_request_milli :: int
  memory_request_byte :: int

record 'q result =
  desired :: "'q pod option"
  hash :: string
  changed :: bool
  res_delta :: delta
  n_containers :: nat
  no_metrics :: nat
  skipped_down :: nat
  clamped_cpu :: nat
  clamped_mem :: nat
  bounded_cpu_min :: nat
  bounded_cpu_max :: nat
  bounded_mem_min :: nat
  bounded_mem_max :: nat

definition empty_result :: "'q result" where
  "empty_result =
     \<lparr>desired = None, hash = '''', changed = False,
      res_delta = \<lparr>cpu_request_milli = 0, memory_request_byte = 0\<rparr>,
      n_containers = 0, no_metrics = 0, skipped_down = 0, clamped_cpu = 0, clamped_mem = 0,
      bounded_cpu_min = 0, bounded_cpu_max = 0, bounded_mem_min = 0, bounded_mem_max = 0\<rparr>"

datatype policy_error =
    PodNil
  | MetricsNil
  | UnsupportedLimitsMode string
  | QoSChange (qos_from: qos_class) (qos_to: qos_class)

section \<open>The per-container step\<close>

text \<open>
  The two proposals: the new request list and whether a downscale was skipped, for the
  usage, the current requests and the requests so far.
\<close>

definition propose_cpu ::
  "'q quantity_ops \<Rightarrow> ('q, 'l) policy_spec \<Rightarrow> 'q resource_list \<Rightarrow> 'q resource_list \<Rightarrow> 'q resource_list
    \<Rightarrow> 'q resource_list \<times> bool" where
  "propose_cpu Q spec use curReq newReq =
     (if cpu_on spec then
        (let headroom = i32 (100 + headroom_percent (algorithm spec));
             allowDown = allow_downscale (algorithm spec);
             usageMilli = quantityMilliOrZero Q use ResourceCPU;
             curMilli = quantityMilliOrZero Q curReq ResourceCPU;
             targetMilli = divCeil (i64 (usageMilli * headroom)) 100;
             targetMilli = quantizeMilliCPU targetMilli curMilli allowDown;
             (decidedMilli, chg, downSkipped) =
               decide targetMilli curMilli (up_percent (thresholds spec)) (down_percent (thresholds spec))
                 allowDown (quantityMilli Q (min_change_cpu (bounds spec)))
         in (if chg then AList.update ResourceCPU (q_new_milli Q decidedMilli) newReq else newReq,
             downSkipped))
      else (newReq, False))"

definition propose_memory ::
  "'q quantity_ops \<Rightarrow> ('q, 'l) policy_spec \<Rightarrow> 'q resource_list \<Rightarrow> 'q resource_list \<Rightarrow> 'q resource_list
    \<Rightarrow> 'q resource_list \<times> bool" where
  "propose_memory Q spec use curReq newReq =
     (if memory_on spec then
        (let headroom = i32 (100 + headroom_percent (algorithm spec));
             allowDown = allow_downscale (algorithm spec);
             usageBytes = quantityBytesOrZero Q use ResourceMemory;
             curBytes = quantityBytesOrZero Q curReq ResourceMemory;
             targetBytes = divCeil (i64 (usageBytes * headroom)) 100;
             targetBytes = quantizeBytesMemory targetBytes curBytes allowDown;
             (decidedBytes, chg, downSkipped) =
               decide targetBytes curBytes (up_percent (thresholds spec)) (down_percent (thresholds spec))
                 allowDown (quantityBytes Q (min_change_memory (bounds spec)))
         in (if chg then AList.update ResourceMemory (q_new_bytes Q decidedBytes) newReq else newReq,
             downSkipped))
      else (newReq, False))"

text \<open>Clamping one resource's request to the current limit (mode \<open>Unchanged\<close>).\<close>

definition clamp_to_limit ::
  "'q quantity_ops \<Rightarrow> bool \<Rightarrow> string \<Rightarrow> 'q resource_list \<Rightarrow> 'q resource_list \<Rightarrow> 'q resource_list \<times> bool" where
  "clamp_to_limit Q on name curLim newReq =
     (case map_of curLim name of
        Some lim \<Rightarrow>
          if on then
            (case map_of newReq name of
               Some req \<Rightarrow> if q_cmp Q req lim > 0 then (AList.update name lim newReq, True) else (newReq, False)
             | None \<Rightarrow> (newReq, False))
          else (newReq, False)
      | None \<Rightarrow> (newReq, False))"

text \<open>
  The \<open>switch limitsMode\<close>: new requests, new limits, and whether CPU and memory were
  clamped; or the error for an unknown mode.
\<close>

definition apply_limits_mode ::
  "'q quantity_ops \<Rightarrow> ('q, 'l) policy_spec \<Rightarrow> string \<Rightarrow> 'q resource_list \<Rightarrow> 'q resource_list \<Rightarrow> 'q resource_list
    \<Rightarrow> policy_error + 'q resource_list \<times> 'q resource_list \<times> bool \<times> bool" where
  "apply_limits_mode Q spec mode curLim newReq newLim =
     (if mode = LimitsModeEqualRequests then
        (let newLim1 = (if cpu_on spec
               then AList.update ResourceCPU (rl_get Q newReq ResourceCPU) newLim else newLim);
             newLim2 = (if memory_on spec
               then AList.update ResourceMemory (rl_get Q newReq ResourceMemory) newLim1 else newLim1)
         in Inr (newReq, newLim2, False, False))
      else if mode = '''' \<or> mode = LimitsModeUnchanged then
        (let (newReq1, clampCPU) = clamp_to_limit Q (cpu_on spec) ResourceCPU curLim newReq;
             (newReq2, clampMem) = clamp_to_limit Q (memory_on spec) ResourceMemory curLim newReq1
         in Inr (newReq2, newLim, clampCPU, clampMem))
      else Inl (UnsupportedLimitsMode (limits_mode (resources spec))))"

text \<open>
  The requests and limits a container with known usage gets, with everything that is
  counted: lines 123--201.
\<close>

record 'q proposal =
  new_req :: "'q resource_list"
  new_lim :: "'q resource_list"
  skip_cpu :: bool
  skip_mem :: bool
  hit_cpu_min :: bool
  hit_cpu_max :: bool
  hit_mem_min :: bool
  hit_mem_max :: bool
  clamp_cpu :: bool
  clamp_mem :: bool

definition propose ::
  "'q quantity_ops \<Rightarrow> ('q, 'l) policy_spec \<Rightarrow> string \<Rightarrow> 'q resource_list \<Rightarrow> 'q container
    \<Rightarrow> policy_error + 'q proposal" where
  "propose Q spec mode use c =
     (let curReq = requests c; curLim = limits c;
          (newReq1, sCPU) = propose_cpu Q spec use curReq curReq;
          (newReq2, sMem) = propose_memory Q spec use curReq newReq1;
          (newReq3, cpuMin, cpuMax) =
            applyBounds Q newReq2 ResourceCPU (cpu_min (bounds spec)) (cpu_max (bounds spec));
          (newReq4, memMin, memMax) =
            applyBounds Q newReq3 ResourceMemory (memory_min (bounds spec)) (memory_max (bounds spec))
      in case apply_limits_mode Q spec mode curLim newReq4 curLim of
           Inl e \<Rightarrow> Inl e
         | Inr (newReq5, newLim, cCPU, cMem) \<Rightarrow>
             Inr \<lparr>new_req = newReq5, new_lim = newLim, skip_cpu = sCPU, skip_mem = sMem,
                  hit_cpu_min = cpuMin, hit_cpu_max = cpuMax, hit_mem_min = memMin, hit_mem_max = memMax,
                  clamp_cpu = cCPU, clamp_mem = cMem\<rparr>)"

definition count :: "bool \<Rightarrow> nat" where
  "count b = (if b then 1 else 0)"

definition count_proposal :: "'q proposal \<Rightarrow> 'q result \<Rightarrow> 'q result" where
  "count_proposal p r =
     r\<lparr>skipped_down := skipped_down r + count (skip_cpu p) + count (skip_mem p),
       bounded_cpu_min := bounded_cpu_min r + count (hit_cpu_min p),
       bounded_cpu_max := bounded_cpu_max r + count (hit_cpu_max p),
       bounded_mem_min := bounded_mem_min r + count (hit_mem_min p),
       bounded_mem_max := bounded_mem_max r + count (hit_mem_max p),
       clamped_cpu := clamped_cpu r + count (clamp_cpu p),
       clamped_mem := clamped_mem r + count (clamp_mem p)\<rparr>"

text \<open>One iteration of the container loop: the container and the result after it.\<close>

definition container_step ::
  "'q quantity_ops \<Rightarrow> ('q, 'l) policy_spec \<Rightarrow> string \<Rightarrow> (string \<rightharpoonup> 'q resource_list)
    \<Rightarrow> 'q container \<Rightarrow> 'q result \<Rightarrow> policy_error + 'q container \<times> 'q result" where
  "container_step Q spec mode usageByContainer c r0 =
     (let r1 = r0\<lparr>n_containers := Suc (n_containers r0)\<rparr>
      in case usageByContainer (ctr_name c) of
           None \<Rightarrow> Inr (c, r1\<lparr>no_metrics := Suc (no_metrics r1)\<rparr>)
         | Some use \<Rightarrow>
             (case propose Q spec mode use c of
                Inl e \<Rightarrow> Inl e
              | Inr p \<Rightarrow>
                  (let r2 = count_proposal p r1
                   in if \<not> resourceListEqual Q (requests c) (new_req p) \<or>
                         \<not> resourceListEqual Q (limits c) (new_lim p)
                      then Inr (c\<lparr>requests := new_req p, limits := new_lim p\<rparr>, r2\<lparr>changed := True\<rparr>)
                      else Inr (c, r2))))"

primrec containers_loop ::
  "'q quantity_ops \<Rightarrow> ('q, 'l) policy_spec \<Rightarrow> string \<Rightarrow> (string \<rightharpoonup> 'q resource_list)
    \<Rightarrow> 'q container list \<Rightarrow> 'q result \<Rightarrow> policy_error + 'q container list \<times> 'q result" where
  "containers_loop Q spec mode u [] r = Inr ([], r)"
| "containers_loop Q spec mode u (c # cs) r =
     (case container_step Q spec mode u c r of
        Inl e \<Rightarrow> Inl e
      | Inr (c', r') \<Rightarrow>
          (case containers_loop Q spec mode u cs r' of
             Inl e \<Rightarrow> Inl e
           | Inr (cs', r'') \<Rightarrow> Inr (c' # cs', r'')))"

section \<open>Repairing the QoS class\<close>

text \<open>
  One resource of one container: the lowered request, if the code lowers it. \<open>rd\<close> and
  \<open>mk\<close> are the reading and making of a quantity in the resource's unit.
\<close>

definition lower_request ::
  "'q quantity_ops \<Rightarrow> bool \<Rightarrow> string \<Rightarrow> ('q \<Rightarrow> int) \<Rightarrow> (int \<Rightarrow> 'q) \<Rightarrow> int \<Rightarrow> int \<Rightarrow> 'q container
    \<Rightarrow> 'q container option" where
  "lower_request Q on name rd mk step minimum c =
     (if on then
        (case map_of (limits c) name of
           None \<Rightarrow> None
         | Some lim \<Rightarrow>
             (case map_of (requests c) name of
                None \<Rightarrow> None
              | Some req \<Rightarrow>
                  if q_cmp Q req lim = 0 then
                    (let limV = rd lim;
                         newV = i64 (limV - step);
                         newV = (if newV < minimum then minimum else newV)
                     in if newV < limV
                        then Some (c\<lparr>requests := AList.update name (mk newV) (requests c)\<rparr>)
                        else None)
                  else None))
      else None)"

definition force_container ::
  "'q quantity_ops \<Rightarrow> ('q, 'l) policy_spec \<Rightarrow> 'q container \<Rightarrow> 'q container option" where
  "force_container Q spec c =
     (let minCPUMilli = quantityMilli Q (cpu_min (bounds spec));
          minMemBytes = quantityBytes Q (memory_min (bounds spec))
      in case lower_request Q (cpu_on spec) ResourceCPU (q_milli Q) (q_new_milli Q) cpuStepMilli minCPUMilli c of
           Some c' \<Rightarrow> Some c'
         | None \<Rightarrow>
             lower_request Q (memory_on spec) ResourceMemory (q_value Q) (q_new_bytes Q) memoryStepBytes minMemBytes c)"

text \<open>The loop stops at the first container it lowers; \<open>None\<close> is the result \<open>false\<close>.\<close>

primrec force_containers ::
  "'q quantity_ops \<Rightarrow> ('q, 'l) policy_spec \<Rightarrow> 'q container list \<Rightarrow> 'q container list option" where
  "force_containers Q spec [] = None"
| "force_containers Q spec (c # cs) =
     (case force_container Q spec c of
        Some c' \<Rightarrow> Some (c' # cs)
      | None \<Rightarrow> map_option (\<lambda>cs'. c # cs') (force_containers Q spec cs))"

fun forceBurstable ::
  "'q quantity_ops \<Rightarrow> ('q, 'l) policy_spec \<Rightarrow> 'q pod option \<Rightarrow> 'q pod option \<times> bool" where
  "forceBurstable Q spec None = (None, False)"
| "forceBurstable Q spec (Some pod) =
     (case force_containers Q spec (containers pod) of
        Some cs \<Rightarrow> (Some (pod\<lparr>containers := cs\<rparr>), True)
      | None \<Rightarrow> (Some pod, False))"

section \<open>Request delta\<close>

text \<open>\<open>oldByName\<close>: a later container of the same name replaces an earlier one.\<close>

definition old_by_name :: "'q container list \<Rightarrow> string \<rightharpoonup> 'q resource_list" where
  "old_by_name cs = foldl (\<lambda>m c. m(ctr_name c \<mapsto> requests c)) Map.empty cs"

definition delta_step ::
  "'q quantity_ops \<Rightarrow> (string \<rightharpoonup> 'q resource_list) \<Rightarrow> delta \<Rightarrow> 'q container \<Rightarrow> delta" where
  "delta_step Q oldByName d c =
     (let oldReq = (case oldByName (ctr_name c) of None \<Rightarrow> [] | Some r \<Rightarrow> r);
          newReq = requests c
      in \<lparr>cpu_request_milli = i64 (cpu_request_milli d +
             i64 (quantityMilliOrZero Q newReq ResourceCPU - quantityMilliOrZero Q oldReq ResourceCPU)),
          memory_request_byte = i64 (memory_request_byte d +
             i64 (quantityBytesOrZero Q newReq ResourceMemory - quantityBytesOrZero Q oldReq ResourceMemory))\<rparr>)"

fun computeDeltaRequests :: "'q quantity_ops \<Rightarrow> 'q pod option \<Rightarrow> 'q pod option \<Rightarrow> delta" where
  "computeDeltaRequests Q (Some oldPod) (Some newPod) =
     foldl (delta_step Q (old_by_name (containers oldPod)))
       \<lparr>cpu_request_milli = 0, memory_request_byte = 0\<rparr> (containers newPod)"
| "computeDeltaRequests Q _ _ = \<lparr>cpu_request_milli = 0, memory_request_byte = 0\<rparr>"

section \<open>ComputeDesired\<close>

definition usage_by_container :: "'q pod_metrics \<Rightarrow> string \<rightharpoonup> 'q resource_list" where
  "usage_by_container pm = foldl (\<lambda>m c. m(cm_name c \<mapsto> usage c)) Map.empty (pm_containers pm)"

text \<open>The limits mode in effect: \<open>EqualRequests\<close> only for a Guaranteed pod.\<close>

definition effective_limits_mode :: "string \<Rightarrow> qos_class \<Rightarrow> string" where
  "effective_limits_mode mode0 currentQoS =
     (let mode = (if mode0 = '''' then LimitsModeUnchanged else mode0)
      in if currentQoS \<noteq> Guaranteed \<and> mode = LimitsModeEqualRequests then LimitsModeUnchanged else mode)"

text \<open>
  Lines 210--225: keep the QoS class. \<open>Inr\<close> is the pod to continue with, \<open>Inl\<close> the class
  it would have changed to.
\<close>

definition settle_qos ::
  "'q quantity_ops \<Rightarrow> ('q, 'l) policy_spec \<Rightarrow> qos_class \<Rightarrow> 'q pod \<Rightarrow> qos_class + 'q pod" where
  "settle_qos Q spec currentQoS des =
     (let desiredQoS = podQoSClass Q (Some des);
          (des', desiredQoS') =
            (if desiredQoS \<noteq> currentQoS \<and> currentQoS = Burstable \<and> desiredQoS = Guaranteed then
               (case forceBurstable Q spec (Some des) of
                  (Some d, True) \<Rightarrow> (d, podQoSClass Q (Some d))
                | _ \<Rightarrow> (des, desiredQoS))
             else (des, desiredQoS))
      in if desiredQoS' \<noteq> currentQoS then Inl desiredQoS' else Inr des')"

definition unchanged_result :: "'q quantity_ops \<Rightarrow> 'q pod \<Rightarrow> 'q result" where
  "unchanged_result Q pod =
     empty_result\<lparr>desired := Some pod, hash := hashPodResources Q (Some pod), changed := False\<rparr>"

text \<open>Go returns the result and an error; \<open>None\<close> is the nil error.\<close>

fun ComputeDesired ::
  "'q quantity_ops \<Rightarrow> 'q pod option \<Rightarrow> 'q pod_metrics option \<Rightarrow> ('q, 'l) policy_spec
    \<Rightarrow> 'q result \<times> policy_error option" where
  "ComputeDesired Q None pm spec = (empty_result, Some PodNil)"
| "ComputeDesired Q (Some pod) None spec = (empty_result, Some MetricsNil)"
| "ComputeDesired Q (Some pod) (Some pm) spec =
     (if \<not> cpu_on spec \<and> \<not> memory_on spec then (unchanged_result Q pod, None)
      else
        (let currentQoS = podQoSClass Q (Some pod);
             mode = effective_limits_mode (limits_mode (resources spec)) currentQoS
         in case containers_loop Q spec mode (usage_by_container pm) (containers pod) empty_result of
              Inl e \<Rightarrow> (empty_result, Some e)
            | Inr (cs, res) \<Rightarrow>
                (let des0 = pod\<lparr>containers := cs\<rparr>
                 in case (if changed res then settle_qos Q spec currentQoS des0 else Inr des0) of
                      Inl q \<Rightarrow> (unchanged_result Q pod, Some (QoSChange currentQoS q))
                    | Inr des \<Rightarrow>
                        (res\<lparr>desired := Some des,
                             res_delta := computeDeltaRequests Q (Some pod) (Some des),
                             hash := hashPodResources Q (Some des)\<rparr>, None))))"

declare ComputeDesired.simps [simp del]

end
