(* ===== verification/PolicyLemmas.thy ===== *)
theory PolicyLemmas
  imports Policy
begin

text \<open>
  The library behind the properties of \<open>ComputeDesired\<close>: what each building block does to a
  resource list, the container loop as a relation between the old and the new containers,
  and the declarative reading of the QoS class. The collection \<open>rl_lookup\<close> holds the
  lookups that pass through an operation on another resource.
\<close>

named_theorems rl_lookup

section \<open>Lookups through the building blocks\<close>

lemma propose_cpu_other [rl_lookup]:
  "k \<noteq> ResourceCPU \<Longrightarrow> map_of (fst (propose_cpu Q spec use cur new)) k = map_of new k"
  by (simp add: propose_cpu_def Let_def split: prod.splits)

lemma propose_memory_other [rl_lookup]:
  "k \<noteq> ResourceMemory \<Longrightarrow> map_of (fst (propose_memory Q spec use cur new)) k = map_of new k"
  by (simp add: propose_memory_def Let_def split: prod.splits)

lemma propose_cpu_off: "\<not> cpu_on spec \<Longrightarrow> propose_cpu Q spec use cur new = (new, False)"
  by (simp add: propose_cpu_def)

lemma propose_memory_off: "\<not> memory_on spec \<Longrightarrow> propose_memory Q spec use cur new = (new, False)"
  by (simp add: propose_memory_def)

lemma applyBounds_other [rl_lookup]:
  "k \<noteq> name \<Longrightarrow> map_of (fst (applyBounds Q rl name mn mx)) k = map_of rl k"
  by (simp add: applyBounds_def Let_def split: option.splits)

lemma applyBounds_none [simp]: "applyBounds Q rl name None None = (rl, False, False)"
  by (simp add: applyBounds_def)

lemma clamp_to_limit_other [rl_lookup]:
  "k \<noteq> name \<Longrightarrow> map_of (fst (clamp_to_limit Q on name lim rl)) k = map_of rl k"
  by (simp add: clamp_to_limit_def split: option.splits)

lemma clamp_to_limit_off [simp]: "clamp_to_limit Q False name lim rl = (rl, False)"
  by (simp add: clamp_to_limit_def split: option.splits)

lemma clamp_to_limit_no_limit: "map_of lim name = None \<Longrightarrow> clamp_to_limit Q on name lim rl = (rl, False)"
  by (simp add: clamp_to_limit_def)

text \<open>The requests of a proposal before and after the limits mode.\<close>

definition bounded_requests ::
  "'q quantity_ops \<Rightarrow> ('q, 'l) policy_spec \<Rightarrow> 'q resource_list \<Rightarrow> 'q container \<Rightarrow> 'q resource_list" where
  "bounded_requests Q spec use c =
     fst (applyBounds Q
       (fst (applyBounds Q
         (fst (propose_memory Q spec use (requests c) (fst (propose_cpu Q spec use (requests c) (requests c)))))
         ResourceCPU (cpu_min (bounds spec)) (cpu_max (bounds spec))))
       ResourceMemory (memory_min (bounds spec)) (memory_max (bounds spec)))"

lemma propose_via_bounded:
  "propose Q spec mode use c = Inr p \<Longrightarrow>
    \<exists>cc cm. apply_limits_mode Q spec mode (limits c) (bounded_requests Q spec use c) (limits c) =
      Inr (new_req p, new_lim p, cc, cm)"
  by (auto simp: propose_def bounded_requests_def Let_def split: prod.splits sum.splits)

lemma propose_unchanged_mode:
  assumes "propose Q spec mode use c = Inr p" "mode \<noteq> LimitsModeEqualRequests"
  shows "new_lim p = limits c"
    and "new_req p =
      fst (clamp_to_limit Q (memory_on spec) ResourceMemory (limits c)
        (fst (clamp_to_limit Q (cpu_on spec) ResourceCPU (limits c) (bounded_requests Q spec use c))))"
  using propose_via_bounded [OF assms(1)] assms(2)
  by (auto simp: apply_limits_mode_def Let_def split: prod.splits if_splits)

lemma propose_equal_mode:
  assumes "propose Q spec LimitsModeEqualRequests use c = Inr p"
  shows "new_req p = bounded_requests Q spec use c"
    and "cpu_on spec \<Longrightarrow> map_of (new_lim p) ResourceCPU = Some (rl_get Q (new_req p) ResourceCPU)"
    and "memory_on spec \<Longrightarrow> map_of (new_lim p) ResourceMemory = Some (rl_get Q (new_req p) ResourceMemory)"
    and "\<not> cpu_on spec \<Longrightarrow> map_of (new_lim p) ResourceCPU = map_of (limits c) ResourceCPU"
    and "\<not> memory_on spec \<Longrightarrow> map_of (new_lim p) ResourceMemory = map_of (limits c) ResourceMemory"
    and "k \<noteq> ResourceCPU \<Longrightarrow> k \<noteq> ResourceMemory \<Longrightarrow> map_of (new_lim p) k = map_of (limits c) k"
proof -
  let ?r = "bounded_requests Q spec use c"
  have "new_req p = ?r" and lim: "new_lim p =
    (let l = (if cpu_on spec then AList.update ResourceCPU (rl_get Q ?r ResourceCPU) (limits c) else limits c)
     in if memory_on spec then AList.update ResourceMemory (rl_get Q ?r ResourceMemory) l else l)"
    using propose_via_bounded [OF assms] by (auto simp: apply_limits_mode_def Let_def)
  then show "new_req p = ?r"
    and "cpu_on spec \<Longrightarrow> map_of (new_lim p) ResourceCPU = Some (rl_get Q (new_req p) ResourceCPU)"
    and "memory_on spec \<Longrightarrow> map_of (new_lim p) ResourceMemory = Some (rl_get Q (new_req p) ResourceMemory)"
    and "\<not> cpu_on spec \<Longrightarrow> map_of (new_lim p) ResourceCPU = map_of (limits c) ResourceCPU"
    and "\<not> memory_on spec \<Longrightarrow> map_of (new_lim p) ResourceMemory = map_of (limits c) ResourceMemory"
    and "k \<noteq> ResourceCPU \<Longrightarrow> k \<noteq> ResourceMemory \<Longrightarrow> map_of (new_lim p) k = map_of (limits c) k"
    by (simp_all add: lim Let_def)
qed

lemma bounded_requests_other [rl_lookup]:
  "k \<noteq> ResourceCPU \<Longrightarrow> k \<noteq> ResourceMemory \<Longrightarrow>
    map_of (bounded_requests Q spec use c) k = map_of (requests c) k"
  by (simp add: bounded_requests_def rl_lookup)

lemma new_req_other [rl_lookup]:
  assumes "propose Q spec mode use c = Inr p" "k \<noteq> ResourceCPU" "k \<noteq> ResourceMemory"
  shows "map_of (new_req p) k = map_of (requests c) k"
proof (cases "mode = LimitsModeEqualRequests")
  case True
  with assms show ?thesis by (simp add: propose_equal_mode rl_lookup)
next
  case False
  with assms show ?thesis by (simp add: propose_unchanged_mode rl_lookup)
qed

lemma new_lim_other [rl_lookup]:
  assumes "propose Q spec mode use c = Inr p" "k \<noteq> ResourceCPU" "k \<noteq> ResourceMemory"
  shows "map_of (new_lim p) k = map_of (limits c) k"
proof (cases "mode = LimitsModeEqualRequests")
  case True
  with assms show ?thesis by (simp add: propose_equal_mode)
next
  case False
  with assms show ?thesis by (simp add: propose_unchanged_mode)
qed

section \<open>The container loop\<close>

text \<open>What one iteration does to one container.\<close>

inductive evolves ::
  "'q quantity_ops \<Rightarrow> ('q, 'l) policy_spec \<Rightarrow> string \<Rightarrow> (string \<rightharpoonup> 'q resource_list) \<Rightarrow> 'q container \<Rightarrow> 'q container \<Rightarrow> bool"
  for Q spec mode u where
  no_usage: "u (ctr_name c) = None \<Longrightarrow> evolves Q spec mode u c c"
| kept: "u (ctr_name c) = Some use \<Longrightarrow> propose Q spec mode use c = Inr p \<Longrightarrow>
    resourceListEqual Q (requests c) (new_req p) \<Longrightarrow> resourceListEqual Q (limits c) (new_lim p) \<Longrightarrow>
    evolves Q spec mode u c c"
| resized: "u (ctr_name c) = Some use \<Longrightarrow> propose Q spec mode use c = Inr p \<Longrightarrow>
    \<not> resourceListEqual Q (requests c) (new_req p) \<or> \<not> resourceListEqual Q (limits c) (new_lim p) \<Longrightarrow>
    evolves Q spec mode u c (c\<lparr>requests := new_req p, limits := new_lim p\<rparr>)"

lemma container_step_evolves:
  "container_step Q spec mode u c r = Inr (c', r') \<Longrightarrow> evolves Q spec mode u c c'"
  by (auto simp: container_step_def Let_def intro: evolves.intros
      split: option.splits sum.splits if_splits)

lemma container_step_changed:
  "container_step Q spec mode u c r = Inr (c', r') \<Longrightarrow>
    (changed r \<longrightarrow> changed r') \<and> (\<not> changed r' \<longrightarrow> c' = c) \<and>
    n_containers r' = Suc (n_containers r) \<and> desired r' = desired r"
  by (auto simp: container_step_def count_proposal_def Let_def
      split: option.splits sum.splits if_splits)

lemma containers_loop_evolves:
  "containers_loop Q spec mode u cs r = Inr (cs', r') \<Longrightarrow> list_all2 (evolves Q spec mode u) cs cs'"
  by (induction cs arbitrary: r cs' r')
    (auto dest: container_step_evolves split: sum.splits prod.splits)

lemma containers_loop_changed:
  "containers_loop Q spec mode u cs r = Inr (cs', r') \<Longrightarrow>
    (changed r \<longrightarrow> changed r') \<and> (\<not> changed r' \<longrightarrow> cs' = cs) \<and>
    n_containers r' = n_containers r + length cs \<and> desired r' = desired r"
proof (induction cs arbitrary: r cs' r')
  case Nil
  then show ?case by simp
next
  case (Cons c cs)
  from Cons.prems obtain c1 r1 cs1 where
    "container_step Q spec mode u c r = Inr (c1, r1)"
    and "containers_loop Q spec mode u cs r1 = Inr (cs1, r')" and "cs' = c1 # cs1"
    by (auto split: sum.splits prod.splits)
  with Cons.IH [of r1 cs1 r'] container_step_changed [of Q spec mode u c r c1 r1]
  show ?case by auto
qed

section \<open>The repair\<close>

lemma lower_request_shape:
  "lower_request Q on name rd mk step minimum c = Some c' \<Longrightarrow>
    \<exists>lim req v. on \<and> map_of (limits c) name = Some lim \<and> map_of (requests c) name = Some req \<and>
      q_cmp Q req lim = 0 \<and> v = max (i64 (rd lim - step)) minimum \<and> v < rd lim \<and>
      c' = c\<lparr>requests := AList.update name (mk v) (requests c)\<rparr>"
  by (auto simp: lower_request_def Let_def max_def split: option.splits if_splits)

lemma force_container_cases:
  assumes "force_container Q spec c = Some c'"
  obtains (cpu) "lower_request Q (cpu_on spec) ResourceCPU (q_milli Q) (q_new_milli Q) cpuStepMilli
      (quantityMilli Q (cpu_min (bounds spec))) c = Some c'"
  | (memory) "lower_request Q (memory_on spec) ResourceMemory (q_value Q) (q_new_bytes Q) memoryStepBytes
      (quantityBytes Q (memory_min (bounds spec))) c = Some c'"
  using assms by (auto simp: force_container_def Let_def split: option.splits)

text \<open>\<open>Some\<close> result: exactly one container is replaced.\<close>

lemma force_containers_shape:
  "force_containers Q spec cs = Some cs' \<Longrightarrow>
    \<exists>pre c c' post. cs = pre @ c # post \<and> cs' = pre @ c' # post \<and> force_container Q spec c = Some c'"
proof (induction cs arbitrary: cs')
  case Nil
  then show ?case by simp
next
  case (Cons c cs)
  show ?case
  proof (cases "force_container Q spec c")
    case None
    with Cons.prems obtain cs1 where "force_containers Q spec cs = Some cs1" and "cs' = c # cs1"
      by auto
    with Cons.IH obtain pre d d' post where "cs = pre @ d # post" "cs1 = pre @ d' # post"
      "force_container Q spec d = Some d'"
      by blast
    with \<open>cs' = c # cs1\<close> have "c # cs = (c # pre) @ d # post \<and> cs' = (c # pre) @ d' # post"
      by simp
    with \<open>force_container Q spec d = Some d'\<close> show ?thesis by blast
  next
    case (Some c1)
    with Cons.prems have "c # cs = [] @ c # cs \<and> cs' = [] @ c1 # cs" by simp
    with Some show ?thesis by blast
  qed
qed

lemma settle_qos_class: "settle_qos Q spec q des = Inr d \<Longrightarrow> podQoSClass Q (Some d) = q"
  by (auto simp: settle_qos_def Let_def split: if_splits option.splits bool.splits prod.splits)

lemma settle_qos_shape:
  "settle_qos Q spec q des = Inr d \<Longrightarrow>
    d = des \<or> (\<exists>cs. force_containers Q spec (containers des) = Some cs \<and> d = des\<lparr>containers := cs\<rparr> \<and>
      q = Burstable \<and> podQoSClass Q (Some des) = Guaranteed)"
  by (auto simp: settle_qos_def Let_def split: if_splits option.splits bool.splits prod.splits)

lemma force_containers_list_all2:
  assumes "force_containers Q spec cs = Some cs'"
    and "\<And>c. P c c" and "\<And>c c'. force_container Q spec c = Some c' \<Longrightarrow> P c c'"
  shows "list_all2 P cs cs'"
  using force_containers_shape [OF assms(1)] assms(2,3)
  by (auto simp: list_all2_append list.rel_refl)

section \<open>ComputeDesired\<close>

text \<open>The ways \<open>ComputeDesired\<close> returns without an error.\<close>

lemma compute_desired_ok:
  assumes "ComputeDesired Q (Some pod) (Some pm) spec = (res, None)"
  obtains (off) "\<not> cpu_on spec" "\<not> memory_on spec" "res = unchanged_result Q pod"
  | (same) r where
      "containers_loop Q spec
         (effective_limits_mode (limits_mode (resources spec)) (podQoSClass Q (Some pod)))
         (usage_by_container pm) (containers pod) empty_result = Inr (containers pod, r)"
      "\<not> changed res" "desired res = Some pod"
      "res_delta res = computeDeltaRequests Q (Some pod) (Some pod)"
      "hash res = hashPodResources Q (Some pod)"
  | (resized) cs r des where
      "containers_loop Q spec
         (effective_limits_mode (limits_mode (resources spec)) (podQoSClass Q (Some pod)))
         (usage_by_container pm) (containers pod) empty_result = Inr (cs, r)"
      "changed res" "settle_qos Q spec (podQoSClass Q (Some pod)) (pod\<lparr>containers := cs\<rparr>) = Inr des"
      "desired res = Some des" "res_delta res = computeDeltaRequests Q (Some pod) (Some des)"
      "hash res = hashPodResources Q (Some des)"
proof (cases "\<not> cpu_on spec \<and> \<not> memory_on spec")
  case True
  then show ?thesis using assms by (intro off) (simp_all add: ComputeDesired.simps)
next
  case False
  define mode where
    "mode = effective_limits_mode (limits_mode (resources spec)) (podQoSClass Q (Some pod))"
  from assms False obtain cs r where loop:
    "containers_loop Q spec mode (usage_by_container pm) (containers pod) empty_result = Inr (cs, r)"
    by (auto simp: ComputeDesired.simps Let_def mode_def split: sum.splits)
  with assms False have eq:
    "(case (if changed r then settle_qos Q spec (podQoSClass Q (Some pod)) (pod\<lparr>containers := cs\<rparr>)
            else Inr (pod\<lparr>containers := cs\<rparr>)) of
        Inl q \<Rightarrow> (unchanged_result Q pod, Some (QoSChange (podQoSClass Q (Some pod)) q))
      | Inr des \<Rightarrow> (r\<lparr>desired := Some des, res_delta := computeDeltaRequests Q (Some pod) (Some des),
                   hash := hashPodResources Q (Some des)\<rparr>, None)) = (res, None)"
    by (simp add: ComputeDesired.simps Let_def mode_def)
  show ?thesis
  proof (cases "changed r")
    case True
    with eq obtain des where "settle_qos Q spec (podQoSClass Q (Some pod)) (pod\<lparr>containers := cs\<rparr>) = Inr des"
      and "res = r\<lparr>desired := Some des, res_delta := computeDeltaRequests Q (Some pod) (Some des),
                   hash := hashPodResources Q (Some des)\<rparr>"
      by (auto split: sum.splits)
    with True loop show ?thesis
      by (intro resized [of cs r des]) (simp_all add: mode_def)
  next
    case unch: False
    with containers_loop_changed [OF loop] have "cs = containers pod" by simp
    with eq loop unch show ?thesis
      by (intro same [of r]) (auto simp: mode_def)
  qed
qed

end
