(* ===== verification/Examples.thy ===== *)
theory Examples
  imports PolicyLemmas
begin

text \<open>
  Concrete inputs for the witnesses, over the quantities \<open>nano_ops\<close>: a Burstable pod with
  a container whose usage is known and one whose usage is not, and the policy of the
  repository's unit tests. The evaluated results are rewrite rules of the collection
  \<open>ex_eval\<close>.
\<close>

named_theorems ex_eval

definition milli :: "int \<Rightarrow> int" where
  "milli n = n * 1000000"

definition mebi :: "int \<Rightarrow> int" where
  "mebi n = n * 1048576 * 1000000000"

definition ex_timing :: "int timing_spec" where
  "ex_timing =
     \<lparr>interval = minute, cooldown = 10 * minute, stabilization_window = 5 * minute,
      max_pods_per_run = 20, max_concurrent_pods = 10,
      max_total_cpu_increase = None, max_total_memory_increase = None,
      capability_check_interval = hour\<rparr>"

definition ex_spec :: "bool \<Rightarrow> int bounds_spec \<Rightarrow> (int, unit) policy_spec" where
  "ex_spec down b =
     \<lparr>enabled = True,
      ns_selector = \<lparr>match_type = ''Glob'', sel_include = [''*''], sel_exclude = []\<rparr>,
      pod_selector = None,
      resources = \<lparr>managed_requests = \<lparr>tog_cpu = True, tog_memory = True\<rparr>, limits_mode = ''Unchanged''\<rparr>,
      algorithm = \<lparr>headroom_percent = 20, allow_downscale = down\<rparr>,
      bounds = b,
      thresholds = \<lparr>up_percent = 20, down_percent = 20\<rparr>,
      timing = ex_timing\<rparr>"

definition no_bounds :: "int bounds_spec" where
  "no_bounds = \<lparr>cpu_min = None, cpu_max = None, memory_min = None, memory_max = None,
     min_change_cpu = None, min_change_memory = None\<rparr>"

definition ex_bounds :: "int bounds_spec" where
  "ex_bounds = \<lparr>cpu_min = Some (milli 50), cpu_max = Some (milli 4000),
     memory_min = Some (mebi 128), memory_max = Some (mebi 4096),
     min_change_cpu = Some (milli 50), min_change_memory = Some (mebi 64)\<rparr>"

definition ex_pod :: "int container list \<Rightarrow> int pod" where
  "ex_pod cs =
     \<lparr>pod_name = ''p'', pod_namespace = ''ns'', pod_uid = ''u'', resource_version = ''1'',
      annotations = None, deletion_timestamp = None, phase = ''Running'', node_name = ''n1'',
      init_containers = [], containers = cs\<rparr>"

definition ex_metrics :: "int \<Rightarrow> int \<Rightarrow> int pod_metrics" where
  "ex_metrics cpu mem =
     \<lparr>pm_name = ''p'', pm_namespace = ''ns'',
      pm_containers = [\<lparr>cm_name = ''app'', usage = [(ResourceCPU, cpu), (ResourceMemory, mem)]\<rparr>]\<rparr>"

definition ex_app :: "int \<Rightarrow> int \<Rightarrow> int container" where
  "ex_app cpu mem =
     \<lparr>ctr_name = ''app'', requests = [(ResourceCPU, cpu), (ResourceMemory, mem)],
      limits = [(ResourceCPU, milli 400)]\<rparr>"

definition ex_side :: "int container" where
  "ex_side = \<lparr>ctr_name = ''side'', requests = [(ResourceCPU, milli 10)], limits = []\<rparr>"

lemmas ex_simps =
  ex_timing_def ex_spec_def no_bounds_def ex_bounds_def ex_pod_def ex_metrics_def ex_app_def ex_side_def
  milli_def mebi_def

lemmas compute_simps =
  ComputeDesired.simps podQoSClass.simps qos_step_def cpu_mem_set_def rl_get_def
  containers_loop.simps container_step_def propose_def propose_cpu_def propose_memory_def
  applyBounds_def apply_limits_mode_def clamp_to_limit_def count_proposal_def count_def
  effective_limits_mode_def usage_by_container_def resourceListEqual_def rl_covered_def
  quantityMilliOrZero_def quantityBytesOrZero_def quantityMilli_def quantityBytes_def
  divCeil_def quantizeMilliCPU_def quantizeBytesMemory_def roundUp_def roundDown_def
  decide_def passesPercent_def cpuStepMilli_def memoryStepBytes_def go_quot_def
  i64_def i32_def ceil_div_def empty_result_def unchanged_result_def settle_qos_def
  force_container_def lower_request_def delta_step_def old_by_name_def

text \<open>
  101m and 200Mi of usage with 20 per cent headroom: 150m and 256Mi, for the container with
  known usage.
\<close>

definition ex_desired :: "int pod" where
  "ex_desired = ex_pod [ex_app (milli 150) (mebi 256), ex_side]"

definition ex_result :: "int result" where
  "ex_result =
     \<lparr>desired = Some ex_desired, hash = hashPodResources nano_ops (Some ex_desired), changed = True,
      res_delta = \<lparr>cpu_request_milli = 50, memory_request_byte = 134217728\<rparr>,
      n_containers = 2, no_metrics = 1, skipped_down = 0, clamped_cpu = 0, clamped_mem = 0,
      bounded_cpu_min = 0, bounded_cpu_max = 0, bounded_mem_min = 0, bounded_mem_max = 0\<rparr>"

lemma ex_compute [ex_eval]:
  "ComputeDesired nano_ops (Some (ex_pod [ex_app (milli 100) (mebi 128), ex_side]))
     (Some (ex_metrics (milli 101) (mebi 200))) (ex_spec False ex_bounds) = (ex_result, None)"
  by (simp add: compute_simps ex_simps ex_desired_def ex_result_def)

text \<open>Far more usage than the CPU limit of 400m: the request is cut to the limit.\<close>

definition ex_clamped :: "int pod" where
  "ex_clamped = ex_pod [ex_app (milli 400) (mebi 128), ex_side]"

definition ex_clamped_result :: "int result" where
  "ex_clamped_result =
     \<lparr>desired = Some ex_clamped, hash = hashPodResources nano_ops (Some ex_clamped), changed = True,
      res_delta = \<lparr>cpu_request_milli = 300, memory_request_byte = 0\<rparr>,
      n_containers = 2, no_metrics = 1, skipped_down = 1, clamped_cpu = 1, clamped_mem = 0,
      bounded_cpu_min = 0, bounded_cpu_max = 1, bounded_mem_min = 0, bounded_mem_max = 0\<rparr>"

lemma ex_compute_clamped [ex_eval]:
  "ComputeDesired nano_ops (Some (ex_pod [ex_app (milli 100) (mebi 128), ex_side]))
     (Some (ex_metrics (milli 5000) (mebi 100))) (ex_spec False ex_bounds) = (ex_clamped_result, None)"
  by (simp add: compute_simps ex_simps ex_clamped_def ex_clamped_result_def)

text \<open>
  A Burstable pod whose only container would reach both its limits: the repair takes its CPU
  request from 80m to 50m although downscaling is not allowed.
\<close>

definition ex_tight :: "int \<Rightarrow> int \<Rightarrow> int container" where
  "ex_tight cpu mem =
     \<lparr>ctr_name = ''app'', requests = [(ResourceCPU, cpu), (ResourceMemory, mem)],
      limits = [(ResourceCPU, milli 100), (ResourceMemory, mebi 128)]\<rparr>"

definition ex_repaired_result :: "int result" where
  "ex_repaired_result =
     \<lparr>desired = Some (ex_pod [ex_tight (milli 50) (mebi 128)]),
      hash = hashPodResources nano_ops (Some (ex_pod [ex_tight (milli 50) (mebi 128)])), changed = True,
      res_delta = \<lparr>cpu_request_milli = - 30, memory_request_byte = 67108864\<rparr>,
      n_containers = 1, no_metrics = 0, skipped_down = 0, clamped_cpu = 1, clamped_mem = 1,
      bounded_cpu_min = 0, bounded_cpu_max = 0, bounded_mem_min = 0, bounded_mem_max = 0\<rparr>"

lemma ex_compute_repaired [ex_eval]:
  "ComputeDesired nano_ops (Some (ex_pod [ex_tight (milli 80) (mebi 64)]))
     (Some (ex_metrics (milli 5000) (mebi 5120))) (ex_spec False no_bounds) = (ex_repaired_result, None)"
  by (simp add: compute_simps ex_simps ex_tight_def ex_repaired_result_def Let_def)

end
