(* ===== verification/PolicyProps.thy ===== *)
theory PolicyProps
  imports PolicyLemmas Examples
begin

text \<open>
  What \<open>ComputeDesired\<close> promises: the QoS class is classified as specified and never
  changes, everything but CPU and memory of the regular containers is left alone, limits
  and bounds are respected, amounts are compared correctly, errors are as coded.
\<close>

section \<open>The QoS class\<close>

definition guaranteed_resource :: "'q quantity_ops \<Rightarrow> 'q container \<Rightarrow> string \<Rightarrow> bool" where
  "guaranteed_resource Q c name =
     (case (map_of (requests c) name, map_of (limits c) name) of
        (Some r, Some l) \<Rightarrow> q_cmp Q r l = 0
      | _ \<Rightarrow> False)"

definition ctr_guaranteed :: "'q quantity_ops \<Rightarrow> 'q container \<Rightarrow> bool" where
  "ctr_guaranteed Q c \<longleftrightarrow> guaranteed_resource Q c ResourceCPU \<and> guaranteed_resource Q c ResourceMemory"

definition ctr_unset :: "'q container \<Rightarrow> bool" where
  "ctr_unset c \<longleftrightarrow>
     map_of (requests c) ResourceCPU = None \<and> map_of (requests c) ResourceMemory = None \<and>
     map_of (limits c) ResourceCPU = None \<and> map_of (limits c) ResourceMemory = None"

lemma qos_step_eq:
  "qos_step Q c (b, g) = (b \<and> ctr_unset c, g \<and> ctr_guaranteed Q c)"
  by (auto simp: qos_step_def cpu_mem_set_def rl_get_def ctr_unset_def ctr_guaranteed_def
      guaranteed_resource_def Let_def split: option.splits)

lemma fold_qos_step:
  "fold (qos_step Q) cs (b, g) = (b \<and> list_all ctr_unset cs, g \<and> list_all (ctr_guaranteed Q) cs)"
  by (induction cs arbitrary: b g) (auto simp: qos_step_eq)

text \<open>
  A pod is Guaranteed when every container, init containers included, has CPU and
  memory requests and limits and they are equal; otherwise BestEffort when no container has
  any of the four; otherwise Burstable.
\<close>

lemma podQoSClass_classifies:
  "podQoSClass Q (Some pod) =
    (let cs = init_containers pod @ containers pod
     in if list_all (ctr_guaranteed Q) cs then Guaranteed
        else if list_all ctr_unset cs then BestEffort else Burstable)"
  by (simp add: podQoSClass.simps fold_qos_step Let_def)

lemma podQoSClass_Guaranteed_iff:
  "podQoSClass Q (Some pod) = Guaranteed \<longleftrightarrow>
    list_all (ctr_guaranteed Q) (init_containers pod @ containers pod)"
  by (simp add: podQoSClass.simps fold_qos_step)

lemma compute_desired_qos:
  assumes "ComputeDesired Q (Some pod) (Some pm) spec = (res, None)"
  shows "\<exists>d. desired res = Some d \<and> podQoSClass Q (Some d) = podQoSClass Q (Some pod)"
  using assms
proof (cases rule: compute_desired_ok)
  case off
  then show ?thesis by (simp add: unchanged_result_def)
next
  case (same r)
  then show ?thesis by simp
next
  case (resized cs r des)
  then show ?thesis by (simp add: settle_qos_class)
qed

text \<open>
  C1. A resize never changes the QoS class: whenever \<open>ComputeDesired\<close> returns without an
  error, the desired pod has the class of the given pod.
\<close>

theorem compute_preserves_qos:
  assumes "ComputeDesired Q (Some pod) (Some pm) spec = (res, None)"
  shows "\<exists>d. desired res = Some d \<and> podQoSClass Q (Some d) = podQoSClass Q (Some pod)"
  using assms by (rule compute_desired_qos)

theorem compute_preserves_qos_witness:
  "\<exists>d. desired ex_result = Some d \<and>
    podQoSClass nano_ops (Some d) = podQoSClass nano_ops (Some (ex_pod [ex_app (milli 100) (mebi 128), ex_side])) \<and>
    changed ex_result"
  using compute_preserves_qos [OF ex_compute] by (simp add: ex_result_def)

section \<open>A frame\<close>

text \<open>What a resize may change in one container: its CPU and memory requests and limits.\<close>

definition cpu_memory_only :: "'q container \<Rightarrow> 'q container \<Rightarrow> bool" where
  "cpu_memory_only c c' \<longleftrightarrow> ctr_name c' = ctr_name c \<and>
     (\<forall>k. k \<noteq> ResourceCPU \<and> k \<noteq> ResourceMemory \<longrightarrow>
        map_of (requests c') k = map_of (requests c) k \<and> map_of (limits c') k = map_of (limits c) k)"

lemma cpu_memory_only_refl [simp, intro]: "cpu_memory_only c c"
  by (simp add: cpu_memory_only_def)

lemma cpu_memory_only_trans:
  "cpu_memory_only c d \<Longrightarrow> cpu_memory_only d e \<Longrightarrow> cpu_memory_only c e"
  by (simp add: cpu_memory_only_def)

lemma evolves_cpu_memory_only: "evolves Q spec mode u c c' \<Longrightarrow> cpu_memory_only c c'"
  by (erule evolves.cases) (auto simp: cpu_memory_only_def rl_lookup)

lemma force_container_cpu_memory_only:
  assumes "force_container Q spec c = Some c'"
  shows "cpu_memory_only c c'" "limits c' = limits c"
  using assms by (cases rule: force_container_cases;
    force dest!: lower_request_shape simp: cpu_memory_only_def)+

lemma list_all2_trans2:
  assumes "\<And>x y z. P x y \<Longrightarrow> R y z \<Longrightarrow> S x z" "list_all2 P xs ys" "list_all2 R ys zs"
  shows "list_all2 S xs zs"
  using assms(2,3)
  by (induction xs arbitrary: ys zs) (fastforce simp: list_all2_Cons1 intro: assms(1))+

lemma settle_qos_list_all2:
  assumes "settle_qos Q spec q (pod\<lparr>containers := cs\<rparr>) = Inr d" "list_all2 P (containers pod) cs"
    and "\<And>c. R c c" "\<And>c c'. q = Burstable \<Longrightarrow> force_container Q spec c = Some c' \<Longrightarrow> R c c'"
    and "\<And>x y z. P x y \<Longrightarrow> R y z \<Longrightarrow> S x z"
  shows "list_all2 S (containers pod) (containers d) \<and> d = pod\<lparr>containers := containers d\<rparr>"
  using settle_qos_shape [OF assms(1)]
proof
  assume "d = pod\<lparr>containers := cs\<rparr>"
  then show ?thesis
    using assms(2,3,5) by (auto intro: list_all2_mono)
next
  assume "\<exists>cs'. force_containers Q spec (containers (pod\<lparr>containers := cs\<rparr>)) = Some cs' \<and>
    d = pod\<lparr>containers := cs, containers := cs'\<rparr> \<and>
    q = Burstable \<and> podQoSClass Q (Some (pod\<lparr>containers := cs\<rparr>)) = Guaranteed"
  then obtain cs' where f: "force_containers Q spec cs = Some cs'" and d: "d = pod\<lparr>containers := cs'\<rparr>"
    and q: "q = Burstable"
    by auto
  have "list_all2 R cs cs'"
    by (rule force_containers_list_all2 [OF f]) (auto intro: assms(3) assms(4) [OF q])
  with assms(2) have "list_all2 S (containers pod) cs'"
    using assms(5) by (blast intro: list_all2_trans2)
  with d show ?thesis by simp
qed

text \<open>
  Lifting a relation over one container to the whole of \<open>ComputeDesired\<close>: it suffices that
  it holds when nothing happens, for one iteration of the loop, and after the repair.
\<close>

lemma compute_desired_lift:
  assumes "ComputeDesired Q (Some pod) (Some pm) spec = (res, None)"
    and off: "\<And>c. \<not> cpu_on spec \<Longrightarrow> \<not> memory_on spec \<Longrightarrow> S c c"
    and evolve: "\<And>c d. c \<in> set (containers pod) \<Longrightarrow>
      evolves Q spec (effective_limits_mode (limits_mode (resources spec)) (podQoSClass Q (Some pod)))
        (usage_by_container pm) c d \<Longrightarrow> S c d"
    and repair: "\<And>c d e. podQoSClass Q (Some pod) = Burstable \<Longrightarrow> S c d \<Longrightarrow>
      force_container Q spec d = Some e \<Longrightarrow> S c e"
  shows "\<exists>d. desired res = Some d \<and> d = pod\<lparr>containers := containers d\<rparr> \<and>
    list_all2 S (containers pod) (containers d)"
  using assms(1)
proof (cases rule: compute_desired_ok)
  case off
  then show ?thesis by (auto simp: unchanged_result_def intro: list.rel_refl assms(2))
next
  case (same r)
  have "list_all2 S (containers pod) (containers pod)"
    by (rule list.rel_mono_strong [OF containers_loop_evolves [OF same(1)]]) (rule evolve)
  with same show ?thesis by auto
next
  case (resized cs r des)
  have "list_all2 S (containers pod) cs"
    by (rule list.rel_mono_strong [OF containers_loop_evolves [OF resized(1)]]) (rule evolve)
  from settle_qos_list_all2 [where R = "\<lambda>c d. c = d \<or>
        podQoSClass Q (Some pod) = Burstable \<and> force_container Q spec c = Some d",
      OF resized(3) this] repair
  show ?thesis using resized(4) by blast
qed

lemma compute_desired_frame:
  assumes "ComputeDesired Q (Some pod) (Some pm) spec = (res, None)"
  shows "\<exists>d. desired res = Some d \<and> d = pod\<lparr>containers := containers d\<rparr> \<and>
    list_all2 cpu_memory_only (containers pod) (containers d)"
  by (rule compute_desired_lift [OF assms])
    (auto intro: evolves_cpu_memory_only cpu_memory_only_trans force_container_cpu_memory_only)

text \<open>
  C29. A resize touches nothing but CPU and memory of the regular containers: without an
  error, the desired pod is the given pod with other containers, which have the same names
  in the same order and the same requests and limits for every other resource; the init
  containers, the identity, the annotations and the status fields are the pod's.
\<close>

theorem compute_frame:
  assumes "ComputeDesired Q (Some pod) (Some pm) spec = (res, None)"
  shows "\<exists>d. desired res = Some d \<and> d = pod\<lparr>containers := containers d\<rparr> \<and>
    list_all2 cpu_memory_only (containers pod) (containers d)"
  using assms by (rule compute_desired_frame)

theorem compute_frame_witness:
  "\<exists>d. desired ex_result = Some d \<and>
    list_all2 cpu_memory_only [ex_app (milli 100) (mebi 128), ex_side] (containers d)"
  using compute_frame [OF ex_compute] by (auto simp: ex_pod_def)

text \<open>
  Unless the policy asks for \<open>EqualRequests\<close> and the pod is Guaranteed, no limit of any
  container changes.
\<close>

lemma compute_keeps_limits:
  assumes "ComputeDesired Q (Some pod) (Some pm) spec = (res, None)"
    and "limits_mode (resources spec) \<noteq> LimitsModeEqualRequests \<or> podQoSClass Q (Some pod) \<noteq> Guaranteed"
  shows "\<exists>d. desired res = Some d \<and>
    list_all2 (\<lambda>c c'. limits c' = limits c) (containers pod) (containers d)"
proof -
  have m: "effective_limits_mode (limits_mode (resources spec)) (podQoSClass Q (Some pod)) \<noteq> LimitsModeEqualRequests"
    using assms(2) by (auto simp: effective_limits_mode_def Let_def)
  have "\<exists>d. desired res = Some d \<and> d = pod\<lparr>containers := containers d\<rparr> \<and>
    list_all2 (\<lambda>c c'. limits c' = limits c) (containers pod) (containers d)"
    by (rule compute_desired_lift [OF assms(1)])
      (auto elim!: evolves.cases simp: propose_unchanged_mode [OF _ m] force_container_cpu_memory_only)
  then show ?thesis by blast
qed

lemma compute_keeps_limits_witness:
  "\<exists>d. desired ex_result = Some d \<and>
    list_all2 (\<lambda>c c'. limits c' = limits c) [ex_app (milli 100) (mebi 128), ex_side] (containers d)"
  using compute_keeps_limits [OF ex_compute] by (auto simp: ex_pod_def ex_spec_def)

section \<open>Amounts\<close>

text \<open>The amount a resource list holds of a resource, an absent entry meaning zero.\<close>

definition rl_amount :: "'q quantity_ops \<Rightarrow> ('q \<Rightarrow> int) \<Rightarrow> 'q resource_list \<Rightarrow> string \<Rightarrow> int" where
  "rl_amount Q amt rl k = amt (rl_get Q rl k)"

lemma rl_amount_Some [simp]: "map_of rl k = Some q \<Longrightarrow> rl_amount Q amt rl k = amt q"
  by (simp add: rl_amount_def rl_get_def)

lemma rl_amount_None: "quantity_spec Q amt \<Longrightarrow> map_of rl k = None \<Longrightarrow> rl_amount Q amt rl k = 0"
  by (simp add: rl_amount_def rl_get_def quantity_specD)

lemma rl_amount_cong: "map_of rl k = map_of rl' k \<Longrightarrow> rl_amount Q amt rl k = rl_amount Q amt rl' k"
  by (simp add: rl_amount_def rl_get_def)

lemma rl_amount_update [simp]: "rl_amount Q amt (AList.update k v rl) k = amt v"
  by simp

lemma rl_covered_iff:
  assumes "quantity_spec Q amt" "\<And>x y. cmp x y = 0 \<longleftrightarrow> amt x = amt y"
  shows "rl_covered Q cmp a b \<longleftrightarrow> (\<forall>k \<in> fst ` set a. rl_amount Q amt a k = rl_amount Q amt b k)"
proof -
  have "(case map_of a k of None \<Rightarrow> True
      | Some av \<Rightarrow> (case map_of b k of None \<Rightarrow> q_is_zero Q av | Some bv \<Rightarrow> cmp av bv = 0))
    \<longleftrightarrow> rl_amount Q amt a k = rl_amount Q amt b k" if "k \<in> fst ` set a" for k
    using that assms(2) rl_amount_None [OF assms(1)] quantity_specD(4) [OF assms(1)]
    by (auto simp: map_of_eq_None_iff split: option.splits)
  then show ?thesis
    by (simp add: rl_covered_def list_all_iff)
qed

text \<open>
  C39. \<open>resourceListEqual\<close> decides equality of amounts: two resource lists are equal when
  every resource has the same amount in both, an absent resource counting as zero.
\<close>

theorem resourceListEqual_amounts:
  assumes "quantity_spec Q amt"
  shows "resourceListEqual Q a b \<longleftrightarrow> (\<forall>k. rl_amount Q amt a k = rl_amount Q amt b k)"
proof -
  have "resourceListEqual Q a b \<longleftrightarrow>
    (\<forall>k \<in> fst ` set a \<union> fst ` set b. rl_amount Q amt a k = rl_amount Q amt b k)"
  proof -
    have "rl_covered Q (\<lambda>av bv. q_cmp Q av bv) a b \<longleftrightarrow>
        (\<forall>k \<in> fst ` set a. rl_amount Q amt a k = rl_amount Q amt b k)"
      by (rule rl_covered_iff [OF assms]) (rule quantity_specD(3) [OF assms])
    moreover have "rl_covered Q (\<lambda>bv av. q_cmp Q av bv) b a \<longleftrightarrow>
        (\<forall>k \<in> fst ` set b. rl_amount Q amt b k = rl_amount Q amt a k)"
      by (rule rl_covered_iff [OF assms]) (auto simp: quantity_specD(3) [OF assms])
    ultimately show ?thesis
      unfolding resourceListEqual_def by (auto simp: eq_commute)
  qed
  also have "\<dots> \<longleftrightarrow> (\<forall>k. rl_amount Q amt a k = rl_amount Q amt b k)"
    using rl_amount_None [OF assms] by (force simp: map_of_eq_None_iff)
  finally show ?thesis .
qed

theorem resourceListEqual_amounts_witness:
  "resourceListEqual nano_ops [(ResourceCPU, milli 100)] [(ResourceMemory, 0), (ResourceCPU, milli 100)]"
  using resourceListEqual_amounts [OF nano_ops_spec,
      of "[(ResourceCPU, milli 100)]" "[(ResourceMemory, 0), (ResourceCPU, milli 100)]"]
  by (simp add: rl_amount_def rl_get_def)

lemma evolves_requests_amount:
  assumes "quantity_spec Q amt" "evolves Q spec mode u c c'" "u (ctr_name c) = Some use"
  obtains p where "propose Q spec mode use c = Inr p"
    and "\<And>k. rl_amount Q amt (requests c') k = rl_amount Q amt (new_req p) k"
  using assms(2)
proof cases
  case no_usage
  with assms(3) show ?thesis by simp
next
  case (kept use' p)
  with assms(1,3) show ?thesis
    by (intro that [of p]) (simp_all add: resourceListEqual_amounts [OF assms(1)])
next
  case (resized use' p)
  with assms(3) show ?thesis by (intro that [of p]) simp_all
qed

section \<open>Limits and bounds\<close>

text \<open>
  A quantity whose amount is non-negative and fits \<open>int64\<close> in thousandths; the API server
  admits no negative resource quantity.
\<close>

definition representable :: "('q \<Rightarrow> int) \<Rightarrow> 'q \<Rightarrow> bool" where
  "representable amt q \<longleftrightarrow> 0 \<le> amt q \<and> amt q \<le> 9223372036854775807 * 1000000"

lemma ceil_div_le:
  assumes "0 < b" "a \<le> n * b"
  shows "ceil_div a b \<le> n"
proof -
  have "(- n * b) div b \<le> (- a) div b"
    using assms by (intro zdiv_mono1) simp_all
  then show ?thesis using assms(1) by (simp add: ceil_div_def del: mult_minus_left)
qed

lemma representable_q_milli:
  assumes "quantity_spec Q amt" "representable amt q"
  shows "amt q \<le> q_milli Q q * 1000000" "q_milli Q q * 1000000 - 1000000 < amt q"
proof -
  have "ceil_div (amt q) 1000000 \<le> 9223372036854775807"
    using assms(2) by (intro ceil_div_le) (simp_all add: representable_def)
  moreover have "0 \<le> ceil_div (amt q) 1000000"
    using assms(2) ceil_div_ge [of 1000000 "amt q"] by (simp add: representable_def)
  ultimately have "q_milli Q q = ceil_div (amt q) 1000000"
    using assms by (intro quantity_specD(10)) (simp_all add: representable_def in_i64_def)
  then show "amt q \<le> q_milli Q q * 1000000" "q_milli Q q * 1000000 - 1000000 < amt q"
    using ceil_div_ge [of 1000000 "amt q"] ceil_div_less [of 1000000 "amt q"] by simp_all
qed

lemma representable_q_value:
  assumes "quantity_spec Q amt" "representable amt q"
  shows "amt q \<le> q_value Q q * 1000000000" "q_value Q q * 1000000000 - 1000000000 < amt q"
proof -
  have "ceil_div (amt q) 1000000000 \<le> 9223372036854775807"
    using assms(2) by (intro ceil_div_le) (simp_all add: representable_def)
  moreover have "0 \<le> ceil_div (amt q) 1000000000"
    using assms(2) ceil_div_ge [of 1000000000 "amt q"] by (simp add: representable_def)
  ultimately have "q_value Q q = ceil_div (amt q) 1000000000"
    using assms by (intro quantity_specD(11)) (simp_all add: representable_def in_i64_def)
  then show "amt q \<le> q_value Q q * 1000000000" "q_value Q q * 1000000000 - 1000000000 < amt q"
    using ceil_div_ge [of 1000000000 "amt q"] ceil_div_less [of 1000000000 "amt q"] by simp_all
qed

definition toggled :: "('q, 'l) policy_spec \<Rightarrow> string \<Rightarrow> bool" where
  "toggled spec k = (if k = ResourceCPU then cpu_on spec else k = ResourceMemory \<and> memory_on spec)"

definition bound_min :: "('q, 'l) policy_spec \<Rightarrow> string \<Rightarrow> 'q option" where
  "bound_min spec k =
     (if k = ResourceCPU then cpu_min (bounds spec)
      else if k = ResourceMemory then memory_min (bounds spec) else None)"

definition bound_max :: "('q, 'l) policy_spec \<Rightarrow> string \<Rightarrow> 'q option" where
  "bound_max spec k =
     (if k = ResourceCPU then cpu_max (bounds spec)
      else if k = ResourceMemory then memory_max (bounds spec) else None)"

lemma applyBounds_amount:
  assumes "quantity_spec Q amt" "\<And>m x. mn = Some m \<Longrightarrow> mx = Some x \<Longrightarrow> amt m \<le> amt x"
  shows "mn = Some m \<Longrightarrow> amt m \<le> rl_amount Q amt (fst (applyBounds Q rl name mn mx)) name"
    and "mx = Some x \<Longrightarrow> rl_amount Q amt (fst (applyBounds Q rl name mn mx)) name \<le> amt x"
proof -
  note cmp = quantity_specD(1,2) [OF assms(1)]
  show "mn = Some m \<Longrightarrow> amt m \<le> rl_amount Q amt (fst (applyBounds Q rl name mn mx)) name"
    using assms(2) by (cases mx) (auto simp: applyBounds_def cmp Let_def not_less rl_amount_def rl_get_def)
  show "mx = Some x \<Longrightarrow> rl_amount Q amt (fst (applyBounds Q rl name mn mx)) name \<le> amt x"
    using assms(2) by (cases mn) (auto simp: applyBounds_def cmp Let_def not_less rl_amount_def rl_get_def)
qed

lemma bounded_requests_amount:
  assumes "quantity_spec Q amt" "\<And>m x. bound_min spec k = Some m \<Longrightarrow> bound_max spec k = Some x \<Longrightarrow> amt m \<le> amt x"
  shows "bound_min spec k = Some m \<Longrightarrow> amt m \<le> rl_amount Q amt (bounded_requests Q spec use c) k"
    and "bound_max spec k = Some x \<Longrightarrow> rl_amount Q amt (bounded_requests Q spec use c) k \<le> amt x"
proof -
  define r where
    "r = fst (propose_memory Q spec use (requests c) (fst (propose_cpu Q spec use (requests c) (requests c))))"
  let ?c = "applyBounds Q r ResourceCPU (cpu_min (bounds spec)) (cpu_max (bounds spec))"
  let ?m = "applyBounds Q (fst ?c) ResourceMemory (memory_min (bounds spec)) (memory_max (bounds spec))"
  have b: "bounded_requests Q spec use c = fst ?m"
    by (simp add: bounded_requests_def r_def)
  have cpu: "rl_amount Q amt (fst ?m) ResourceCPU = rl_amount Q amt (fst ?c) ResourceCPU"
    by (rule rl_amount_cong) (simp add: rl_lookup)
  show "bound_min spec k = Some m \<Longrightarrow> amt m \<le> rl_amount Q amt (bounded_requests Q spec use c) k"
    using applyBounds_amount(1) [OF assms(1)] assms(2) cpu
    by (auto simp: b bound_min_def bound_max_def split: if_splits)
  show "bound_max spec k = Some x \<Longrightarrow> rl_amount Q amt (bounded_requests Q spec use c) k \<le> amt x"
    using applyBounds_amount(2) [OF assms(1)] assms(2) cpu
    by (auto simp: b bound_min_def bound_max_def split: if_splits)
qed

lemma clamp_to_limit_amount:
  assumes "quantity_spec Q amt" "map_of lim k = Some l" "0 \<le> amt l"
  shows "rl_amount Q amt (fst (clamp_to_limit Q True k lim rl)) k = min (amt l) (rl_amount Q amt rl k)"
  using assms(2,3) rl_amount_None [OF assms(1), of rl k] quantity_specD(1) [OF assms(1)]
  by (auto simp: clamp_to_limit_def not_less split: option.splits)

text \<open>The request a proposal makes under mode \<open>Unchanged\<close>: the bounded one, cut to the limit.\<close>

lemma new_req_amount:
  assumes "quantity_spec Q amt" "propose Q spec mode use c = Inr p" "mode \<noteq> LimitsModeEqualRequests"
    and "toggled spec k" "map_of (limits c) k = Some l" "0 \<le> amt l"
  shows "rl_amount Q amt (new_req p) k = min (amt l) (rl_amount Q amt (bounded_requests Q spec use c) k)"
proof -
  let ?b = "bounded_requests Q spec use c"
  let ?c = "fst (clamp_to_limit Q (cpu_on spec) ResourceCPU (limits c) ?b)"
  consider "k = ResourceCPU" "cpu_on spec" | "k = ResourceMemory" "memory_on spec"
    using assms(4) unfolding toggled_def by argo
  then show ?thesis
  proof cases
    case 1
    have "rl_amount Q amt (new_req p) k = rl_amount Q amt ?c k"
      unfolding propose_unchanged_mode(2) [OF assms(2,3)] 1
      by (rule rl_amount_cong) (simp add: rl_lookup)
    then show ?thesis
      using clamp_to_limit_amount [OF assms(1,5,6)] 1 by simp
  next
    case 2
    have "rl_amount Q amt ?c k = rl_amount Q amt ?b k"
      unfolding 2 by (rule rl_amount_cong) (simp add: rl_lookup)
    then show ?thesis
      using clamp_to_limit_amount [OF assms(1,5,6)] 2
      by (simp add: propose_unchanged_mode(2) [OF assms(2,3)])
  qed
qed

lemma new_req_amount_no_limit:
  assumes "propose Q spec mode use c = Inr p"
    and "mode = LimitsModeEqualRequests \<or> \<not> toggled spec k \<or> map_of (limits c) k = None"
    and "k = ResourceCPU \<or> k = ResourceMemory"
  shows "rl_amount Q amt (new_req p) k = rl_amount Q amt (bounded_requests Q spec use c) k"
proof (cases "mode = LimitsModeEqualRequests")
  case True
  with assms(1) show ?thesis by (simp add: propose_equal_mode)
next
  case False
  let ?b = "bounded_requests Q spec use c"
  let ?c = "fst (clamp_to_limit Q (cpu_on spec) ResourceCPU (limits c) ?b)"
  let ?m = "fst (clamp_to_limit Q (memory_on spec) ResourceMemory (limits c) ?c)"
  have n: "new_req p = ?m"
    by (rule propose_unchanged_mode(2) [OF assms(1) False])
  from assms(3) show ?thesis
  proof
    assume k: "k = ResourceCPU"
    then have "?c = ?b"
      using assms(2) False by (auto simp: toggled_def clamp_to_limit_no_limit)
    with k show ?thesis
      unfolding n by (intro rl_amount_cong) (simp add: rl_lookup)
  next
    assume k: "k = ResourceMemory"
    then have "?m = ?c"
      using assms(2) False by (auto simp: toggled_def clamp_to_limit_no_limit)
    with k show ?thesis
      unfolding n by (intro rl_amount_cong) (simp add: rl_lookup)
  qed
qed

lemma quantityMilli_range: "quantity_spec Q amt \<Longrightarrow> in_i64 (quantityMilli Q q)"
  by (cases q) (simp_all add: quantityMilli_def quantity_specD)

lemma quantityBytes_range: "quantity_spec Q amt \<Longrightarrow> in_i64 (quantityBytes Q q)"
  by (cases q) (simp_all add: quantityBytes_def quantity_specD)

lemma max_i64_range: "in_i64 m \<Longrightarrow> in_i64 (max (i64 x) m)"
  by (simp add: max_def)

text \<open>
  What the repair does to the amount of one request: nothing, or it was at its limit, gets
  strictly below it and stays at or above the minimum.
\<close>

definition lowered_within ::
  "'q quantity_ops \<Rightarrow> ('q \<Rightarrow> int) \<Rightarrow> ('q, 'l) policy_spec \<Rightarrow> string \<Rightarrow> 'q container \<Rightarrow> 'q container \<Rightarrow> bool" where
  "lowered_within Q amt spec k d e \<longleftrightarrow>
     (\<exists>lim. map_of (limits d) k = Some lim \<and> rl_amount Q amt (requests d) k = amt lim \<and>
        toggled spec k \<and>
        (representable amt lim \<longrightarrow> rl_amount Q amt (requests e) k < amt lim) \<and>
        (\<forall>m. bound_min spec k = Some m \<longrightarrow> representable amt m \<longrightarrow> amt m \<le> rl_amount Q amt (requests e) k))"

lemma lower_request_amount:
  assumes "quantity_spec Q amt" "lower_request Q on name rd mk step minimum d = Some e"
    and "\<And>v. in_i64 v \<Longrightarrow> amt (mk v) = v * unit" "0 < unit"
    and "\<And>q. representable amt q \<Longrightarrow> amt q \<le> rd q * unit \<and> rd q * unit - unit < amt q"
    and "in_i64 minimum" "\<And>q. m = Some q \<Longrightarrow> minimum = rd q"
  shows "\<exists>lim. map_of (limits d) name = Some lim \<and> rl_amount Q amt (requests d) name = amt lim \<and> on \<and>
    (representable amt lim \<longrightarrow> rl_amount Q amt (requests e) name < amt lim) \<and>
    (\<forall>q. m = Some q \<longrightarrow> representable amt q \<longrightarrow> amt q \<le> rl_amount Q amt (requests e) name)"
proof -
  from lower_request_shape [OF assms(2)] obtain lim req v where
    on: on and lim: "map_of (limits d) name = Some lim" and req: "map_of (requests d) name = Some req"
    and eq: "q_cmp Q req lim = 0" and v: "v = max (i64 (rd lim - step)) minimum" "v < rd lim"
    and e: "e = d\<lparr>requests := AList.update name (mk v) (requests d)\<rparr>"
    by blast
  have new: "rl_amount Q amt (requests e) name = v * unit"
    using v(1) max_i64_range [OF assms(6)] assms(3) by (simp add: e)
  have "v * unit \<le> (rd lim - 1) * unit"
    using v(2) assms(4) by (intro mult_right_mono) simp_all
  then have "representable amt lim \<Longrightarrow> v * unit < amt lim"
    using assms(5) [of lim] by (simp add: left_diff_distrib)
  moreover have "amt q \<le> v * unit" if "m = Some q" "representable amt q" for q
  proof -
    have "rd q \<le> v"
      using that assms(7) v(1) by simp
    with assms(4) assms(5) [of q] that(2) show ?thesis
      by (meson less_imp_le mult_right_mono order_trans)
  qed
  ultimately show ?thesis
    using on lim req eq new by (auto simp: quantity_specD(3) [OF assms(1)])
qed

lemma repair_amount:
  assumes "quantity_spec Q amt" "force_container Q spec d = Some e"
  shows "rl_amount Q amt (requests e) k = rl_amount Q amt (requests d) k \<or> lowered_within Q amt spec k d e"
  using assms(2)
proof (cases rule: force_container_cases)
  case cpu
  show ?thesis
  proof (cases "k = ResourceCPU")
    case True
    have "\<exists>lim. map_of (limits d) ResourceCPU = Some lim \<and> rl_amount Q amt (requests d) ResourceCPU = amt lim \<and>
      cpu_on spec \<and> (representable amt lim \<longrightarrow> rl_amount Q amt (requests e) ResourceCPU < amt lim) \<and>
      (\<forall>q. cpu_min (bounds spec) = Some q \<longrightarrow> representable amt q \<longrightarrow> amt q \<le> rl_amount Q amt (requests e) ResourceCPU)"
      by (rule lower_request_amount [OF assms(1) cpu, where unit = 1000000 and m = "cpu_min (bounds spec)"])
        (use assms(1) in \<open>auto simp: quantity_specD quantityMilli_range representable_q_milli quantityMilli_def split: option.splits\<close>)
    with True show ?thesis by (simp add: lowered_within_def bound_min_def toggled_def)
  next
    case False
    with lower_request_shape [OF cpu] have "rl_amount Q amt (requests e) k = rl_amount Q amt (requests d) k"
      by (auto intro!: rl_amount_cong)
    then show ?thesis ..
  qed
next
  case memory
  show ?thesis
  proof (cases "k = ResourceMemory")
    case True
    have "\<exists>lim. map_of (limits d) ResourceMemory = Some lim \<and> rl_amount Q amt (requests d) ResourceMemory = amt lim \<and>
      memory_on spec \<and> (representable amt lim \<longrightarrow> rl_amount Q amt (requests e) ResourceMemory < amt lim) \<and>
      (\<forall>q. memory_min (bounds spec) = Some q \<longrightarrow> representable amt q \<longrightarrow> amt q \<le> rl_amount Q amt (requests e) ResourceMemory)"
      by (rule lower_request_amount [OF assms(1) memory, where unit = 1000000000 and m = "memory_min (bounds spec)"])
        (use assms(1) in \<open>auto simp: quantity_specD quantityBytes_range representable_q_value quantityBytes_def split: option.splits\<close>)
    with True show ?thesis by (simp add: lowered_within_def bound_min_def toggled_def)
  next
    case False
    with lower_request_shape [OF memory] have "rl_amount Q amt (requests e) k = rl_amount Q amt (requests d) k"
      by (auto intro!: rl_amount_cong)
    then show ?thesis ..
  qed
qed

lemma effective_mode_unchanged:
  "limits_mode (resources spec) \<noteq> LimitsModeEqualRequests \<or> q \<noteq> Guaranteed \<Longrightarrow>
    effective_limits_mode (limits_mode (resources spec)) q \<noteq> LimitsModeEqualRequests"
  by (auto simp: effective_limits_mode_def Let_def)

text \<open>
  C11. Under \<open>limitsMode: Unchanged\<close> no computed request of a managed resource exceeds the
  container's limit: for every container whose usage is known and every limit with a
  representable amount, the new request is at most that limit.
\<close>

theorem compute_respects_limits:
  assumes "ComputeDesired Q (Some pod) (Some pm) spec = (res, None)"
    and "quantity_spec Q amt"
    and "limits_mode (resources spec) \<noteq> LimitsModeEqualRequests \<or> podQoSClass Q (Some pod) \<noteq> Guaranteed"
    and "toggled spec k"
  shows "\<exists>d. desired res = Some d \<and>
    list_all2 (\<lambda>c c'. \<forall>l. usage_by_container pm (ctr_name c) \<noteq> None \<longrightarrow> map_of (limits c) k = Some l \<longrightarrow>
        representable amt l \<longrightarrow> rl_amount Q amt (requests c') k \<le> amt l)
      (containers pod) (containers d)"
proof -
  let ?S = "\<lambda>c c'. limits c' = limits c \<and> (\<forall>l. usage_by_container pm (ctr_name c) \<noteq> None \<longrightarrow>
    map_of (limits c) k = Some l \<longrightarrow> representable amt l \<longrightarrow> rl_amount Q amt (requests c') k \<le> amt l)"
  note mode = effective_mode_unchanged [OF assms(3)]
  have "\<exists>d. desired res = Some d \<and> d = pod\<lparr>containers := containers d\<rparr> \<and>
    list_all2 ?S (containers pod) (containers d)"
  proof (rule compute_desired_lift [OF assms(1)])
    show "?S c c" if "\<not> cpu_on spec" "\<not> memory_on spec" for c
      using that assms(4) unfolding toggled_def by argo
  next
    fix c d
    assume ev: "evolves Q spec (effective_limits_mode (limits_mode (resources spec)) (podQoSClass Q (Some pod)))
      (usage_by_container pm) c d"
    have "limits d = limits c"
      using ev by cases (simp_all add: propose_unchanged_mode [OF _ mode])
    moreover have "rl_amount Q amt (requests d) k \<le> amt l"
      if u: "usage_by_container pm (ctr_name c) = Some use" and l: "map_of (limits c) k = Some l" "representable amt l"
      for l use
      using evolves_requests_amount [OF assms(2) ev u]
        new_req_amount [OF assms(2) _ mode assms(4) l(1)] l(2)
      by (metis min.cobounded1 representable_def)
    ultimately show "?S c d" by auto
  next
    fix c d e
    assume "?S c d" and f: "force_container Q spec d = Some e"
    with repair_amount [OF assms(2) f, of k] force_container_cpu_memory_only(2) [OF f]
    show "?S c e" by (auto simp: lowered_within_def)
  qed
  then show ?thesis by (auto elim: list_all2_mono)
qed

lemma evolved_within_bounds:
  assumes "quantity_spec Q amt" "evolves Q spec mode u c d" "toggled spec k"
    and "\<And>m x. bound_min spec k = Some m \<Longrightarrow> bound_max spec k = Some x \<Longrightarrow> amt m \<le> amt x"
    and "\<And>l. map_of (limits c) k = Some l \<Longrightarrow> representable amt l"
  shows "u (ctr_name c) \<noteq> None \<longrightarrow>
    (\<forall>x. bound_max spec k = Some x \<longrightarrow> rl_amount Q amt (requests d) k \<le> amt x) \<and>
    (\<forall>m. bound_min spec k = Some m \<longrightarrow> amt m \<le> rl_amount Q amt (requests d) k \<or>
      (\<exists>l. map_of (limits c) k = Some l \<and> amt l < amt m \<and> rl_amount Q amt (requests d) k = amt l))"
proof
  assume "u (ctr_name c) \<noteq> None"
  then obtain use where u: "u (ctr_name c) = Some use" by blast
  obtain p where p: "propose Q spec mode use c = Inr p"
    and amount: "\<And>k. rl_amount Q amt (requests d) k = rl_amount Q amt (new_req p) k"
    using evolves_requests_amount [OF assms(1,2) u] by blast
  let ?b = "rl_amount Q amt (bounded_requests Q spec use c) k"
  have k: "k = ResourceCPU \<or> k = ResourceMemory"
    using assms(3) unfolding toggled_def by argo
  have lo: "amt m \<le> ?b" if "bound_min spec k = Some m" for m
    using assms(1,4) that by (rule bounded_requests_amount(1))
  have hi: "?b \<le> amt x" if "bound_max spec k = Some x" for x
    using assms(1,4) that by (rule bounded_requests_amount(2))
  consider l where "map_of (limits c) k = Some l" "rl_amount Q amt (requests d) k = min (amt l) ?b"
    | "rl_amount Q amt (requests d) k = ?b"
  proof (cases "mode = LimitsModeEqualRequests \<or> map_of (limits c) k = None")
    case True
    with new_req_amount_no_limit [OF p _ k] amount that(2) show ?thesis by metis
  next
    case False
    then obtain l where l: "map_of (limits c) k = Some l" by blast
    with assms(5) have "0 \<le> amt l" by (simp add: representable_def)
    with new_req_amount [OF assms(1) p _ assms(3) l] False l amount that(1) show ?thesis by metis
  qed
  then show "(\<forall>x. bound_max spec k = Some x \<longrightarrow> rl_amount Q amt (requests d) k \<le> amt x) \<and>
    (\<forall>m. bound_min spec k = Some m \<longrightarrow> amt m \<le> rl_amount Q amt (requests d) k \<or>
      (\<exists>l. map_of (limits c) k = Some l \<and> amt l < amt m \<and> rl_amount Q amt (requests d) k = amt l))"
  proof cases
    case (1 l)
    with lo hi show ?thesis by (fastforce simp: min_def)
  next
    case 2
    with lo hi show ?thesis by auto
  qed
qed

text \<open>
  C30. The configured bounds hold for every container whose usage is known, whatever the
  limits mode: with bounds that do not contradict each other, the new request never exceeds
  the maximum, and it is below the minimum only where it equals a limit that is itself below
  the minimum.
\<close>

theorem compute_respects_bounds:
  fixes pod :: "'q pod"
  assumes "ComputeDesired Q (Some pod) (Some pm) spec = (res, None)"
    and "quantity_spec Q amt" "toggled spec k"
    and "\<And>m x. bound_min spec k = Some m \<Longrightarrow> bound_max spec k = Some x \<Longrightarrow> amt m \<le> amt x"
    and "\<And>m. bound_min spec k = Some m \<Longrightarrow> representable amt m"
    and "\<And>c l. c \<in> set (containers pod) \<Longrightarrow> map_of (limits c) k = Some l \<Longrightarrow> representable amt l"
  shows "\<exists>d. desired res = Some d \<and>
    list_all2 (\<lambda>c c'. usage_by_container pm (ctr_name c) \<noteq> None \<longrightarrow>
        (\<forall>x. bound_max spec k = Some x \<longrightarrow> rl_amount Q amt (requests c') k \<le> amt x) \<and>
        (\<forall>m. bound_min spec k = Some m \<longrightarrow> amt m \<le> rl_amount Q amt (requests c') k \<or>
           (\<exists>l. map_of (limits c) k = Some l \<and> amt l < amt m \<and> rl_amount Q amt (requests c') k = amt l)))
      (containers pod) (containers d)"
proof -
  define mode where "mode = effective_limits_mode (limits_mode (resources spec)) (podQoSClass Q (Some pod))"
  define B :: "'q container \<Rightarrow> int \<Rightarrow> bool" where "B = (\<lambda>c v. usage_by_container pm (ctr_name c) \<noteq> None \<longrightarrow>
        (\<forall>x. bound_max spec k = Some x \<longrightarrow> v \<le> amt x) \<and>
        (\<forall>m. bound_min spec k = Some m \<longrightarrow> amt m \<le> v \<or>
           (\<exists>l. map_of (limits c) k = Some l \<and> amt l < amt m \<and> v = amt l)))"
  let ?S = "\<lambda>(c :: 'q container) (c' :: 'q container). B c (rl_amount Q amt (requests c') k) \<and>
    (mode \<noteq> LimitsModeEqualRequests \<longrightarrow> limits c' = limits c) \<and> c \<in> set (containers pod)"
  have "\<exists>d. desired res = Some d \<and> d = pod\<lparr>containers := containers d\<rparr> \<and>
    list_all2 ?S (containers pod) (containers d)"
  proof (rule compute_desired_lift [OF assms(1)])
    show "?S c c" if "\<not> cpu_on spec" "\<not> memory_on spec" for c
      using that assms(3) unfolding toggled_def by argo
  next
    fix c d
    assume c: "c \<in> set (containers pod)" and
      "evolves Q spec (effective_limits_mode (limits_mode (resources spec)) (podQoSClass Q (Some pod)))
        (usage_by_container pm) c d"
    then have ev: "evolves Q spec mode (usage_by_container pm) c d"
      by (simp add: mode_def)
    have "mode \<noteq> LimitsModeEqualRequests \<longrightarrow> limits d = limits c"
      using ev by cases (simp_all add: propose_unchanged_mode)
    moreover have "B c (rl_amount Q amt (requests d) k)"
      unfolding B_def by (rule evolved_within_bounds [OF assms(2) ev assms(3,4)]) (use assms(6) [OF c] in auto)
    ultimately show "?S c d" using c by simp
  next
    fix c d e
    assume b: "podQoSClass Q (Some pod) = Burstable" and S: "?S c d" and f: "force_container Q spec d = Some e"
    have "mode \<noteq> LimitsModeEqualRequests"
      using b by (simp add: mode_def effective_limits_mode_def Let_def)
    with S have l: "limits d = limits c" and c: "c \<in> set (containers pod)" by simp_all
    have "B c (rl_amount Q amt (requests e) k)"
      using repair_amount [OF assms(2) f, of k]
    proof
      assume "rl_amount Q amt (requests e) k = rl_amount Q amt (requests d) k"
      with S show ?thesis by simp
    next
      assume "lowered_within Q amt spec k d e"
      with assms(5) assms(6) [OF c] l S show ?thesis
        by (fastforce simp: lowered_within_def B_def)
    qed
    with l c force_container_cpu_memory_only(2) [OF f] show "?S c e" by simp
  qed
  then show ?thesis by (auto elim: list_all2_mono simp: B_def)
qed

theorem compute_respects_limits_witness:
  "\<exists>d. desired ex_clamped_result = Some d \<and>
    rl_amount nano_ops (\<lambda>a. a) (requests (hd (containers d))) ResourceCPU \<le> milli 400"
proof -
  have "limits_mode (resources (ex_spec False ex_bounds)) \<noteq> LimitsModeEqualRequests \<or>
    podQoSClass nano_ops (Some (ex_pod [ex_app (milli 100) (mebi 128), ex_side])) \<noteq> Guaranteed"
    by (simp add: ex_spec_def)
  moreover have "toggled (ex_spec False ex_bounds) ResourceCPU"
    by (simp add: toggled_def ex_spec_def)
  ultimately show ?thesis
    using compute_respects_limits [OF ex_compute_clamped nano_ops_spec, of ResourceCPU]
    by (fastforce simp: ex_pod_def ex_app_def ex_metrics_def usage_by_container_def representable_def milli_def
        list_all2_Cons1)
qed

theorem compute_respects_bounds_witness:
  "\<exists>d. desired ex_result = Some d \<and>
    rl_amount nano_ops (\<lambda>a. a) (requests (hd (containers d))) ResourceMemory \<le> mebi 4096 \<and>
    mebi 128 \<le> rl_amount nano_ops (\<lambda>a. a) (requests (hd (containers d))) ResourceMemory"
proof -
  have t: "toggled (ex_spec False ex_bounds) ResourceMemory"
    by (simp add: toggled_def ex_spec_def)
  have "\<exists>d. desired ex_result = Some d \<and>
    list_all2 (\<lambda>c c'. usage_by_container (ex_metrics (milli 101) (mebi 200)) (ctr_name c) \<noteq> None \<longrightarrow>
        (\<forall>x. bound_max (ex_spec False ex_bounds) ResourceMemory = Some x \<longrightarrow>
          rl_amount nano_ops (\<lambda>a. a) (requests c') ResourceMemory \<le> x) \<and>
        (\<forall>m. bound_min (ex_spec False ex_bounds) ResourceMemory = Some m \<longrightarrow>
          m \<le> rl_amount nano_ops (\<lambda>a. a) (requests c') ResourceMemory \<or>
           (\<exists>l. map_of (limits c) ResourceMemory = Some l \<and> l < m \<and>
             rl_amount nano_ops (\<lambda>a. a) (requests c') ResourceMemory = l)))
      (containers (ex_pod [ex_app (milli 100) (mebi 128), ex_side])) (containers d)"
    by (rule compute_respects_bounds [OF ex_compute nano_ops_spec t])
      (auto simp: bound_min_def bound_max_def ex_simps representable_def split: if_splits)
  then show ?thesis
    by (fastforce simp: ex_simps bound_min_def bound_max_def usage_by_container_def list_all2_Cons1)
qed

end
