(* ===== verification/PolicyBehaviour.thy ===== *)
theory PolicyBehaviour
  imports PolicyProps
begin

text \<open>
  How \<open>ComputeDesired\<close> behaves over time and at its edges: when it never lowers a request,
  when it is stable under constant usage and when it is not, what the QoS repair does, what
  the delta measures, which errors it returns, and where bounds and rounding do not follow
  the documentation.
\<close>

section \<open>Ranges\<close>

lemma quot_100_range: "in_i64 a \<Longrightarrow> in_i64 (go_quot a 100)"
  by (auto simp: go_quot_def in_i64_def sgn_if abs_if)

lemma divCeil_100_range: "in_i64 x \<Longrightarrow> in_i64 (divCeil x 100)"
  by (simp add: divCeil_def quot_100_range)

lemma roundUp_range: "0 < step \<Longrightarrow> in_i64 (roundUp v step)"
  by (simp add: roundUp_def)

lemma roundDown_range: "0 < step \<Longrightarrow> in_i64 (roundDown v step)"
  by (simp add: roundDown_def)

lemma quantize_range:
  "in_i64 t \<Longrightarrow> in_i64 (quantizeMilliCPU t c a)"
  "in_i64 t \<Longrightarrow> in_i64 (quantizeBytesMemory t c a)"
  by (simp_all add: quantizeMilliCPU_def quantizeBytesMemory_def roundUp_range roundDown_range)

section \<open>When requests are not lowered\<close>

lemma quantityMilliOrZero_amount:
  assumes "quantity_spec Q amt" "\<And>q. map_of rl k = Some q \<Longrightarrow> representable amt q"
  shows "rl_amount Q amt rl k \<le> quantityMilliOrZero Q rl k * 1000000"
  using assms representable_q_milli(1) [OF assms(1)]
  by (cases "map_of rl k") (simp_all add: quantityMilliOrZero_def rl_amount_None)

lemma quantityBytesOrZero_amount:
  assumes "quantity_spec Q amt" "\<And>q. map_of rl k = Some q \<Longrightarrow> representable amt q"
  shows "rl_amount Q amt rl k \<le> quantityBytesOrZero Q rl k * 1000000000"
  using assms representable_q_value(1) [OF assms(1)]
  by (cases "map_of rl k") (simp_all add: quantityBytesOrZero_def rl_amount_None)

lemma propose_cpu_no_downscale:
  assumes "quantity_spec Q amt" "\<not> allow_downscale (algorithm spec)"
    and "\<And>q. map_of cur ResourceCPU = Some q \<Longrightarrow> representable amt q"
  shows "rl_amount Q amt cur ResourceCPU \<le> rl_amount Q amt (fst (propose_cpu Q spec use cur cur)) ResourceCPU"
proof -
  let ?c = "quantityMilliOrZero Q cur ResourceCPU"
  let ?t = "quantizeMilliCPU (divCeil (i64 (quantityMilliOrZero Q use ResourceCPU *
    i32 (100 + headroom_percent (algorithm spec)))) 100) ?c (allow_downscale (algorithm spec))"
  obtain v chg sk where d: "decide ?t ?c (up_percent (thresholds spec)) (down_percent (thresholds spec))
      (allow_downscale (algorithm spec)) (quantityMilli Q (min_change_cpu (bounds spec))) = (v, chg, sk)"
    by (cases rule: prod_cases3)
  show ?thesis
  proof (cases "cpu_on spec \<and> chg")
    case True
    with decide_changed [of ?t ?c] d assms(2) have v: "v = max 0 ?t" "?c \<le> v"
      by fastforce+
    have "in_i64 v"
      unfolding v(1) by (simp add: max_def quantize_range divCeil_100_range)
    then have "rl_amount Q amt (fst (propose_cpu Q spec use cur cur)) ResourceCPU = v * 1000000"
      using True d by (simp add: propose_cpu_def quantity_specD [OF assms(1)])
    with v(2) quantityMilliOrZero_amount [OF assms(1,3)] show ?thesis by fastforce
  next
    case False
    with d show ?thesis by (auto simp: propose_cpu_def)
  qed
qed

lemma propose_memory_no_downscale:
  assumes "quantity_spec Q amt" "\<not> allow_downscale (algorithm spec)"
    and "\<And>q. map_of cur ResourceMemory = Some q \<Longrightarrow> representable amt q"
    and "map_of new ResourceMemory = map_of cur ResourceMemory"
  shows "rl_amount Q amt cur ResourceMemory \<le> rl_amount Q amt (fst (propose_memory Q spec use cur new)) ResourceMemory"
proof -
  let ?c = "quantityBytesOrZero Q cur ResourceMemory"
  let ?t = "quantizeBytesMemory (divCeil (i64 (quantityBytesOrZero Q use ResourceMemory *
    i32 (100 + headroom_percent (algorithm spec)))) 100) ?c (allow_downscale (algorithm spec))"
  obtain v chg sk where d: "decide ?t ?c (up_percent (thresholds spec)) (down_percent (thresholds spec))
      (allow_downscale (algorithm spec)) (quantityBytes Q (min_change_memory (bounds spec))) = (v, chg, sk)"
    by (cases rule: prod_cases3)
  show ?thesis
  proof (cases "memory_on spec \<and> chg")
    case True
    with decide_changed [of ?t ?c] d assms(2) have v: "v = max 0 ?t" "?c \<le> v"
      by fastforce+
    have "in_i64 v"
      unfolding v(1) by (simp add: max_def quantize_range divCeil_100_range)
    then have "rl_amount Q amt (fst (propose_memory Q spec use cur new)) ResourceMemory = v * 1000000000"
      using True d by (simp add: propose_memory_def quantity_specD [OF assms(1)])
    with v(2) quantityBytesOrZero_amount [OF assms(1,3)] show ?thesis by fastforce
  next
    case False
    with d rl_amount_cong [OF assms(4)] show ?thesis by (auto simp: propose_memory_def)
  qed
qed

lemma applyBounds_not_lower:
  assumes "quantity_spec Q amt" "a \<le> rl_amount Q amt rl name" "\<And>x. mx = Some x \<Longrightarrow> a \<le> amt x"
  shows "a \<le> rl_amount Q amt (fst (applyBounds Q rl name mn mx)) name"
  using assms(2,3) quantity_specD(1,2) [OF assms(1)]
  by (auto simp: applyBounds_def Let_def rl_amount_def [symmetric] split: option.splits)

text \<open>A container whose requests are representable and within its limits and the maxima.\<close>

definition within_caps ::
  "'q quantity_ops \<Rightarrow> ('q \<Rightarrow> int) \<Rightarrow> ('q, 'l) policy_spec \<Rightarrow> 'q container \<Rightarrow> bool" where
  "within_caps Q amt spec c \<longleftrightarrow>
     (\<forall>k q. map_of (requests c) k = Some q \<longrightarrow> representable amt q) \<and>
     (\<forall>k l. map_of (limits c) k = Some l \<longrightarrow> 0 \<le> amt l \<and> rl_amount Q amt (requests c) k \<le> amt l) \<and>
     (\<forall>k x. bound_max spec k = Some x \<longrightarrow> rl_amount Q amt (requests c) k \<le> amt x)"

lemma bounded_requests_not_lower:
  assumes "quantity_spec Q amt" "\<not> allow_downscale (algorithm spec)" "within_caps Q amt spec c"
    and "k = ResourceCPU \<or> k = ResourceMemory"
  shows "rl_amount Q amt (requests c) k \<le> rl_amount Q amt (bounded_requests Q spec use c) k"
proof -
  let ?a = "rl_amount Q amt (requests c) k"
  let ?p = "fst (propose_cpu Q spec use (requests c) (requests c))"
  let ?m = "fst (propose_memory Q spec use (requests c) ?p)"
  let ?b = "fst (applyBounds Q ?m ResourceCPU (cpu_min (bounds spec)) (cpu_max (bounds spec)))"
  have repr: "\<And>k q. map_of (requests c) k = Some q \<Longrightarrow> representable amt q"
    and cap: "\<And>k x. bound_max spec k = Some x \<Longrightarrow> rl_amount Q amt (requests c) k \<le> amt x"
    using assms(3) by (auto simp: within_caps_def)
  from assms(4) show ?thesis
  proof
    assume k: "k = ResourceCPU"
    have "?a \<le> rl_amount Q amt ?p ResourceCPU"
      unfolding k by (rule propose_cpu_no_downscale [OF assms(1,2)]) (rule repr)
    also have "\<dots> = rl_amount Q amt ?m ResourceCPU"
      by (rule rl_amount_cong) (simp add: rl_lookup)
    finally have "?a \<le> rl_amount Q amt ?b ResourceCPU"
      using cap [of ResourceCPU] by (intro applyBounds_not_lower [OF assms(1)]) (auto simp: k bound_max_def)
    also have "\<dots> = rl_amount Q amt (bounded_requests Q spec use c) k"
      unfolding bounded_requests_def k by (rule rl_amount_cong) (simp add: rl_lookup)
    finally show ?thesis .
  next
    assume k: "k = ResourceMemory"
    have "?a \<le> rl_amount Q amt ?m ResourceMemory"
      unfolding k
      by (rule propose_memory_no_downscale [OF assms(1,2)]) (auto intro: repr simp: rl_lookup)
    also have "\<dots> = rl_amount Q amt ?b ResourceMemory"
      by (rule rl_amount_cong) (simp add: rl_lookup)
    finally show ?thesis
      unfolding bounded_requests_def k
      using cap [of ResourceMemory] by (intro applyBounds_not_lower [OF assms(1)]) (auto simp: k bound_max_def)
  qed
qed

lemma evolves_not_lower:
  assumes "quantity_spec Q amt" "\<not> allow_downscale (algorithm spec)" "within_caps Q amt spec c"
    and "evolves Q spec mode u c d"
  shows "rl_amount Q amt (requests c) k \<le> rl_amount Q amt (requests d) k"
proof (cases "u (ctr_name c)")
  case None
  with assms(4) show ?thesis by cases simp_all
next
  case (Some use)
  then obtain p where p: "propose Q spec mode use c = Inr p"
    and amount: "\<And>k. rl_amount Q amt (requests d) k = rl_amount Q amt (new_req p) k"
    using evolves_requests_amount [OF assms(1,4)] by blast
  note b = bounded_requests_not_lower [OF assms(1,2,3), of k use]
  have lim: "0 \<le> amt l" "rl_amount Q amt (requests c) k \<le> amt l" if "map_of (limits c) k = Some l" for l
    using assms(3) that by (auto simp: within_caps_def)
  consider "k \<noteq> ResourceCPU" "k \<noteq> ResourceMemory"
    | l where "k = ResourceCPU \<or> k = ResourceMemory" "toggled spec k" "mode \<noteq> LimitsModeEqualRequests"
        "map_of (limits c) k = Some l"
    | "k = ResourceCPU \<or> k = ResourceMemory"
        "mode = LimitsModeEqualRequests \<or> \<not> toggled spec k \<or> map_of (limits c) k = None"
    by blast
  then show ?thesis
  proof cases
    case 1
    then show ?thesis
      unfolding amount using p by (intro eq_refl rl_amount_cong) (simp add: rl_lookup)
  next
    case (2 l)
    with b lim [of l] new_req_amount [OF assms(1) p 2(3,2,4)] show ?thesis by (simp add: amount)
  next
    case 3
    with b new_req_amount_no_limit [OF p 3(2,1)] show ?thesis by (simp add: amount)
  qed
qed


lemma list_all2_hdD: "list_all2 P (x # xs) ys \<Longrightarrow> P x (hd ys)"
  by (cases ys) simp_all


text \<open>
  The QoS repair lowers a request although downscaling is not allowed: a Burstable pod
  at 80m CPU, under full load with a 100m limit, is resized to 50m.
\<close>

lemma repair_lowers_without_downscale:
  "\<exists>pod pm (spec :: (int, unit) policy_spec) res d.
     \<not> allow_downscale (algorithm spec) \<and> bounds spec = no_bounds \<and>
     ComputeDesired nano_ops (Some pod) (Some pm) spec = (res, None) \<and> desired res = Some d \<and>
     map_of (requests (hd (containers pod))) ResourceCPU = Some (milli 80) \<and>
     map_of (requests (hd (containers d))) ResourceCPU = Some (milli 50) \<and>
     cpu_request_milli (res_delta res) = - 30"
  by (rule exI [of _ "ex_pod [ex_tight (milli 80) (mebi 64)]"],
      rule exI [of _ "ex_metrics (milli 5000) (mebi 5120)"], rule exI [of _ "ex_spec False no_bounds"],
      rule exI [of _ ex_repaired_result], rule exI [of _ "ex_pod [ex_tight (milli 50) (mebi 128)]"])
    (intro conjI ex_compute_repaired, simp_all add: ex_spec_def ex_pod_def ex_tight_def ex_repaired_result_def)

section \<open>Bounds and toggles\<close>

text \<open>
  Bounds are applied to a resource the policy does not manage: with CPU switched off, a
  current CPU request below \<open>cpuMin\<close> is raised to it for every container with usage, and the
  container's CPU limit is not consulted.
\<close>

lemma bounds_ignore_toggle:
  assumes "propose Q spec mode use c = Inr p" "\<not> cpu_on spec" "quantity_spec Q amt"
    and "cpu_min (bounds spec) = Some m" "cpu_max (bounds spec) = None"
    and "rl_amount Q amt (requests c) ResourceCPU < amt m"
  shows "map_of (new_req p) ResourceCPU = Some m"
proof -
  define r where "r = fst (propose_memory Q spec use (requests c) (fst (propose_cpu Q spec use (requests c) (requests c))))"
  have "map_of r ResourceCPU = map_of (requests c) ResourceCPU"
    by (simp add: r_def rl_lookup propose_cpu_off [OF assms(2)])
  then have "q_cmp Q (rl_get Q r ResourceCPU) m < 0"
    using assms(6) by (simp add: quantity_specD(2) [OF assms(3)] rl_amount_def rl_get_def)
  then have "map_of (bounded_requests Q spec use c) ResourceCPU = Some m"
    using assms(4,5) unfolding bounded_requests_def r_def [symmetric]
    by (simp add: rl_lookup) (simp add: applyBounds_def Let_def)
  moreover have "map_of (new_req p) ResourceCPU = map_of (bounded_requests Q spec use c) ResourceCPU"
  proof (cases "mode = LimitsModeEqualRequests")
    case True
    with assms(1) show ?thesis by (simp add: propose_equal_mode)
  next
    case False
    with assms(1,2) show ?thesis by (simp add: propose_unchanged_mode rl_lookup)
  qed
  ultimately show ?thesis by simp
qed

definition ex_cpu_off :: "(int, unit) policy_spec" where
  "ex_cpu_off = (ex_spec False (no_bounds\<lparr>cpu_min := Some (milli 500)\<rparr>))
     \<lparr>resources := \<lparr>managed_requests = \<lparr>tog_cpu = False, tog_memory = True\<rparr>, limits_mode = ''Unchanged''\<rparr>\<rparr>"

lemma bounds_ignore_toggle_witness:
  "\<exists>p. propose nano_ops ex_cpu_off ''Unchanged'' [] (ex_app (milli 100) (mebi 128)) = Inr p \<and>
    map_of (new_req p) ResourceCPU = Some (milli 500) \<and> map_of (new_lim p) ResourceCPU = Some (milli 400)"
proof -
  let ?p = "propose nano_ops ex_cpu_off ''Unchanged'' [] (ex_app (milli 100) (mebi 128))"
  have "\<not> isl ?p"
    by (simp add: compute_simps ex_simps ex_cpu_off_def)
  then obtain p where p: "?p = Inr p"
    by (cases ?p) auto
  have "map_of (new_req p) ResourceCPU = Some (milli 500)"
    by (rule bounds_ignore_toggle [OF p _ nano_ops_spec])
      (simp_all add: ex_cpu_off_def ex_simps rl_amount_def rl_get_def)
  moreover have "map_of (new_lim p) ResourceCPU = Some (milli 400)"
    using propose_unchanged_mode(1) [OF p] by (simp add: ex_app_def)
  ultimately show ?thesis using p by blast
qed

text \<open>
  A resource that is switched off and has no bounds is left alone: without an error, no
  container's requests or limits of it change.
\<close>

lemma unmanaged_resource_untouched:
  assumes "ComputeDesired Q (Some pod) (Some pm) spec = (res, None)"
    and "\<not> toggled spec k" "bound_min spec k = None" "bound_max spec k = None"
  shows "\<exists>d. desired res = Some d \<and>
    list_all2 (\<lambda>c c'. map_of (requests c') k = map_of (requests c) k \<and> map_of (limits c') k = map_of (limits c) k)
      (containers pod) (containers d)"
proof -
  let ?S = "\<lambda>c c'. map_of (requests c') k = map_of (requests c) k \<and> map_of (limits c') k = map_of (limits c) k"
  have cpu: "\<not> cpu_on spec" "cpu_min (bounds spec) = None" "cpu_max (bounds spec) = None" if "k = ResourceCPU"
    using assms(2-4) that by (simp_all add: toggled_def bound_min_def bound_max_def)
  have mem: "\<not> memory_on spec" "memory_min (bounds spec) = None" "memory_max (bounds spec) = None" if "k = ResourceMemory"
    using assms(2-4) that by (simp_all add: toggled_def bound_min_def bound_max_def)
  have bounded: "map_of (bounded_requests Q spec use c) k = map_of (requests c) k" for use and c :: "'a container"
    by (cases "k = ResourceCPU"; cases "k = ResourceMemory")
      (simp_all add: bounded_requests_def rl_lookup propose_cpu_off propose_memory_off cpu mem)
  have new: "map_of (new_req p) k = map_of (requests c) k \<and> map_of (new_lim p) k = map_of (limits c) k"
    if "propose Q spec mode use c = Inr p" for mode use p and c :: "'a container"
  proof (cases "mode = LimitsModeEqualRequests")
    case True
    with that have "map_of (new_req p) k = map_of (requests c) k"
      by (simp add: propose_equal_mode(1) bounded)
    moreover have "map_of (new_lim p) k = map_of (limits c) k"
      using that True
      by (cases "k = ResourceCPU"; cases "k = ResourceMemory") (simp_all add: propose_equal_mode cpu mem)
    ultimately show ?thesis by simp
  next
    case False
    have "map_of (new_req p) k = map_of (bounded_requests Q spec use c) k"
      unfolding propose_unchanged_mode(2) [OF that False]
      by (cases "k = ResourceCPU"; cases "k = ResourceMemory") (simp_all add: rl_lookup cpu mem)
    with propose_unchanged_mode(1) [OF that False] show ?thesis by (simp add: bounded)
  qed
  have "\<exists>d. desired res = Some d \<and> d = pod\<lparr>containers := containers d\<rparr> \<and>
    list_all2 ?S (containers pod) (containers d)"
  proof (rule compute_desired_lift [OF assms(1)])
    fix c d
    assume "evolves Q spec (effective_limits_mode (limits_mode (resources spec)) (podQoSClass Q (Some pod)))
      (usage_by_container pm) c d"
    then show "?S c d" by cases (use new in auto)
  next
    fix c d e
    assume S: "?S c d" and f: "force_container Q spec d = Some e"
    from f have "?S d e"
    proof (cases rule: force_container_cases)
      case cpu': cpu
      from lower_request_shape [OF this] show ?thesis
        using cpu by (cases "k = ResourceCPU") auto
    next
      case memory
      from lower_request_shape [OF this] show ?thesis
        using mem by (cases "k = ResourceMemory") auto
    qed
    with S show "?S c e" by simp
  qed simp
  then show ?thesis by blast
qed

section \<open>The repair of the QoS class\<close>

lemma forced_container_burstable:
  assumes "quantity_spec Q amt" "force_container Q spec d = Some e"
    and "\<And>k l. map_of (limits d) k = Some l \<Longrightarrow> representable amt l"
  shows "\<not> ctr_guaranteed Q e" "\<not> ctr_unset e"
proof -
  have "\<exists>k l. (k = ResourceCPU \<or> k = ResourceMemory) \<and> map_of (limits e) k = Some l \<and>
    rl_amount Q amt (requests e) k \<noteq> amt l"
    using assms(2)
  proof (cases rule: force_container_cases)
    case cpu
    from lower_request_amount [OF assms(1) cpu, where unit = 1000000 and m = None]
    have "\<exists>lim. map_of (limits d) ResourceCPU = Some lim \<and>
      (representable amt lim \<longrightarrow> rl_amount Q amt (requests e) ResourceCPU < amt lim)"
      using assms(1) by (auto simp: quantity_specD quantityMilli_range representable_q_milli)
    then show ?thesis
      using assms(3) force_container_cpu_memory_only(2) [OF assms(2)] by fastforce
  next
    case memory
    from lower_request_amount [OF assms(1) memory, where unit = 1000000000 and m = None]
    have "\<exists>lim. map_of (limits d) ResourceMemory = Some lim \<and>
      (representable amt lim \<longrightarrow> rl_amount Q amt (requests e) ResourceMemory < amt lim)"
      using assms(1) by (auto simp: quantity_specD quantityBytes_range representable_q_value)
    then show ?thesis
      using assms(3) force_container_cpu_memory_only(2) [OF assms(2)] by fastforce
  qed
  then show "\<not> ctr_guaranteed Q e" "\<not> ctr_unset e"
    by (auto simp: ctr_guaranteed_def guaranteed_resource_def ctr_unset_def quantity_specD(3) [OF assms(1)]
        rl_amount_def rl_get_def split: option.splits)
qed

lemma force_containers_succeeds:
  "c \<in> set cs \<Longrightarrow> force_container Q spec c \<noteq> None \<Longrightarrow> force_containers Q spec cs \<noteq> None"
  by (induction cs) (auto split: option.splits)

text \<open>
  When clamping would make a Burstable pod Guaranteed, the repair keeps it Burstable and
  no QoS error is raised, provided CPU is managed and some container has a CPU limit above
  the CPU minimum (all limits representable).
\<close>

lemma repair_keeps_burstable:
  assumes "quantity_spec Q amt" "podQoSClass Q (Some des) = Guaranteed" "cpu_on spec"
    and "c \<in> set (containers des)" "map_of (limits c) ResourceCPU = Some lim"
    and "quantityMilli Q (cpu_min (bounds spec)) < q_milli Q lim"
    and "\<And>c k l. c \<in> set (containers des) \<Longrightarrow> map_of (limits c) k = Some l \<Longrightarrow> representable amt l"
  shows "\<exists>d. settle_qos Q spec Burstable des = Inr d \<and> podQoSClass Q (Some d) = Burstable"
proof -
  have g: "list_all (ctr_guaranteed Q) (init_containers des @ containers des)"
    using assms(2) by (simp only: podQoSClass_Guaranteed_iff)
  have "ctr_guaranteed Q c"
    using g assms(4) by (auto simp: list_all_iff)
  then obtain req where req: "map_of (requests c) ResourceCPU = Some req" "q_cmp Q req lim = 0"
    using assms(5) by (auto simp: ctr_guaranteed_def guaranteed_resource_def split: option.splits)
  have "0 \<le> q_milli Q lim" and "in_i64 (q_milli Q lim)"
    using representable_q_milli(1) [OF assms(1), of lim] assms(4,5,7) quantity_specD(8) [OF assms(1)]
    by (force simp: representable_def)+
  then have "i64 (q_milli Q lim - cpuStepMilli) = q_milli Q lim - cpuStepMilli"
    by (intro i64_id) (simp add: in_i64_def cpuStepMilli_def)
  with req assms(3,5,6) have "force_container Q spec c \<noteq> None"
    by (auto simp: force_container_def lower_request_def Let_def cpuStepMilli_def split: option.splits)
  with assms(4) obtain cs where f: "force_containers Q spec (containers des) = Some cs"
    using force_containers_succeeds by blast
  then obtain pre d d' post where "containers des = pre @ d # post" "cs = pre @ d' # post"
    "force_container Q spec d = Some d'"
    using force_containers_shape by blast
  with forced_container_burstable [OF assms(1), of spec d d'] assms(7)
  have "d' \<in> set cs" "\<not> ctr_guaranteed Q d'" "\<not> ctr_unset d'"
    by auto
  then have "podQoSClass Q (Some (des\<lparr>containers := cs\<rparr>)) = Burstable"
    by (auto simp: podQoSClass.simps fold_qos_step list_all_iff)
  with f assms(2) show ?thesis
    by (simp add: settle_qos_def Let_def)
qed

lemma repair_keeps_burstable_witness:
  "\<exists>d. settle_qos nano_ops (ex_spec False ex_bounds) Burstable (ex_pod [ex_tight (milli 100) (mebi 128)]) = Inr d \<and>
    podQoSClass nano_ops (Some d) = Burstable"
proof (rule repair_keeps_burstable [OF nano_ops_spec])
  show "podQoSClass nano_ops (Some (ex_pod [ex_tight (milli 100) (mebi 128)])) = Guaranteed"
    by (simp add: compute_simps ex_simps ex_tight_def)
qed (auto simp: ex_simps ex_tight_def quantityMilli_def ceil_div_def i64_def representable_def split: if_splits)

section \<open>The delta\<close>

lemma old_by_name_lookup:
  assumes "distinct (map ctr_name cs)" "c \<in> set cs"
  shows "old_by_name cs (ctr_name c) = Some (requests c)"
proof -
  have "foldl (\<lambda>m c. m(ctr_name c \<mapsto> requests c)) m cs (ctr_name c) = Some (requests c)" for m
    using assms
  proof (induction cs arbitrary: m)
    case Nil
    then show ?case by simp
  next
    case (Cons a cs)
    have keep: "foldl (\<lambda>m c. m(ctr_name c \<mapsto> requests c)) m cs k = m k"
      if "k \<notin> ctr_name ` set cs" for m :: "string \<rightharpoonup> 'a resource_list" and k
      using that by (induction cs arbitrary: m) auto
    show ?case
    proof (cases "c = a")
      case True
      with Cons.prems keep [of "ctr_name a" "m(ctr_name a \<mapsto> requests a)"] show ?thesis
        by (auto simp del: fun_upd_apply simp: fun_upd_same)
    next
      case False
      with Cons.prems Cons.IH [of "m(ctr_name a \<mapsto> requests a)"] show ?thesis
        by (auto simp del: fun_upd_apply simp: fun_upd_same)
    qed
  qed
  then show ?thesis by (simp add: old_by_name_def)
qed

lemma i64_accumulate: "i64 (i64 (a + i64 b) + c - e) = i64 (a + b + c - e)"
proof -
  have "i64 (i64 (a + i64 b) + c - e) = i64 (i64 (a + b) + (c - e))"
    by (simp only: i64_add_right add_diff_eq)
  also have "\<dots> = i64 (a + b + c - e)"
    by (subst i64_add_left) (simp only: add_diff_eq)
  finally show ?thesis .
qed

lemma foldl_delta_step:
  assumes "list_all2 (\<lambda>x y. m (ctr_name y) = Some (requests x)) xs ys"
    and "i64 (cpu_request_milli d) = cpu_request_milli d" "i64 (memory_request_byte d) = memory_request_byte d"
  shows "foldl (delta_step Q m) d ys =
    \<lparr>cpu_request_milli = i64 (cpu_request_milli d +
        sum_list (map (\<lambda>c. quantityMilliOrZero Q (requests c) ResourceCPU) ys) -
        sum_list (map (\<lambda>c. quantityMilliOrZero Q (requests c) ResourceCPU) xs)),
     memory_request_byte = i64 (memory_request_byte d +
        sum_list (map (\<lambda>c. quantityBytesOrZero Q (requests c) ResourceMemory) ys) -
        sum_list (map (\<lambda>c. quantityBytesOrZero Q (requests c) ResourceMemory) xs))\<rparr>"
  using assms
proof (induction xs ys arbitrary: d rule: list_all2_induct)
  case Nil
  then show ?case by simp
next
  case (Cons x xs y ys)
  have d: "delta_step Q m d y =
    \<lparr>cpu_request_milli = i64 (cpu_request_milli d + i64 (quantityMilliOrZero Q (requests y) ResourceCPU -
        quantityMilliOrZero Q (requests x) ResourceCPU)),
     memory_request_byte = i64 (memory_request_byte d + i64 (quantityBytesOrZero Q (requests y) ResourceMemory -
        quantityBytesOrZero Q (requests x) ResourceMemory))\<rparr>"
    by (simp add: delta_step_def Let_def Cons.hyps(1))
  have "i64 (cpu_request_milli (delta_step Q m d y)) = cpu_request_milli (delta_step Q m d y)"
    "i64 (memory_request_byte (delta_step Q m d y)) = memory_request_byte (delta_step Q m d y)"
    by (simp_all only: d delta.simps i64_idem)
  from Cons.IH [OF this] show ?case
    by (simp only: foldl_Cons d delta.simps i64_accumulate) (simp add: algebra_simps)
qed

text \<open>
  The delta is the change of the summed requests, in millicores and bytes and modulo
  \<open>2\<^sup>64\<close>: for pods whose regular containers have the same, pairwise distinct names, it is
  the total of the new requests minus the total of the old ones.
\<close>

lemma delta_is_total_change:
  assumes "map ctr_name (containers newPod) = map ctr_name (containers oldPod)"
    and "distinct (map ctr_name (containers oldPod))"
  shows "computeDeltaRequests Q (Some oldPod) (Some newPod) =
    \<lparr>cpu_request_milli = i64 (
        sum_list (map (\<lambda>c. quantityMilliOrZero Q (requests c) ResourceCPU) (containers newPod)) -
        sum_list (map (\<lambda>c. quantityMilliOrZero Q (requests c) ResourceCPU) (containers oldPod))),
     memory_request_byte = i64 (
        sum_list (map (\<lambda>c. quantityBytesOrZero Q (requests c) ResourceMemory) (containers newPod)) -
        sum_list (map (\<lambda>c. quantityBytesOrZero Q (requests c) ResourceMemory) (containers oldPod)))\<rparr>"
proof -
  have "list_all2 (\<lambda>x y. ctr_name y = ctr_name x \<and> x \<in> set (containers oldPod))
      (containers oldPod) (containers newPod)"
    using assms(1) unfolding list_all2_conv_all_nth by (metis length_map nth_map nth_mem)
  then have "list_all2 (\<lambda>x y. old_by_name (containers oldPod) (ctr_name y) = Some (requests x))
      (containers oldPod) (containers newPod)"
    by (rule list_all2_mono) (simp add: old_by_name_lookup [OF assms(2)])
  from foldl_delta_step [OF this, of "\<lparr>cpu_request_milli = 0, memory_request_byte = 0\<rparr>"]
  show ?thesis by simp
qed

end
