(* ===== verification/PolicyDynamics.thy ===== *)
theory PolicyDynamics
  imports PolicyBehaviour
begin

text \<open>
  The errors of \<open>ComputeDesired\<close>, and what the CPU decision does when it is taken again and
  again under constant usage: it settles when downscaling is off and may oscillate when it
  is on.
\<close>

section \<open>Errors\<close>

lemma apply_limits_mode_error:
  "apply_limits_mode Q spec mode curLim newReq newLim = Inl e \<longleftrightarrow>
    e = UnsupportedLimitsMode (limits_mode (resources spec)) \<and>
    mode \<notin> {'''', LimitsModeUnchanged, LimitsModeEqualRequests}"
  by (auto simp: apply_limits_mode_def Let_def split: prod.splits)

lemma case_sum_Inl:
  "(case x of Inl e \<Rightarrow> Inl e | Inr y \<Rightarrow> Inr (f y)) = Inl e \<longleftrightarrow> x = Inl e"
  by (cases x) auto

lemma propose_error:
  "propose Q spec mode use c = Inl e \<longleftrightarrow>
    e = UnsupportedLimitsMode (limits_mode (resources spec)) \<and>
    mode \<notin> {'''', LimitsModeUnchanged, LimitsModeEqualRequests}"
  unfolding propose_def Let_def split_beta case_sum_Inl by (rule apply_limits_mode_error)

lemma container_step_error:
  "container_step Q spec mode u c r = Inl e \<longleftrightarrow>
    (\<exists>use. u (ctr_name c) = Some use \<and> propose Q spec mode use c = Inl e)"
  by (auto simp: container_step_def Let_def split: option.splits sum.splits)

lemma containers_loop_error:
  "containers_loop Q spec mode u cs r = Inl e \<longleftrightarrow>
    e = UnsupportedLimitsMode (limits_mode (resources spec)) \<and>
    mode \<notin> {'''', LimitsModeUnchanged, LimitsModeEqualRequests} \<and>
    (\<exists>c \<in> set cs. u (ctr_name c) \<noteq> None)"
proof (induction cs arbitrary: r)
  case Nil
  then show ?case by simp
next
  case (Cons c cs)
  show ?case
  proof (cases "container_step Q spec mode u c r")
    case (Inl a)
    then obtain use where use: "u (ctr_name c) = Some use" and a: "propose Q spec mode use c = Inl a"
      by (auto simp: container_step_error)
    from a [unfolded propose_error] use Inl show ?thesis
      by auto
  next
    case (Inr b)
    have none: "u (ctr_name c) = None" if "mode \<notin> {'''', LimitsModeUnchanged, LimitsModeEqualRequests}"
    proof (rule ccontr)
      assume "u (ctr_name c) \<noteq> None"
      then obtain use where "u (ctr_name c) = Some use" by blast
      with that have "container_step Q spec mode u c r = Inl (UnsupportedLimitsMode (limits_mode (resources spec)))"
        by (simp add: container_step_error propose_error)
      with Inr show False by simp
    qed
    have "containers_loop Q spec mode u (c # cs) r = Inl e \<longleftrightarrow>
        containers_loop Q spec mode u cs (snd b) = Inl e"
      using Inr by (cases b) (auto split: sum.splits)
    then show ?thesis
      using Cons.IH none by auto
  qed
qed

text \<open>
  C32. Every error of \<open>ComputeDesired\<close> is one of four, with the result that goes with it: a
  nil pod, nil metrics, an unknown limits mode (with the empty result), or a QoS change away
  from the pod's class (with the given pod as the desired one, marked unchanged).
\<close>

theorem compute_errors:
  assumes "ComputeDesired Q pod pm spec = (res, Some e)"
  shows "(case e of
      PodNil \<Rightarrow> pod = None \<and> res = empty_result
    | MetricsNil \<Rightarrow> pod \<noteq> None \<and> pm = None \<and> res = empty_result
    | UnsupportedLimitsMode m \<Rightarrow> m = limits_mode (resources spec) \<and> res = empty_result \<and>
        m \<notin> {'''', LimitsModeUnchanged, LimitsModeEqualRequests}
    | QoSChange from to \<Rightarrow> from = podQoSClass Q pod \<and> to \<noteq> from \<and> desired res = pod \<and> \<not> changed res)"
proof -
  consider "pod = None" | p where "pod = Some p" "pm = None" | p m where "pod = Some p" "pm = Some m"
    by (cases pod; cases pm) auto
  then show ?thesis
  proof cases
    case (3 p m)
    define mode where "mode = effective_limits_mode (limits_mode (resources spec)) (podQoSClass Q (Some p))"
    have on: "\<not> (\<not> cpu_on spec \<and> \<not> memory_on spec)"
    proof
      assume "\<not> cpu_on spec \<and> \<not> memory_on spec"
      with assms 3 show False by (simp add: ComputeDesired.simps)
    qed
    show ?thesis
    proof (cases "containers_loop Q spec mode (usage_by_container m) (containers p) empty_result")
      case (Inl err)
      then have "e = err" "res = empty_result"
        using assms 3 on by (simp_all add: ComputeDesired.simps mode_def)
      moreover have "err = UnsupportedLimitsMode (limits_mode (resources spec))"
        "mode \<notin> {'''', LimitsModeUnchanged, LimitsModeEqualRequests}"
        using Inl by (simp_all add: containers_loop_error)
      ultimately show ?thesis
        by (auto simp: mode_def effective_limits_mode_def Let_def split: if_splits)
    next
      case (Inr b)
      then obtain cs r where "containers_loop Q spec mode (usage_by_container m) (containers p) empty_result = Inr (cs, r)"
        by (cases b) auto
      with assms 3 on obtain q where "settle_qos Q spec (podQoSClass Q (Some p)) (p\<lparr>containers := cs\<rparr>) = Inl q"
        and "e = QoSChange (podQoSClass Q (Some p)) q" "res = unchanged_result Q p"
        by (simp add: ComputeDesired.simps mode_def Let_def split: if_splits sum.splits)
      with 3 show ?thesis
        by (auto simp: unchanged_result_def empty_result_def settle_qos_def Let_def split: if_splits prod.splits)
    qed
  qed (use assms in \<open>auto simp: ComputeDesired.simps\<close>)
qed

theorem compute_errors_witness:
  "\<exists>res. ComputeDesired nano_ops (Some (ex_pod [])) None (ex_spec True no_bounds) = (res, Some MetricsNil) \<and>
    res = empty_result"
  using compute_errors [of nano_ops "Some (ex_pod [])" None "ex_spec True no_bounds" empty_result MetricsNil]
  by (simp add: ComputeDesired.simps)

section \<open>Constant usage\<close>

lemma q_milli_new:
  assumes "quantity_spec Q amt" "0 \<le> v" "in_i64 v"
  shows "q_milli Q (q_new_milli Q v) = v"
  using assms quantity_specD(10) [OF assms(1), of "q_new_milli Q v"]
  by (simp add: quantity_specD(5) [OF assms(1)])

text \<open>The CPU target for a usage list: scaled by the headroom, rounded up to a millicore.\<close>

definition cpu_target :: "'q quantity_ops \<Rightarrow> ('q, 'l) policy_spec \<Rightarrow> 'q resource_list \<Rightarrow> int" where
  "cpu_target Q spec use =
     divCeil (i64 (quantityMilliOrZero Q use ResourceCPU * i32 (100 + headroom_percent (algorithm spec)))) 100"

lemma propose_cpu_current:
  assumes "cpu_on spec" "quantity_spec Q amt"
    and "decide (quantizeMilliCPU (cpu_target Q spec use) (quantityMilliOrZero Q cur ResourceCPU)
           (allow_downscale (algorithm spec))) (quantityMilliOrZero Q cur ResourceCPU)
           (up_percent (thresholds spec)) (down_percent (thresholds spec)) (allow_downscale (algorithm spec))
           (quantityMilli Q (min_change_cpu (bounds spec))) = (v, chg, sk)"
    and "0 \<le> v" "in_i64 v"
  shows "quantityMilliOrZero Q (fst (propose_cpu Q spec use cur cur)) ResourceCPU =
    (if chg then v else quantityMilliOrZero Q cur ResourceCPU)"
  using assms q_milli_new [OF assms(2,4,5)]
  by (simp add: propose_cpu_def cpu_target_def quantityMilliOrZero_def)

text \<open>
  C38. Without downscaling the CPU decision settles at once under constant usage: a second
  proposal for the same usage, made from the requests of the first, changes nothing,
  whatever the thresholds.
\<close>

theorem cpu_settles_without_downscale:
  assumes "quantity_spec Q amt" "\<not> allow_downscale (algorithm spec)"
    and "in_i64 (cpu_target Q spec use + 50)"
    and "req' = fst (propose_cpu Q spec use req req)"
  shows "fst (propose_cpu Q spec use req' req') = req'"
proof -
  let ?t = "cpu_target Q spec use"
  let ?c = "quantityMilliOrZero Q req ResourceCPU"
  let ?q = "quantizeMilliCPU ?t ?c False"
  obtain v chg sk where d: "decide ?q ?c (up_percent (thresholds spec)) (down_percent (thresholds spec)) False
      (quantityMilli Q (min_change_cpu (bounds spec))) = (v, chg, sk)"
    by (cases rule: prod_cases3)
  show ?thesis
  proof (cases "cpu_on spec \<and> chg")
    case False
    then have "req' = req"
      using d assms(2,4) by (auto simp: propose_cpu_def cpu_target_def)
    with assms(4) show ?thesis by simp
  next
    case True
    then have v: "v = max 0 ?q" "max 0 ?c < v"
      using decide_changed [of ?q ?c] d by fastforce+
    have up: "?c < ?t"
      using v by (auto simp: quantizeMilliCPU_def cpuStepMilli_def max_def split: if_splits)
    then have q: "?q = roundUp ?t 50"
      by (simp add: quantizeMilliCPU_def cpuStepMilli_def)
    have "0 < ?t"
      using v q by (auto simp: roundUp_def max_def split: if_splits)
    then have le: "?t \<le> ?q" and range: "in_i64 ?q"
      unfolding q using roundUp_eq [of ?t 50] assms(3) ceil_div_bounds(1) [of 50 ?t] roundUp_range [of 50 ?t]
      by simp_all
    with v \<open>0 < ?t\<close> have vq: "v = ?q" "in_i64 v" "0 \<le> v" by simp_all
    have cur: "quantityMilliOrZero Q req' ResourceCPU = v"
      using propose_cpu_current [OF _ assms(1), of spec use req v chg sk] True d assms(2,4) vq by simp
    have "?t \<le> v"
      using le vq(1) by argo
    then have "quantizeMilliCPU ?t v False = ?t"
      by (simp add: quantizeMilliCPU_def)
    moreover have "\<exists>sk. decide ?t v (up_percent (thresholds spec)) (down_percent (thresholds spec)) False
        (quantityMilli Q (min_change_cpu (bounds spec))) = (v, False, sk)"
      using \<open>?t \<le> v\<close> \<open>0 < ?t\<close> by (simp add: decide_def Let_def) blast
    ultimately show ?thesis
      using cur assms(2) by (auto simp: propose_cpu_def cpu_target_def [symmetric])
  qed
qed

theorem cpu_settles_without_downscale_witness:
  "fst (propose_cpu nano_ops (ex_spec False no_bounds) [(ResourceCPU, milli 101)]
      [(ResourceCPU, milli 150)] [(ResourceCPU, milli 150)]) = [(ResourceCPU, milli 150)]"
  by (rule cpu_settles_without_downscale [OF nano_ops_spec, where req = "[(ResourceCPU, milli 100)]"])
    (simp_all add: compute_simps ex_simps cpu_target_def in_i64_def)

lemma quantize_up:
  "0 < t \<Longrightarrow> c < t \<Longrightarrow> in_i64 (t + 50) \<Longrightarrow> quantizeMilliCPU t c down = (t + 50 - 1) div 50 * 50"
  by (simp add: quantizeMilliCPU_def cpuStepMilli_def roundUp_eq)

lemma quantize_down:
  "0 < t \<Longrightarrow> t < c \<Longrightarrow> in_i64 t \<Longrightarrow> quantizeMilliCPU t c True = t div 50 * 50"
  by (simp add: quantizeMilliCPU_def cpuStepMilli_def roundDown_eq)

lemma next_multiple:
  "0 < r \<Longrightarrow> r < 50 \<Longrightarrow> (50 * k + r + 50 - 1) div 50 = k + 1" for k r :: int
  by (intro int_div_pos_eq [where r = "r - 1"]) auto

text \<open>A target between two multiples of 50m: it is rounded to the one beyond it.\<close>

lemma step_around:
  assumes "0 < t" "\<not> 50 dvd t" "t \<le> 9000000000000000"
  shows "(t div 50 + 1) * 50 = t div 50 * 50 + 50"
    and "0 \<le> t div 50 * 50" "t div 50 * 50 \<le> 9000000000000000"
    and "quantizeMilliCPU t (t div 50 * 50) True = (t div 50 + 1) * 50"
    and "quantizeMilliCPU t ((t div 50 + 1) * 50) True = t div 50 * 50"
proof -
  have between: "0 \<le> t div 50 * 50" "t div 50 * 50 < t" "t < (t div 50 + 1) * 50"
  proof -
    have "t div 50 * 50 \<noteq> t" using assms(2) by (metis dvd_triv_right)
    with div_mult_bounds [of 50 t] show "t div 50 * 50 < t" "t < (t div 50 + 1) * 50"
      by (simp_all add: algebra_simps)
    show "0 \<le> t div 50 * 50" using assms(1) by (simp add: pos_imp_zdiv_nonneg_iff)
  qed
  then show "(t div 50 + 1) * 50 = t div 50 * 50 + 50" "0 \<le> t div 50 * 50"
    "t div 50 * 50 \<le> 9000000000000000"
    using assms(3) by simp_all
  have "0 < t mod 50" "t mod 50 < 50"
    using assms(2) pos_mod_sign [of 50 t] by (auto simp: dvd_eq_mod_eq_0 intro: le_neq_trans)
  from next_multiple [OF this, of "t div 50"] have "(t + 50 - 1) div 50 = t div 50 + 1"
    by (simp only: mult_div_mod_eq)
  moreover have range: "in_i64 (t + 50)" "in_i64 t"
    using assms(1,3) by (simp_all add: in_i64_def)
  ultimately show "quantizeMilliCPU t (t div 50 * 50) True = (t div 50 + 1) * 50"
    using quantize_up [OF assms(1) between(2) range(1), of True] by (simp only:)
  show "quantizeMilliCPU t ((t div 50 + 1) * 50) True = t div 50 * 50"
    by (rule quantize_down [OF assms(1) between(3) range(2)])
qed

text \<open>
  With downscaling the decision need not settle: when the target is not a multiple of
  50m and the thresholds let a single step of 50m through, constant usage makes the CPU
  request alternate for ever between the multiple above the target and the one below it.
\<close>

lemma cpu_oscillates_with_downscale:
  assumes "quantity_spec Q amt" "cpu_on spec" "allow_downscale (algorithm spec)"
    and "up_percent (thresholds spec) \<le> 1000" "down_percent (thresholds spec) \<le> 1000"
    and "0 < cpu_target Q spec use" "\<not> 50 dvd cpu_target Q spec use" "cpu_target Q spec use \<le> 9000000000000000"
    and "hi = (cpu_target Q spec use div 50 + 1) * 50" "lo = cpu_target Q spec use div 50 * 50"
    and "change_warranted 50 hi (down_percent (thresholds spec)) (quantityMilli Q (min_change_cpu (bounds spec)))"
    and "change_warranted 50 lo (up_percent (thresholds spec)) (quantityMilli Q (min_change_cpu (bounds spec)))"
  shows "(quantityMilliOrZero Q req ResourceCPU = hi \<longrightarrow>
           quantityMilliOrZero Q (fst (propose_cpu Q spec use req req)) ResourceCPU = lo) \<and>
         (quantityMilliOrZero Q req ResourceCPU = lo \<longrightarrow>
           quantityMilliOrZero Q (fst (propose_cpu Q spec use req req)) ResourceCPU = hi)"
proof -
  let ?t = "cpu_target Q spec use"
  note step = step_around [OF assms(6,7,8), folded assms(9,10)]
  let ?dec = "\<lambda>t c. decide t c (up_percent (thresholds spec)) (down_percent (thresholds spec)) True
    (quantityMilli Q (min_change_cpu (bounds spec)))"
  have "?dec lo hi = (lo, True, False)" "?dec hi lo = (hi, True, False)"
    using step assms(11,12)
    by (simp_all add: decide_iff decidable_range_def assms(4,5))
  with step assms(3) show ?thesis
    using propose_cpu_current [OF assms(2,1), of use req lo True False]
      propose_cpu_current [OF assms(2,1), of use req hi True False] by (simp add: in_i64_def)
qed

text \<open>The CRD's default thresholds, 20 per cent, do not prevent it at 150m.\<close>

lemma cpu_oscillates_with_downscale_witness:
  "quantityMilliOrZero nano_ops (fst (propose_cpu nano_ops (ex_spec True no_bounds) [(ResourceCPU, milli 90)]
      [(ResourceCPU, milli 150)] [(ResourceCPU, milli 150)])) ResourceCPU = 100 \<and>
   quantityMilliOrZero nano_ops (fst (propose_cpu nano_ops (ex_spec True no_bounds) [(ResourceCPU, milli 90)]
      [(ResourceCPU, milli 100)] [(ResourceCPU, milli 100)])) ResourceCPU = 150"
proof -
  have t: "cpu_target nano_ops (ex_spec True no_bounds) [(ResourceCPU, milli 90)] = 108"
    by (simp add: compute_simps ex_simps cpu_target_def)
  have cyc: "(quantityMilliOrZero nano_ops req ResourceCPU = 150 \<longrightarrow>
           quantityMilliOrZero nano_ops (fst (propose_cpu nano_ops (ex_spec True no_bounds) [(ResourceCPU, milli 90)] req req))
             ResourceCPU = 100) \<and>
         (quantityMilliOrZero nano_ops req ResourceCPU = 100 \<longrightarrow>
           quantityMilliOrZero nano_ops (fst (propose_cpu nano_ops (ex_spec True no_bounds) [(ResourceCPU, milli 90)] req req))
             ResourceCPU = 150)" for req
    by (rule cpu_oscillates_with_downscale [OF nano_ops_spec])
      (simp_all add: t, simp_all add: ex_spec_def no_bounds_def change_warranted_def quantityMilli_def)
  have cur: "quantityMilliOrZero nano_ops [(ResourceCPU, milli 150)] ResourceCPU = 150"
    "quantityMilliOrZero nano_ops [(ResourceCPU, milli 100)] ResourceCPU = 100"
    by (simp_all add: compute_simps ex_simps)
  show ?thesis
    using cyc [of "[(ResourceCPU, milli 150)]"] cyc [of "[(ResourceCPU, milli 100)]"] cur
    by argo
qed

end
