(* ===== verification/HashText.thy ===== *)
theory HashText
  imports Hash
begin

text \<open>
  The text that is hashed determines the items: the JSON encoding of \<open>Hash\<close> is a prefix code,
  part by part. Sorting makes the items of a map canonical, so that is what can be read
  back.
\<close>

section \<open>Prefix codes\<close>

text \<open>What follows an encoded value does not get mixed up with it; \<open>g\<close> is what is read back.\<close>

definition delimited :: "('a \<Rightarrow> 'b) \<Rightarrow> ('a \<Rightarrow> string) \<Rightarrow> bool" where
  "delimited g f \<longleftrightarrow> (\<forall>a b x y. f a @ x = f b @ y \<longrightarrow> g a = g b \<and> x = y)"

lemma delimitedD: "delimited g f \<Longrightarrow> f a @ x = f b @ y \<Longrightarrow> g a = g b \<and> x = y"
  unfolding delimited_def by blast

lemma hex_digit_inj: "hex_digit m = hex_digit n \<Longrightarrow> m mod 16 = n mod 16"
proof -
  have d: "distinct ''0123456789abcdef''" by simp
  have "nat (m mod 16) < length ''0123456789abcdef''" "nat (n mod 16) < length ''0123456789abcdef''" by simp_all
  then show "hex_digit m = hex_digit n \<Longrightarrow> m mod 16 = n mod 16"
    unfolding hex_digit_def using nth_eq_iff_index_eq [OF d] by (simp add: eq_nat_nat_iff)
qed

lemma hex_byte_inj:
  assumes "hex_digit (m div 16) = hex_digit (n div 16)" "hex_digit m = hex_digit n"
    and "m \<in> {0..<256}" "n \<in> {0..<256}"
  shows "m = n"
proof -
  have "m div 16 mod 16 = n div 16 mod 16" "m mod 16 = n mod 16" using assms(1,2) by (auto dest: hex_digit_inj)
  moreover have "k div 16 mod 16 = k div 16" if "k \<in> {0..<256}" for k :: int
    by (rule mod_pos_pos_trivial) (use that in auto)
  ultimately have "m div 16 = n div 16" "m mod 16 = n mod 16" using assms(3,4) by simp_all
  then show ?thesis by (metis mult_div_mod_eq)
qed

lemma hex_encode_inj:
  "hex_encode bs = hex_encode cs \<Longrightarrow> set bs \<subseteq> {0..<256} \<Longrightarrow> set cs \<subseteq> {0..<256} \<Longrightarrow> bs = cs"
proof (induction bs arbitrary: cs)
  case Nil
  then show ?case by (cases cs) (simp_all add: hex_encode_def)
next
  case (Cons b bs)
  then obtain c cs' where cs: "cs = c # cs'" by (cases cs) (simp_all add: hex_encode_def)
  have "hex_digit (b div 16) = hex_digit (c div 16)" "hex_digit b = hex_digit c" "hex_encode bs = hex_encode cs'"
    using Cons.prems(1) by (simp_all add: cs hex_encode_def)
  with Cons.IH [of cs'] Cons.prems(2,3) show ?case by (auto simp: cs intro: hex_byte_inj)
qed

section \<open>Strings\<close>

lemma of_char_range: "(of_char c :: int) \<in> {0..<256}"
proof -
  have "(of_char c :: int) = int (of_char c)" by (rule of_nat_of_char [symmetric])
  moreover have "(of_char c :: nat) < 256" by (rule nat_of_char_less_256)
  ultimately have "0 \<le> (of_char c :: int) \<and> (of_char c :: int) < 256" by linarith
  then show ?thesis by (simp only: atLeastLessThan_iff)
qed

lemma hex_char_eq [simp]: "hex_encode [of_char c] = hex_encode [of_char d] \<longleftrightarrow> c = d"
  using hex_encode_inj [of "[of_char c]" "[of_char d]"] of_char_range [of c] of_char_range [of d]
  by (auto simp del: atLeastLessThan_iff)

definition hex_escaped :: "char \<Rightarrow> bool" where
  "hex_escaped c \<longleftrightarrow> of_char c < (32 :: int) \<or> c = CHR ''<'' \<or> c = CHR ''>'' \<or> c = CHR ''&''"

lemma json_char_delimited: "delimited id json_char"
  unfolding delimited_def json_char_def hex_escaped_def [symmetric]
  by (auto split: if_splits)

lemma json_char_start: "\<exists>x xs. json_char c = x # xs \<and> x \<noteq> CHR 0x22"
  by (auto simp: json_char_def)

lemma json_chars:
  "concat (map json_char s) @ CHR 0x22 # x = concat (map json_char t) @ CHR 0x22 # y \<Longrightarrow> s = t \<and> x = y"
proof (induction s arbitrary: t)
  case Nil
  then show ?case
    by (cases t) (use json_char_start in \<open>auto, metis append_Cons list.inject\<close>)
next
  case (Cons c s)
  show ?case
  proof (cases t)
    case Nil
    with Cons.prems json_char_start [of c] show ?thesis by auto
  next
    case (Cons d t')
    with Cons.prems delimitedD [OF json_char_delimited, of c _ d] Cons.IH [of t'] show ?thesis by simp
  qed
qed

lemma json_string_delimited: "delimited id json_string"
  unfolding delimited_def
proof (intro allI impI)
  fix s t x y assume "json_string s @ x = json_string t @ y"
  then have "concat (map json_char s) @ CHR 0x22 # x = concat (map json_char t) @ CHR 0x22 # y"
    by (simp add: json_string_def)
  from json_chars [OF this] show "id s = id t \<and> x = y" by simp
qed

section \<open>Lists\<close>

lemma json_join_Cons: "json_join (x # xs) = x @ (if xs = [] then [] else CHR '','' # json_join xs)"
  by (cases xs) simp_all

text \<open>A list is closed by a character with which no element begins.\<close>

lemma json_join_delimited:
  assumes f: "delimited g f" and start: "\<And>a. \<exists>c cs. f a = c # cs \<and> c \<noteq> close" and "close \<noteq> CHR '',''"
  shows "json_join (map f xs) @ close # x = json_join (map f ys) @ close # y \<Longrightarrow> map g xs = map g ys \<and> x = y"
proof (induction xs arbitrary: ys)
  case Nil
  show ?case
  proof (cases ys)
    case (Cons b ys')
    with Nil start [of b] show ?thesis by (auto simp: json_join_Cons)
  qed (use Nil in simp)
next
  case (Cons a xs)
  show ?case
  proof (cases ys)
    case Nil
    with Cons.prems start [of a] show ?thesis by (auto simp: json_join_Cons)
  next
    case (Cons b ys')
    note eq = Cons.prems [unfolded Cons list.map json_join_Cons append_assoc]
    from delimitedD [OF f eq] Cons.IH [of ys'] \<open>close \<noteq> CHR '',''\<close> show ?thesis
      by (auto simp: Cons split: if_splits)
  qed
qed

lemma json_pair_delimited: "delimited id (\<lambda>(k, v). json_string k @ '':'' @ json_string v)"
  unfolding delimited_def
proof (intro allI impI)
  fix a b :: "string \<times> string" and x y
  assume "(case a of (k, v) \<Rightarrow> json_string k @ '':'' @ json_string v) @ x =
    (case b of (k, v) \<Rightarrow> json_string k @ '':'' @ json_string v) @ y"
  then have eq: "json_string (fst a) @ (CHR '':'' # json_string (snd a) @ x) =
      json_string (fst b) @ (CHR '':'' # json_string (snd b) @ y)"
    by (simp add: split_beta)
  from delimitedD [OF json_string_delimited this] have "fst a = fst b" "json_string (snd a) @ x = json_string (snd b) @ y"
    by simp_all
  with delimitedD [OF json_string_delimited this(2)] show "id a = id b \<and> x = y"
    by (simp add: prod_eq_iff)
qed

lemma json_map_delimited: "delimited (sort_key fst) json_map"
  unfolding delimited_def json_map_def
proof (intro allI impI)
  fix a b :: "string smap" and x y
  let ?f = "\<lambda>(k, v). json_string k @ '':'' @ json_string v"
  assume "(''{'' @ json_join (map ?f (sort_key fst a)) @ ''}'') @ x = (''{'' @ json_join (map ?f (sort_key fst b)) @ ''}'') @ y"
  then have "json_join (map ?f (sort_key fst a)) @ CHR ''}'' # x = json_join (map ?f (sort_key fst b)) @ CHR ''}'' # y"
    by simp
  from json_join_delimited [OF json_pair_delimited _ _ this] show "sort_key fst a = sort_key fst b \<and> x = y"
    by (auto simp: json_string_def)
qed

section \<open>Items\<close>

definition canonical :: "hash_item \<Rightarrow> hash_item" where
  "canonical it = it\<lparr>hi_req := sort_key fst (hi_req it), hi_lim := sort_key fst (hi_lim it)\<rparr>"

lemma sort_key_Nil [simp]: "sort_key f xs = [] \<longleftrightarrow> xs = []"
  by (metis length_0_conv length_sort)

lemma json_item_unfold:
  "json_item it @ x =
     CHR ''{'' # json_string ''name'' @ CHR '':'' # json_string (hi_name it) @
       (if hi_req it = [] then [] else CHR '','' # json_string ''req'' @ CHR '':'' # json_map (hi_req it)) @
       (if hi_lim it = [] then [] else CHR '','' # json_string ''lim'' @ CHR '':'' # json_map (hi_lim it)) @
       CHR ''}'' # x"
  by (simp add: json_item_def)

lemma json_string_keys:
  "json_string ''req'' = CHR 0x22 # ''req'' @ [CHR 0x22]" "json_string ''lim'' = CHR 0x22 # ''lim'' @ [CHR 0x22]"
  by (simp_all add: json_string_def json_char_def)

lemma json_item_delimited: "delimited canonical json_item"
  unfolding delimited_def
proof (intro allI impI)
  fix a b x y
  assume "json_item a @ x = json_item b @ y"
  then have "json_string (hi_name a) @
       (if hi_req a = [] then [] else CHR '','' # json_string ''req'' @ CHR '':'' # json_map (hi_req a)) @
       (if hi_lim a = [] then [] else CHR '','' # json_string ''lim'' @ CHR '':'' # json_map (hi_lim a)) @ CHR ''}'' # x =
     json_string (hi_name b) @
       (if hi_req b = [] then [] else CHR '','' # json_string ''req'' @ CHR '':'' # json_map (hi_req b)) @
       (if hi_lim b = [] then [] else CHR '','' # json_string ''lim'' @ CHR '':'' # json_map (hi_lim b)) @ CHR ''}'' # y"
    by (simp add: json_item_unfold)
  from delimitedD [OF json_string_delimited this] have name: "hi_name a = hi_name b"
    and rest: "(if hi_req a = [] then [] else CHR '','' # json_string ''req'' @ CHR '':'' # json_map (hi_req a)) @
       (if hi_lim a = [] then [] else CHR '','' # json_string ''lim'' @ CHR '':'' # json_map (hi_lim a)) @ CHR ''}'' # x =
     (if hi_req b = [] then [] else CHR '','' # json_string ''req'' @ CHR '':'' # json_map (hi_req b)) @
       (if hi_lim b = [] then [] else CHR '','' # json_string ''lim'' @ CHR '':'' # json_map (hi_lim b)) @ CHR ''}'' # y"
    by simp_all
  note m = delimitedD [OF json_map_delimited]
  have "sort_key fst (hi_req a) = sort_key fst (hi_req b) \<and> sort_key fst (hi_lim a) = sort_key fst (hi_lim b) \<and> x = y"
    using rest by (auto simp: json_string_keys dest!: m split: if_splits)
  with name show "canonical a = canonical b \<and> x = y" by (simp add: canonical_def)
qed

lemma json_items_inj: "json_items xs = json_items ys \<Longrightarrow> map canonical xs = map canonical ys"
proof -
  assume "json_items xs = json_items ys"
  then have "json_join (map json_item xs) @ CHR '']'' # [] = json_join (map json_item ys) @ CHR '']'' # []"
    by (simp add: json_items_def)
  from json_join_delimited [OF json_item_delimited _ _ this] show ?thesis
    by (auto simp: json_item_def)
qed

end
