(* ===== verification/HashProps.thy ===== *)
theory HashProps
  imports HashText Examples
begin

text \<open>
  What the hash of a pod depends on: it is a fixed-size hexadecimal text, and it is a
  function of the resource maps by container name, whatever the order of the containers
  and of the entries of the maps. The stabilisation window relies on both: the hash is
  stored in an annotation (where the empty text means absence) and compared as a text.
\<close>

section \<open>Sorting by a key with distinct values\<close>

lemma sort_key_unique:
  fixes f :: "'a \<Rightarrow> 'b :: linorder"
  assumes "distinct (map f xs)" "distinct (map f ys)" "set xs = set ys"
  shows "sort_key f xs = sort_key f ys"
proof (rule map_sorted_distinct_set_unique [where f = f])
  show "inj_on f (set (sort_key f xs) \<union> set (sort_key f ys))"
    using assms by (simp add: distinct_map)
  show "distinct (map f (sort_key f xs))" "distinct (map f (sort_key f ys))"
    using assms(1,2) by (simp_all add: distinct_map)
qed (use assms(3) in simp_all)

lemma map_sort_key_unique:
  fixes f :: "'a \<Rightarrow> 'b :: linorder"
  assumes "distinct (map f xs)" "distinct (map f ys)" "g ` set xs = g ` set ys"
    and "\<And>x. x \<in> set xs \<union> set ys \<Longrightarrow> h (g x) = f x"
  shows "map g (sort_key f xs) = map g (sort_key f ys)"
proof (rule map_sorted_distinct_set_unique [where f = h])
  have eq: "map h (map g (sort_key f zs)) = map f (sort_key f zs)" if "zs = xs \<or> zs = ys" for zs
    using that assms(4) by auto
  have dist: "distinct (map f (sort_key f xs))" "distinct (map f (sort_key f ys))"
    using assms(1,2) by (simp_all add: distinct_map)
  show "sorted (map h (map g (sort_key f xs)))" "sorted (map h (map g (sort_key f ys)))"
    "distinct (map h (map g (sort_key f xs)))" "distinct (map h (map g (sort_key f ys)))"
    unfolding eq [OF disjI1 [OF refl]] eq [OF disjI2 [OF refl]] using dist by simp_all
  show "inj_on h (set (map g (sort_key f xs)) \<union> set (map g (sort_key f ys)))"
  proof -
    have "set (map g (sort_key f xs)) \<union> set (map g (sort_key f ys)) = g ` set xs"
      using assms(3) by simp
    moreover have "inj_on h (g ` set xs)"
      using assms(1,4) by (auto simp: inj_on_def distinct_map)
    ultimately show ?thesis by simp
  qed
qed (use assms(3) in simp)

section \<open>The canonical item of a container\<close>

lemma sort_key_sorted: "sorted (map f xs) \<Longrightarrow> sort_key f xs = xs"
  by (induction xs) (auto simp: insort_is_Cons)

lemma json_map_sorted [simp]: "json_map (sort_key fst m) = json_map m"
  by (simp add: json_map_def sort_key_sorted)

lemma json_item_canonical: "json_item (canonical it) = json_item it"
  by (simp add: json_item_def canonical_def)

lemma json_items_canonical:
  "map canonical xs = map canonical ys \<Longrightarrow> map json_item xs = map json_item ys"
  by (metis (mono_tags, lifting) comp_apply json_item_canonical list.map_comp map_eq_conv)

text \<open>What the hash reads of a container: its name and the texts of its resources.\<close>

definition resource_text ::
  "'q quantity_ops \<Rightarrow> 'q container \<Rightarrow> string \<times> (string \<rightharpoonup> string) \<times> (string \<rightharpoonup> string)" where
  "resource_text Q c =
     (ctr_name c, map_option (q_string Q) \<circ> map_of (requests c), map_option (q_string Q) \<circ> map_of (limits c))"

definition well_keyed :: "'q pod \<Rightarrow> bool" where
  "well_keyed p \<longleftrightarrow>
     distinct (map ctr_name (init_containers p @ containers p)) \<and>
     (\<forall>c \<in> set (init_containers p @ containers p).
        distinct (map fst (requests c)) \<and> distinct (map fst (limits c)))"

lemma text_canonical:
  assumes "distinct (map fst (requests a))" "distinct (map fst (limits a))"
    and "distinct (map fst (requests b))" "distinct (map fst (limits b))"
    and "resource_text Q a = resource_text Q b"
  shows "canonical (item_of Q a) = canonical (item_of Q b)"
proof -
  have key: "sort_key fst (map (\<lambda>(k, v). (k, q_string Q v)) m) = sort_key fst (map (\<lambda>(k, v). (k, q_string Q v)) n)"
    if d: "distinct (map fst m)" "distinct (map fst n)"
      and eq: "map_option (q_string Q) \<circ> map_of m = map_option (q_string Q) \<circ> map_of n" for m n :: "'a smap"
  proof (rule sort_key_unique)
    have keys: "map fst (map (\<lambda>(k, v). (k, q_string Q v)) l) = map fst l" for l :: "'a smap"
      by (simp add: case_prod_unfold)
    have lk: "map_of (map (\<lambda>(k, v). (k, q_string Q v)) l) = map_option (q_string Q) \<circ> map_of l" for l :: "'a smap"
      by (simp add: map_of_map)
    show "distinct (map fst (map (\<lambda>(k, v). (k, q_string Q v)) m))"
      "distinct (map fst (map (\<lambda>(k, v). (k, q_string Q v)) n))"
      unfolding keys by (rule d)+
    then show "set (map (\<lambda>(k, v). (k, q_string Q v)) m) = set (map (\<lambda>(k, v). (k, q_string Q v)) n)"
      using eq d by (subst map_of_inject_set [symmetric]) (simp_all only: lk keys)
  qed
  show ?thesis
    using assms key [of "requests a" "requests b"] key [of "limits a" "limits b"]
    by (simp add: canonical_def item_of_def resource_text_def)
qed

text \<open>
  The hash is 64 lower-case hexadecimal digits, so it is never the empty text that an
  absent annotation reads as.
\<close>

lemma hash_shape:
  "length (hashPodResources Q (Some p)) = 64 \<and>
   set (hashPodResources Q (Some p)) \<subseteq> set ''0123456789abcdef''"
  using hex_encode_digits by (simp add: hashPodResources.simps length_sha256 Let_def)

text \<open>
  The text depends on nothing but the container names and the text of each resource by
  name, in whatever order the containers and the map entries are.
\<close>

lemma hash_text_ignores_order:
  assumes "well_keyed p" "well_keyed p'"
    and "resource_text Q ` set (init_containers p @ containers p) =
         resource_text Q ` set (init_containers p' @ containers p')"
  shows "hash_text Q p = hash_text Q p'"
proof -
  define cs where "cs = init_containers p @ containers p"
  define cs' where "cs' = init_containers p' @ containers p'"
  have keyed: "distinct (map ctr_name cs)" "distinct (map ctr_name cs')"
    "\<And>c. c \<in> set cs \<union> set cs' \<Longrightarrow> distinct (map fst (requests c)) \<and> distinct (map fst (limits c))"
    using assms(1,2) unfolding well_keyed_def cs_def cs'_def by auto
  have sub: "(canonical \<circ> item_of Q) ` set as \<subseteq> (canonical \<circ> item_of Q) ` set bs"
    if "resource_text Q ` set as \<subseteq> resource_text Q ` set bs" "set as \<union> set bs \<subseteq> set cs \<union> set cs'" for as bs
  proof
    fix x assume "x \<in> (canonical \<circ> item_of Q) ` set as"
    then obtain a where a: "a \<in> set as" "x = canonical (item_of Q a)" by auto
    with that(1) have "resource_text Q a \<in> resource_text Q ` set bs" by blast
    then obtain b where b: "b \<in> set bs" "resource_text Q a = resource_text Q b" by blast
    have "a \<in> set cs \<union> set cs'" "b \<in> set cs \<union> set cs'"
      using a(1) b(1) that(2) by blast+
    then have "canonical (item_of Q a) = canonical (item_of Q b)"
      using keyed(3) b(2) by (intro text_canonical) blast+
    with a(2) b(1) show "x \<in> (canonical \<circ> item_of Q) ` set bs" by simp
  qed
  have names: "map hi_name (map (item_of Q) l) = map ctr_name l" for l :: "'a container list"
    by (simp add: item_of_def)
  have "canonical ` set (map (item_of Q) cs) = canonical ` set (map (item_of Q) cs')"
    using sub [of cs cs'] sub [of cs' cs] assms(3) unfolding cs_def [symmetric] cs'_def [symmetric]
    by (simp add: image_comp subset_antisym)
  then have "map canonical (sort_key hi_name (map (item_of Q) cs)) = map canonical (sort_key hi_name (map (item_of Q) cs'))"
    by (intro map_sort_key_unique [where h = hi_name]) (simp_all add: names keyed(1,2) canonical_def del: map_map)
  then have "map json_item (sort_key hi_name (map (item_of Q) cs)) = map json_item (sort_key hi_name (map (item_of Q) cs'))"
    by (rule json_items_canonical)
  then show ?thesis
    by (simp add: hash_text_def json_items_def Let_def cs_def cs'_def)
qed

text \<open>And it determines them.\<close>

lemma canonical_text:
  assumes "distinct (map fst (requests a))" "distinct (map fst (limits a))"
    and "distinct (map fst (requests b))" "distinct (map fst (limits b))"
    and "canonical (item_of Q a) = canonical (item_of Q b)"
  shows "resource_text Q a = resource_text Q b"
proof -
  have key: "map_option (q_string Q) \<circ> map_of m = map_option (q_string Q) \<circ> map_of n"
    if d: "distinct (map fst m)" "distinct (map fst n)"
      and eq: "sort_key fst (map (\<lambda>(k, v). (k, q_string Q v)) m) = sort_key fst (map (\<lambda>(k, v). (k, q_string Q v)) n)"
    for m n :: "'a smap"
  proof -
    have lk: "map_of (map (\<lambda>(k, v). (k, q_string Q v)) l) = map_option (q_string Q) \<circ> map_of l" for l :: "'a smap"
      by (simp add: map_of_map)
    have keys: "map fst (map (\<lambda>(k, v). (k, q_string Q v)) l) = map fst l" for l :: "'a smap"
      by (simp add: case_prod_unfold)
    have "set (map (\<lambda>(k, v). (k, q_string Q v)) m) = set (map (\<lambda>(k, v). (k, q_string Q v)) n)"
      using arg_cong [OF eq, of set] by (simp only: set_sort)
    then have "map_of (map (\<lambda>(k, v). (k, q_string Q v)) m) = map_of (map (\<lambda>(k, v). (k, q_string Q v)) n)"
      using d by (subst map_of_inject_set) (simp_all only: keys)
    then show ?thesis by (simp only: lk)
  qed
  show ?thesis
    using assms key [of "requests a" "requests b"] key [of "limits a" "limits b"]
    by (simp add: canonical_def item_of_def resource_text_def)
qed

lemma hash_text_determines:
  assumes "well_keyed p" "well_keyed p'" and eq: "hash_text Q p = hash_text Q p'"
  shows "resource_text Q ` set (init_containers p @ containers p) \<subseteq>
         resource_text Q ` set (init_containers p' @ containers p')"
proof -
  let ?cs = "init_containers p @ containers p" and ?cs' = "init_containers p' @ containers p'"
  have "map canonical (sort_key hi_name (map (item_of Q) ?cs)) = map canonical (sort_key hi_name (map (item_of Q) ?cs'))"
    using eq by (intro json_items_inj) (simp add: hash_text_def Let_def del: map_append)
  from arg_cong [OF this, of set] have "canonical ` item_of Q ` set ?cs = canonical ` item_of Q ` set ?cs'"
    by (simp only: set_map set_sort)
  then have "\<exists>c' \<in> set ?cs'. canonical (item_of Q c) = canonical (item_of Q c')" if "c \<in> set ?cs" for c
    using that by (metis (no_types, lifting) imageE imageI)
  moreover have "resource_text Q c = resource_text Q c'"
    if "c \<in> set ?cs" "c' \<in> set ?cs'" "canonical (item_of Q c) = canonical (item_of Q c')" for c c'
    using that assms(1,2) unfolding well_keyed_def by (intro canonical_text) blast+
  ultimately show ?thesis by blast
qed

lemma sha256_bytes: "set (sha256 s) \<subseteq> {0..<256}"
proof -
  have "set (be_bytes n k) \<subseteq> {0..<256}" for n k by (induction n arbitrary: k) auto
  then show ?thesis unfolding sha256_def by auto
qed

text \<open>
  C28. Two pods have the same hash exactly when their containers have the same names and the
  same text for each resource, in whatever order of containers and of map entries, or when
  the two different texts are a collision of SHA-256. So the comparison of hashes that the
  stabilisation window relies on neither takes a reordering for another target nor, short of
  a collision, one target for another.
\<close>

theorem hash_equal_iff:
  assumes "well_keyed p" "well_keyed p'"
  shows "hashPodResources Q (Some p) = hashPodResources Q (Some p') \<longleftrightarrow>
    resource_text Q ` set (init_containers p @ containers p) =
      resource_text Q ` set (init_containers p' @ containers p') \<or>
    (hash_text Q p \<noteq> hash_text Q p' \<and> sha256 (hash_text Q p) = sha256 (hash_text Q p'))"
proof -
  have "hashPodResources Q (Some p) = hashPodResources Q (Some p') \<longleftrightarrow>
      sha256 (hash_text Q p) = sha256 (hash_text Q p')"
    using hex_encode_inj [OF _ sha256_bytes sha256_bytes] by (auto simp: hashPodResources.simps)
  moreover have "hash_text Q p = hash_text Q p' \<longleftrightarrow>
      resource_text Q ` set (init_containers p @ containers p) =
      resource_text Q ` set (init_containers p' @ containers p')"
    using hash_text_ignores_order [OF assms] hash_text_determines [OF assms] hash_text_determines [OF assms(2,1)]
    by (metis subset_antisym)
  ultimately show ?thesis by auto
qed

theorem hash_equal_iff_witness:
  "hashPodResources nano_ops (Some (ex_pod [ex_app (milli 100) (mebi 128), ex_side])) =
   hashPodResources nano_ops (Some (ex_pod [ex_side, ex_app (milli 100) (mebi 128)]))"
  by (subst hash_equal_iff) (auto simp: well_keyed_def ex_simps)

end
