(* ===== verification/Interfaces.thy ===== *)
theory Interfaces
  imports Prelude "HOL-Library.Multiset"
begin

text \<open>
  The interfaces between the components, as locales: the operations a client calls and the
  laws their provider keeps. Each is interpreted on the model of the code, in the theory of
  the component that provides it.
\<close>

section \<open>A cache of capability answers\<close>

text \<open>
  The part of \<open>ResizerInterface\<close> (\<open>internal/controller/types.go\<close>) that deals with the
  capability: \<open>Supported\<close> asks, \<open>Mark\<close> overrides. An answer given or marked at an instant
  stands for the time to live.
\<close>

definition cap_fresh :: "duration \<Rightarrow> time \<Rightarrow> time \<Rightarrow> bool" where
  "cap_fresh ttl now at \<longleftrightarrow> 0 < ttl \<and> \<not> time_is_zero at \<and> time_sub now at < ttl"

text \<open>A sequence of questions, each with its time to live, instant and discovery answer.\<close>

primrec ask_all ::
  "(duration \<Rightarrow> time \<Rightarrow> 'd \<Rightarrow> 's \<Rightarrow> 'c \<times> 's) \<Rightarrow> (duration \<times> time \<times> 'd) list \<Rightarrow> 's \<Rightarrow> 'c list \<times> 's" where
  "ask_all supported [] s = ([], s)"
| "ask_all supported (q # qs) s =
     (let (ttl, now, d) = q; (c, s1) = supported ttl now d s; (cs, s2) = ask_all supported qs s1
      in (c # cs, s2))"

locale capability_cache =
  fixes supported :: "duration \<Rightarrow> time \<Rightarrow> 'd \<Rightarrow> 's \<Rightarrow> 'c \<times> 's"
    and mark :: "'c \<Rightarrow> 's \<Rightarrow> 's"
    and checked :: "'c \<Rightarrow> time"
  assumes marked: "cap_fresh ttl now (checked c) \<Longrightarrow> supported ttl now d (mark c s) = (c, mark c s)"
    and answered: "supported ttl t d s = (c, s') \<Longrightarrow> cap_fresh ttl' now (checked c) \<Longrightarrow>
      supported ttl' now d' s' = (c, s')"
begin

lemma repeated:
  assumes "\<And>ttl now d. cap_fresh ttl now (checked c) \<Longrightarrow> supported ttl now d s = (c, s)"
    and "list_all (\<lambda>(ttl, now, d). cap_fresh ttl now (checked c)) qs"
  shows "ask_all supported qs s = (replicate (length qs) c, s)"
  using assms(2) by (induction qs) (auto simp: assms(1))

lemma answers_agree:
  assumes "supported ttl t d s = (c, s')"
    and "list_all (\<lambda>(ttl, now, d). cap_fresh ttl now (checked c)) qs"
  shows "ask_all supported qs s' = (replicate (length qs) c, s')"
  using answered [OF assms(1)] by (intro repeated assms(2))

lemma mark_stands:
  assumes "list_all (\<lambda>(ttl, now, d). cap_fresh ttl now (checked c)) qs"
  shows "ask_all supported qs (mark c s) = (replicate (length qs) c, mark c s)"
  using marked by (intro repeated assms)

end

section \<open>A pool that is reserved from\<close>

text \<open>
  A reservation is taken if the pool has room, and later either given back or used up. The
  slots for pods and the budget for requests are pools of this kind. A run is a sequence of
  these operations, of any number of clients in any order, in which only reservations that
  are live are given back or used up.
\<close>

inductive pool_run ::
  "('a \<Rightarrow> bool) \<Rightarrow> ('a \<Rightarrow> 's \<Rightarrow> 's option) \<Rightarrow> ('a \<Rightarrow> 's \<Rightarrow> 's) \<Rightarrow> ('a \<Rightarrow> 's \<Rightarrow> 's) \<Rightarrow> 's \<Rightarrow>
    'a multiset \<Rightarrow> 'a multiset \<Rightarrow> 's \<Rightarrow> bool"
  for ok try_reserve release commit s0 where
  start: "pool_run ok try_reserve release commit s0 {#} {#} s0"
| reserve: "pool_run ok try_reserve release commit s0 live used s \<Longrightarrow> ok a \<Longrightarrow>
    try_reserve a s = Some s' \<Longrightarrow> pool_run ok try_reserve release commit s0 (add_mset a live) used s'"
| refuse: "pool_run ok try_reserve release commit s0 live used s \<Longrightarrow> try_reserve a s = None \<Longrightarrow>
    pool_run ok try_reserve release commit s0 live used s"
| give_back: "pool_run ok try_reserve release commit s0 (add_mset a live) used s \<Longrightarrow>
    pool_run ok try_reserve release commit s0 live used (release a s)"
| use_up: "pool_run ok try_reserve release commit s0 (add_mset a live) used s \<Longrightarrow>
    pool_run ok try_reserve release commit s0 live (add_mset a used) (commit a s)"

lemma pool_run_weaken:
  assumes "pool_run ok try_reserve release commit s0 live used s" "\<And>a. ok a \<Longrightarrow> ok' a"
  shows "pool_run ok' try_reserve release commit s0 live used s"
  using assms by induction (auto intro: pool_run.intros)

text \<open>
  The laws: \<open>avail\<close> is what is left, \<open>top\<close> what it never exceeds, \<open>ok\<close> the amounts the laws
  hold for.
\<close>

locale reservation_pool =
  fixes try_reserve :: "'a \<Rightarrow> 's \<Rightarrow> 's option"
    and release :: "'a \<Rightarrow> 's \<Rightarrow> 's"
    and commit :: "'a \<Rightarrow> 's \<Rightarrow> 's"
    and weight :: "'a \<Rightarrow> int"
    and avail :: "'s \<Rightarrow> int"
    and top :: "'s \<Rightarrow> int"
    and ok :: "'a \<Rightarrow> bool"
    and sound :: "'s \<Rightarrow> bool"
  assumes weight_nonneg: "ok a \<Longrightarrow> 0 \<le> weight a"
    and sound_avail: "sound s \<Longrightarrow> 0 \<le> avail s \<and> avail s \<le> top s"
    and reserved: "sound s \<Longrightarrow> ok a \<Longrightarrow> try_reserve a s = Some s' \<Longrightarrow>
      sound s' \<and> avail s' = avail s - weight a \<and> top s' = top s"
    and released: "sound s \<Longrightarrow> ok a \<Longrightarrow> avail s + weight a \<le> top s \<Longrightarrow>
      sound (release a s) \<and> avail (release a s) = avail s + weight a \<and> top (release a s) = top s"
    and committed: "sound s \<Longrightarrow> ok a \<Longrightarrow> avail s + weight a \<le> top s \<Longrightarrow>
      sound (commit a s) \<and> avail (commit a s) = avail s \<and> top (commit a s) = top s"
begin

lemma weights_nonneg: "\<forall>a \<in># live. ok a \<Longrightarrow> 0 \<le> (\<Sum>a \<in># live. weight a)"
  by (induction live) (auto simp: weight_nonneg)

lemma run_balance:
  assumes "pool_run ok try_reserve release commit s0 live used s" "sound s0"
  shows "sound s \<and> top s = top s0 \<and> (\<forall>a \<in># live + used. ok a) \<and>
    avail s + (\<Sum>a \<in># live. weight a) + (\<Sum>a \<in># used. weight a) = avail s0"
  using assms(1)
proof induction
  case start
  with assms(2) show ?case by simp
next
  case (reserve live used s a s')
  with reserved [of s a s'] show ?case by auto
next
  case (refuse live used s a)
  then show ?case by simp
next
  case (give_back a live used s)
  then have "avail s + weight a \<le> top s" "ok a"
    using weights_nonneg [of live] weights_nonneg [of used] sound_avail [OF assms(2)] by auto
  with give_back released [of s a] show ?case by auto
next
  case (use_up a live used s)
  then have "avail s + weight a \<le> top s" "ok a"
    using weights_nonneg [of live] weights_nonneg [of used] sound_avail [OF assms(2)] by auto
  with use_up committed [of s a] show ?case by auto
qed

lemma never_overdrawn:
  assumes "pool_run ok try_reserve release commit s0 live used s" "sound s0"
  shows "(\<Sum>a \<in># used. weight a) \<le> avail s0"
  using run_balance [OF assms] sound_avail [of s] weights_nonneg [of live] by auto

end

end
