(* ===== verification/Prober.thy ===== *)
theory Prober
  imports ApiTypes Interfaces
begin

text \<open>
  \<open>internal/resize/resize.go\<close>: the capability cache (\<open>Prober\<close>), the call of the
  \<open>pods/resize\<close> subresource and the classification of its errors. The discovery client and
  the clientset are not code of this repository: their answers are arguments. An error of
  the API client is the record of what the code can observe of it.
\<close>

section \<open>Texts\<close>

definition to_lower_char :: "char \<Rightarrow> char" where
  "to_lower_char c =
     (let n = of_char c :: nat in if 65 \<le> n \<and> n \<le> 90 then char_of (n + 32) else c)"

text \<open>\<open>strings.ToLower\<close> on ASCII, and \<open>strings.Contains\<close>.\<close>

definition ToLower :: "string \<Rightarrow> string" where
  "ToLower s = map to_lower_char s"

fun contains :: "string \<Rightarrow> string \<Rightarrow> bool" where
  "contains [] sub \<longleftrightarrow> sub = []"
| "contains (c # cs) sub \<longleftrightarrow> take (length sub) (c # cs) = sub \<or> contains cs sub"

lemma contains_iff: "contains s sub \<longleftrightarrow> (\<exists>u v. s = u @ sub @ v)"
proof (induction s)
  case Nil
  then show ?case by auto
next
  case (Cons c cs)
  have "take (length sub) (c # cs) = sub \<longleftrightarrow> (\<exists>v. c # cs = sub @ v)"
    by (metis append_eq_conv_conj append_take_drop_id)
  moreover have "(\<exists>u v. c # cs = u @ sub @ v) \<longleftrightarrow> (\<exists>v. c # cs = sub @ v) \<or> (\<exists>u v. cs = u @ sub @ v)"
    by (metis append_Cons append_Nil list.exhaust list.inject)
  ultimately show ?case using Cons.IH by simp
qed

lemma contains_middle [intro]: "contains (u @ sub @ v) sub"
  unfolding contains_iff by blast

lemma ToLower_append [simp]: "ToLower (s @ t) = ToLower s @ ToLower t"
  by (simp add: ToLower_def)

section \<open>Errors of the API\<close>

record status_details =
  det_kind :: string
  det_name :: string
  det_group :: string

record api_status =
  st_code :: int
  st_details :: "status_details option"

text \<open>
  \<open>err_status\<close> is the \<open>StatusError\<close> that \<open>errors.As\<close> finds; the other flags are the
  answers of \<open>apierrors.IsMethodNotSupported\<close>, \<open>IsForbidden\<close>, \<open>IsConflict\<close> and
  \<open>IsNotFound\<close>.
\<close>

record api_error =
  err_text :: string
  err_status :: "api_status option"
  err_method_not_supported :: bool
  err_forbidden :: bool
  err_conflict :: bool
  err_not_found :: bool

definition isPodNotFoundStatus :: "api_status \<Rightarrow> bool" where
  "isPodNotFoundStatus se \<longleftrightarrow>
     st_code se = 404 \<and>
     (case st_details se of None \<Rightarrow> False
      | Some d \<Rightarrow> det_kind d = ''pods'' \<and> det_name d \<noteq> '''' \<and> det_group d = '''')"

definition isPodNotFoundMsg :: "string \<Rightarrow> bool" where
  "isPodNotFoundMsg msg \<longleftrightarrow>
     contains msg (''pods '' @ [CHR 0x22]) \<and> contains msg (CHR 0x22 # '' not found'')"

fun isUnsupportedResizeErr :: "api_error option \<Rightarrow> bool" where
  "isUnsupportedResizeErr None \<longleftrightarrow> False"
| "isUnsupportedResizeErr (Some err) \<longleftrightarrow>
     (if err_method_not_supported err then True
      else case err_status err of
          Some se \<Rightarrow>
            (if isPodNotFoundStatus se then False
             else let code = st_code se in code = 404 \<or> code = 405)
        | None \<Rightarrow>
            (let msg = ToLower (err_text err)
             in if isPodNotFoundMsg msg then False
                else contains msg ''pods/resize'' \<and>
                  (contains msg ''not found'' \<or> contains msg ''method not allowed'')))"

declare isUnsupportedResizeErr.simps(2) [simp del]

text \<open>The errors \<open>UpdateResize\<close> returns; the last three hold the error of the API.\<close>

datatype resize_error =
    ClientsetMissing
  | NilPod
  | UnsupportedError api_error
  | ForbiddenError api_error
  | OtherError api_error

fun resize_error_text :: "resize_error \<Rightarrow> string" where
  "resize_error_text ClientsetMissing = ''kubernetes clientset is not configured''"
| "resize_error_text NilPod = ''pod/desired must not be nil''"
| "resize_error_text (UnsupportedError e) = ''in-place resize unsupported: '' @ err_text e"
| "resize_error_text (ForbiddenError e) = ''in-place resize forbidden: '' @ err_text e"
| "resize_error_text (OtherError e) = err_text e"

text \<open>\<open>Unwrap\<close>: what \<open>errors.As\<close> goes on with.\<close>

fun unwrap :: "resize_error \<Rightarrow> api_error option" where
  "unwrap (UnsupportedError e) = Some e"
| "unwrap (ForbiddenError e) = Some e"
| "unwrap (OtherError e) = Some e"
| "unwrap _ = None"

section \<open>The prober\<close>

datatype support_state = SupportUnknown | SupportSupported | SupportUnsupported

record capability =
  cap_state :: support_state
  cap_reason :: string
  cap_message :: string
  cap_checked :: time

text \<open>The zero value of \<open>Capability\<close>: its state is the empty text, read as unknown.\<close>

record api_resource =
  res_name :: string
  res_verbs :: "string list"

record prober =
  has_discovery :: bool
  has_clientset :: bool
  cache :: capability

definition NewProber :: "bool \<Rightarrow> bool \<Rightarrow> prober" where
  "NewProber d cs =
     \<lparr>has_discovery = d, has_clientset = cs,
      cache = \<lparr>cap_state = SupportUnknown, cap_reason = '''', cap_message = '''', cap_checked = zero_time\<rparr>\<rparr>"

primrec hasVerb :: "string list \<Rightarrow> string \<Rightarrow> bool" where
  "hasVerb [] verb = False"
| "hasVerb (v # vs) verb = (if v = verb then True else hasVerb vs verb)"

text \<open>The loop over the resources: the first one named \<open>pods/resize\<close> decides.\<close>

primrec scan_resources :: "time \<Rightarrow> api_resource list \<Rightarrow> capability" where
  "scan_resources now [] =
     \<lparr>cap_state = SupportUnsupported, cap_reason = ''NotFound'',
      cap_message = ''pods/resize was not found in discovery'', cap_checked = now\<rparr>"
| "scan_resources now (r # rs) =
     (if res_name r \<noteq> ''pods/resize'' then scan_resources now rs
      else if \<not> hasVerb (res_verbs r) ''update'' then
        \<lparr>cap_state = SupportUnknown, cap_reason = ''VerbMissing'',
         cap_message = ''pods/resize exists but does not advertise update verb'', cap_checked = now\<rparr>
      else
        \<lparr>cap_state = SupportSupported, cap_reason = ''Discovered'',
         cap_message = ''pods/resize discovered'', cap_checked = now\<rparr>)"

text \<open>
  \<open>Supported\<close>: the answer and the prober after it. \<open>disc\<close> is what the discovery client
  would answer for group version \<open>v1\<close>: an error text or the resources.
\<close>

definition Supported ::
  "duration \<Rightarrow> time \<Rightarrow> string + api_resource list \<Rightarrow> prober \<Rightarrow> capability \<times> prober" where
  "Supported ttl now disc p =
     (if 0 < ttl \<and> \<not> time_is_zero (cap_checked (cache p)) \<and> time_sub now (cap_checked (cache p)) < ttl
      then (cache p, p)
      else
        (let cap =
           (if \<not> has_discovery p then
              \<lparr>cap_state = SupportUnknown, cap_reason = ''DiscoveryClientMissing'',
               cap_message = ''discovery client is not configured'', cap_checked = now\<rparr>
            else case disc of
                Inl err \<Rightarrow>
                  \<lparr>cap_state = SupportUnknown, cap_reason = ''DiscoveryFailed'',
                   cap_message = err, cap_checked = now\<rparr>
              | Inr list \<Rightarrow> scan_resources now list)
         in (cap, p\<lparr>cache := cap\<rparr>)))"

definition Mark :: "capability \<Rightarrow> prober \<Rightarrow> prober" where
  "Mark cap p = p\<lparr>cache := cap\<rparr>"

text \<open>
  \<open>UpdateResize\<close>: \<open>call\<close> is the update of the \<open>resize\<close> subresource for a namespace, a
  name and the desired pod, a function of the state of the cluster. The checks come before
  the call, which then has no effect.
\<close>

definition UpdateResize ::
  "(string \<Rightarrow> string \<Rightarrow> 'q pod \<Rightarrow> 'e \<Rightarrow> (api_error + 'q pod) \<times> 'e)
    \<Rightarrow> prober option \<Rightarrow> 'q pod option \<Rightarrow> 'q pod option \<Rightarrow> 'e \<Rightarrow> (resize_error + 'q pod) \<times> 'e" where
  "UpdateResize call p pod desired e =
     (case p of
        None \<Rightarrow> (Inl ClientsetMissing, e)
      | Some pr \<Rightarrow>
          if \<not> has_clientset pr then (Inl ClientsetMissing, e)
          else
            (case (pod, desired) of
               (Some old, Some new) \<Rightarrow>
                 (case call (pod_namespace old) (pod_name old) new e of
                    (Inr out, e') \<Rightarrow> (Inr out, e')
                  | (Inl err, e') \<Rightarrow>
                      (Inl (if isUnsupportedResizeErr (Some err) then UnsupportedError err
                            else if err_forbidden err then ForbiddenError err
                            else OtherError err), e'))
             | _ \<Rightarrow> (Inl NilPod, e)))"

section \<open>The capability cache\<close>

interpretation prober_cache: capability_cache Supported Mark cap_checked
proof
  show "Supported ttl now d (Mark c s) = (c, Mark c s)"
    if "cap_fresh ttl now (cap_checked c)" for ttl now c d s
    using that by (simp add: Supported_def Mark_def cap_fresh_def)
  show "Supported ttl' now d' s' = (c, s')"
    if "Supported ttl t d s = (c, s')" "cap_fresh ttl' now (cap_checked c)" for ttl t d s c s' ttl' now d'
  proof -
    have "cache s' = c"
      using that(1) by (auto simp: Supported_def Let_def split: if_splits)
    with that(2) show ?thesis
      by (simp add: Supported_def cap_fresh_def)
  qed
qed

lemma scan_resources_first:
  "scan_resources now rs =
    (case find (\<lambda>r. res_name r = ''pods/resize'') rs of
       None \<Rightarrow> \<lparr>cap_state = SupportUnsupported, cap_reason = ''NotFound'',
         cap_message = ''pods/resize was not found in discovery'', cap_checked = now\<rparr>
     | Some r \<Rightarrow>
         if ''update'' \<in> set (res_verbs r)
         then \<lparr>cap_state = SupportSupported, cap_reason = ''Discovered'',
           cap_message = ''pods/resize discovered'', cap_checked = now\<rparr>
         else \<lparr>cap_state = SupportUnknown, cap_reason = ''VerbMissing'',
           cap_message = ''pods/resize exists but does not advertise update verb'', cap_checked = now\<rparr>)"
proof -
  have "hasVerb vs v \<longleftrightarrow> v \<in> set vs" for vs v
    by (induction vs) auto
  then show ?thesis by (induction rs) auto
qed

text \<open>
  After the controller has marked a capability, every question within the time to live
  gets it, whatever discovery would say, and the prober does not change.
\<close>

lemma mark_answers_until_ttl:
  assumes "list_all (\<lambda>(ttl, now, d). cap_fresh ttl now (cap_checked c)) qs"
  shows "ask_all Supported qs (Mark c p) = (replicate (length qs) c, Mark c p)"
  using assms by (rule prober_cache.mark_stands)

text \<open>
  An answer of \<open>Supported\<close> is supported exactly when it is the remembered one, still
  fresh and supported, or when discovery works now and the first resource named \<open>pods/resize\<close>
  has the \<open>update\<close> verb.
\<close>

lemma supported_iff:
  "cap_state (fst (Supported ttl now disc p)) = SupportSupported \<longleftrightarrow>
    (if cap_fresh ttl now (cap_checked (cache p)) then cap_state (cache p) = SupportSupported
     else has_discovery p \<and>
       (\<exists>rs r. disc = Inr rs \<and> find (\<lambda>r. res_name r = ''pods/resize'') rs = Some r \<and>
          ''update'' \<in> set (res_verbs r)))"
  by (auto simp: Supported_def cap_fresh_def scan_resources_first Let_def split: sum.splits option.splits)

section \<open>Errors of the resize call\<close>

text \<open>
  That a pod has gone is never taken for missing support: neither a 404 status about a
  pod, nor an error whose text says that a pod was not found, unless the server answered
  that the method is not supported.
\<close>

lemma pod_gone_is_not_unsupported:
  assumes "\<not> err_method_not_supported err"
    and "(\<exists>se. err_status err = Some se \<and> isPodNotFoundStatus se) \<or>
      (err_status err = None \<and> (\<exists>u name v. err_text err = u @ ''pods '' @ [CHR 0x22] @ name @ [CHR 0x22] @ '' not found'' @ v))"
  shows "\<not> isUnsupportedResizeErr (Some err)"
proof -
  have "isPodNotFoundMsg (ToLower (u @ ''pods '' @ [CHR 0x22] @ name @ [CHR 0x22] @ '' not found'' @ v))" for u name v
  proof -
    have low: "ToLower (''pods '' @ [CHR 0x22]) = ''pods '' @ [CHR 0x22]"
      "ToLower (CHR 0x22 # '' not found'') = CHR 0x22 # '' not found''"
      by (simp_all add: ToLower_def to_lower_char_def)
    have "ToLower (u @ ''pods '' @ [CHR 0x22] @ name @ [CHR 0x22] @ '' not found'' @ v) =
        ToLower u @ ToLower (''pods '' @ [CHR 0x22]) @ ToLower (name @ [CHR 0x22] @ '' not found'' @ v)"
      "ToLower (u @ ''pods '' @ [CHR 0x22] @ name @ [CHR 0x22] @ '' not found'' @ v) =
        ToLower (u @ ''pods '' @ [CHR 0x22] @ name) @ ToLower (CHR 0x22 # '' not found'') @ ToLower v"
      by (simp_all add: ToLower_def)
    then show ?thesis
      unfolding isPodNotFoundMsg_def low by (metis contains_middle)
  qed
  with assms show ?thesis
    by (auto simp: Let_def isUnsupportedResizeErr.simps(2))
qed

definition plain_error :: "string \<Rightarrow> api_error" where
  "plain_error txt =
     \<lparr>err_text = txt, err_status = None, err_method_not_supported = False, err_forbidden = False,
      err_conflict = False, err_not_found = False\<rparr>"


definition ex_gone :: "string \<Rightarrow> string \<Rightarrow> int pod \<Rightarrow> nat \<Rightarrow> (api_error + int pod) \<times> nat" where
  "ex_gone ns name d n =
     (Inl (plain_error (''pods '' @ [CHR 0x22] @ name @ [CHR 0x22] @ '' not found'')), Suc n)"

definition bare_pod :: "string \<Rightarrow> 'q pod" where
  "bare_pod name = \<lparr>pod_name = name, pod_namespace = ''default'', pod_uid = [], resource_version = [],
     annotations = None, deletion_timestamp = None, phase = ''Running'', node_name = ''n1'',
     init_containers = [], containers = []\<rparr>"


end
