(* ===== verification/Observability.thy ===== *)
theory Observability
  imports Policy Prober
begin

text \<open>
  \<open>internal/observability/metrics.go\<close>: what the operator reports to Prometheus. The client
  library is not code of this repository, so each function yields the calls it makes of it,
  in order. What a sequence of calls does to a registry is the parameter \<open>'r registry_ops\<close>;
  the documented behaviour of the library is \<open>registry_spec\<close>. Values are integers: the
  operator only sets and adds converted integers (below \<open>2\<^sup>53\<close> a \<open>float64\<close> holds them
  exactly), apart from the duration and the time of a run, which are arguments.
\<close>

section \<open>The metrics\<close>

text \<open>The vectors, by the names of their variables.\<close>

datatype metric =
    ReconcileTotal
  | ReconcileDuration
  | LastRunTimestamp
  | LastRunMetricsOK
  | LastRunDeltaCPURequestMilli
  | LastRunDeltaMemoryRequestBytes
  | PodsResizedTotal
  | PodsSkippedTotal
  | PodsFailedTotal
  | ApiCallsTotal
  | RequestsClampedTotal
  | PodsResizedByNamespaceTotal
  | RequestsBoundedTotal
  | LastRunDeltaCPURequestMilliByNamespace
  | LastRunDeltaMemoryRequestBytesByNamespace
  | DeltaCPURequestMilliTotal
  | DeltaMemoryRequestBytesTotal
  | DeltaCPURequestMilliByNamespaceTotal
  | DeltaMemoryRequestBytesByNamespaceTotal
  | CapabilityState
  | CapabilityRuntimeProbeFailuresTotal

primrec metric_name :: "metric \<Rightarrow> string" where
  "metric_name ReconcileTotal = ''resize_operator_reconcile_total''"
| "metric_name ReconcileDuration = ''resize_operator_reconcile_duration_seconds''"
| "metric_name LastRunTimestamp = ''resize_operator_last_run_timestamp_seconds''"
| "metric_name LastRunMetricsOK = ''resize_operator_last_run_metrics_ok''"
| "metric_name LastRunDeltaCPURequestMilli = ''resize_operator_last_run_delta_cpu_request_millicores''"
| "metric_name LastRunDeltaMemoryRequestBytes = ''resize_operator_last_run_delta_memory_request_bytes''"
| "metric_name PodsResizedTotal = ''resize_operator_pods_resized_total''"
| "metric_name PodsSkippedTotal = ''resize_operator_pods_skipped_total''"
| "metric_name PodsFailedTotal = ''resize_operator_pods_failed_total''"
| "metric_name ApiCallsTotal = ''resize_operator_api_calls_total''"
| "metric_name RequestsClampedTotal = ''resize_operator_requests_clamped_total''"
| "metric_name PodsResizedByNamespaceTotal = ''resize_operator_pods_resized_namespace_total''"
| "metric_name RequestsBoundedTotal = ''resize_operator_requests_bounded_total''"
| "metric_name LastRunDeltaCPURequestMilliByNamespace = ''resize_operator_last_run_delta_cpu_request_millicores_namespace''"
| "metric_name LastRunDeltaMemoryRequestBytesByNamespace = ''resize_operator_last_run_delta_memory_request_bytes_namespace''"
| "metric_name DeltaCPURequestMilliTotal = ''resize_operator_delta_cpu_request_millicores_total''"
| "metric_name DeltaMemoryRequestBytesTotal = ''resize_operator_delta_memory_request_bytes_total''"
| "metric_name DeltaCPURequestMilliByNamespaceTotal = ''resize_operator_delta_cpu_request_millicores_namespace_total''"
| "metric_name DeltaMemoryRequestBytesByNamespaceTotal = ''resize_operator_delta_memory_request_bytes_namespace_total''"
| "metric_name CapabilityState = ''resize_operator_capability_state''"
| "metric_name CapabilityRuntimeProbeFailuresTotal = ''resize_operator_capability_runtime_probe_failures_total''"

datatype metric_kind = Counter | Gauge | Histogram

primrec kind_of :: "metric \<Rightarrow> metric_kind" where
  "kind_of ReconcileTotal = Counter"
| "kind_of ReconcileDuration = Histogram"
| "kind_of LastRunTimestamp = Gauge"
| "kind_of LastRunMetricsOK = Gauge"
| "kind_of LastRunDeltaCPURequestMilli = Gauge"
| "kind_of LastRunDeltaMemoryRequestBytes = Gauge"
| "kind_of PodsResizedTotal = Counter"
| "kind_of PodsSkippedTotal = Counter"
| "kind_of PodsFailedTotal = Counter"
| "kind_of ApiCallsTotal = Counter"
| "kind_of RequestsClampedTotal = Counter"
| "kind_of PodsResizedByNamespaceTotal = Counter"
| "kind_of RequestsBoundedTotal = Counter"
| "kind_of LastRunDeltaCPURequestMilliByNamespace = Gauge"
| "kind_of LastRunDeltaMemoryRequestBytesByNamespace = Gauge"
| "kind_of DeltaCPURequestMilliTotal = Counter"
| "kind_of DeltaMemoryRequestBytesTotal = Counter"
| "kind_of DeltaCPURequestMilliByNamespaceTotal = Counter"
| "kind_of DeltaMemoryRequestBytesByNamespaceTotal = Counter"
| "kind_of CapabilityState = Gauge"
| "kind_of CapabilityRuntimeProbeFailuresTotal = Counter"

primrec metric_labels :: "metric \<Rightarrow> string list" where
  "metric_labels ReconcileTotal = [''policy'']"
| "metric_labels ReconcileDuration = [''policy'']"
| "metric_labels LastRunTimestamp = [''policy'']"
| "metric_labels LastRunMetricsOK = [''policy'']"
| "metric_labels LastRunDeltaCPURequestMilli = [''policy'']"
| "metric_labels LastRunDeltaMemoryRequestBytes = [''policy'']"
| "metric_labels PodsResizedTotal = [''policy'']"
| "metric_labels PodsSkippedTotal = [''policy'', ''reason'']"
| "metric_labels PodsFailedTotal = [''policy'', ''phase'']"
| "metric_labels ApiCallsTotal = [''policy'', ''call'']"
| "metric_labels RequestsClampedTotal = [''policy'', ''resource'']"
| "metric_labels PodsResizedByNamespaceTotal = [''policy'', ''namespace'']"
| "metric_labels RequestsBoundedTotal = [''policy'', ''resource'', ''bound'']"
| "metric_labels LastRunDeltaCPURequestMilliByNamespace = [''policy'', ''namespace'']"
| "metric_labels LastRunDeltaMemoryRequestBytesByNamespace = [''policy'', ''namespace'']"
| "metric_labels DeltaCPURequestMilliTotal = [''policy'', ''direction'']"
| "metric_labels DeltaMemoryRequestBytesTotal = [''policy'', ''direction'']"
| "metric_labels DeltaCPURequestMilliByNamespaceTotal = [''policy'', ''namespace'', ''direction'']"
| "metric_labels DeltaMemoryRequestBytesByNamespaceTotal = [''policy'', ''namespace'', ''direction'']"
| "metric_labels CapabilityState = [''policy'', ''state'']"
| "metric_labels CapabilityRuntimeProbeFailuresTotal = [''policy'', ''phase'']"

text \<open>The arguments of \<open>MustRegister\<close>.\<close>

definition all_metrics :: "metric list" where
  "all_metrics =
    [ReconcileTotal, ReconcileDuration, LastRunTimestamp,
     LastRunMetricsOK, LastRunDeltaCPURequestMilli, LastRunDeltaMemoryRequestBytes,
     PodsResizedTotal, PodsSkippedTotal, PodsFailedTotal,
     ApiCallsTotal, RequestsClampedTotal, PodsResizedByNamespaceTotal,
     RequestsBoundedTotal, LastRunDeltaCPURequestMilliByNamespace, LastRunDeltaMemoryRequestBytesByNamespace,
     DeltaCPURequestMilliTotal, DeltaMemoryRequestBytesTotal, DeltaCPURequestMilliByNamespaceTotal,
     DeltaMemoryRequestBytesByNamespaceTotal, CapabilityState, CapabilityRuntimeProbeFailuresTotal]"

datatype metric_call =
    Touch metric "string list"             \<comment> \<open>\<open>WithLabelValues\<close> alone: the series exists\<close>
  | AddTo metric "string list" int
  | SetTo metric "string list" int
  | ObserveIn metric "string list" duration
  | ResetVec metric

definition Inc :: "metric \<Rightarrow> string list \<Rightarrow> metric_call" where
  "Inc m ls = AddTo m ls 1"

definition or_unknown :: "string \<Rightarrow> string" where
  "or_unknown s = (if s = '''' then ''unknown'' else s)"

definition capabilityStates :: "string list" where
  "capabilityStates = [''supported'', ''unsupported'', ''unknown'']"

record run_stats =
  PodsListed :: nat
  PodsEligible :: nat
  PodsSkippedCooldown :: nat
  PodsMaxPodsSkipped :: nat
  PodsPendingStabilization :: nat
  PodsBudgetSkipped :: nat
  PodsMetricsNotFound :: nat
  PodsMetricsErrorsOther :: nat
  PodsQoSSkipped :: nat
  PodsConflictSkipped :: nat
  PodsNoChange :: nat
  PodsDryRunFailed :: nat
  PodsApplyFailed :: nat
  PodsResized :: nat
  MetricsOK :: bool
  DeltaCPURequestMilli :: int
  DeltaMemoryRequestByte :: int

section \<open>The functions\<close>

definition InitPolicyMetrics :: "string \<Rightarrow> metric_call list" where
  "InitPolicyMetrics pol0 =
     (let pol = or_unknown pol0
      in [Touch ReconcileTotal [pol], Touch ReconcileDuration [pol], Touch LastRunTimestamp [pol],
          Touch LastRunMetricsOK [pol], Touch LastRunDeltaCPURequestMilli [pol],
          Touch LastRunDeltaMemoryRequestBytes [pol], Touch PodsResizedTotal [pol],
          Touch PodsFailedTotal [pol, ''dryrun''], Touch PodsFailedTotal [pol, ''apply'']] @
         map (\<lambda>r. Touch PodsSkippedTotal [pol, r])
           [''nochange'', ''cooldown'', ''maxpods'', ''stabilization'', ''budget'',
            ''metrics_not_found'', ''metrics_error'', ''qos'', ''conflict''] @
         map (\<lambda>res. Touch RequestsClampedTotal [pol, res]) [''cpu'', ''memory''] @
         concat (map (\<lambda>dir. [Touch DeltaCPURequestMilliTotal [pol, dir],
             Touch DeltaMemoryRequestBytesTotal [pol, dir]]) [''up'', ''down'']) @
         map (\<lambda>ph. Touch CapabilityRuntimeProbeFailuresTotal [pol, ph]) [''dryrun'', ''apply''] @
         map (\<lambda>st. Touch CapabilityState [pol, st]) capabilityStates @
         [SetTo CapabilityState [pol, ''unknown''] 1])"

text \<open>A counter is touched only by a positive number.\<close>

definition add_pos :: "metric \<Rightarrow> string list \<Rightarrow> nat \<Rightarrow> metric_call list" where
  "add_pos m ls n = (if n > 0 then [AddTo m ls (int n)] else [])"

text \<open>\<open>elapsed\<close> is \<open>time.Since(started)\<close>, \<open>unix\<close> is \<open>time.Now().Unix()\<close>.\<close>

definition ObserveRun :: "string \<Rightarrow> duration \<Rightarrow> int \<Rightarrow> run_stats \<Rightarrow> metric_call list" where
  "ObserveRun pol0 elapsed unix s =
     (let pol = or_unknown pol0
      in [Inc ReconcileTotal [pol], ObserveIn ReconcileDuration [pol] elapsed,
          SetTo LastRunTimestamp [pol] unix,
          SetTo LastRunMetricsOK [pol] (if MetricsOK s then 1 else 0),
          SetTo LastRunDeltaCPURequestMilli [pol] (DeltaCPURequestMilli s),
          SetTo LastRunDeltaMemoryRequestBytes [pol] (DeltaMemoryRequestByte s)] @
         add_pos PodsResizedTotal [pol] (PodsResized s) @
         add_pos PodsFailedTotal [pol, ''dryrun''] (PodsDryRunFailed s) @
         add_pos PodsFailedTotal [pol, ''apply''] (PodsApplyFailed s) @
         add_pos PodsSkippedTotal [pol, ''nochange''] (PodsNoChange s) @
         add_pos PodsSkippedTotal [pol, ''cooldown''] (PodsSkippedCooldown s) @
         add_pos PodsSkippedTotal [pol, ''stabilization''] (PodsPendingStabilization s) @
         add_pos PodsSkippedTotal [pol, ''budget''] (PodsBudgetSkipped s) @
         add_pos PodsSkippedTotal [pol, ''metrics_not_found''] (PodsMetricsNotFound s) @
         add_pos PodsSkippedTotal [pol, ''metrics_error''] (PodsMetricsErrorsOther s) @
         add_pos PodsSkippedTotal [pol, ''qos''] (PodsQoSSkipped s) @
         add_pos PodsSkippedTotal [pol, ''conflict''] (PodsConflictSkipped s) @
         add_pos PodsSkippedTotal [pol, ''maxpods''] (PodsMaxPodsSkipped s))"

definition IncAPICall :: "string \<Rightarrow> string \<Rightarrow> metric_call list" where
  "IncAPICall pol call = [Inc ApiCallsTotal [or_unknown pol, or_unknown call]]"

definition AddClamped :: "string \<Rightarrow> string \<Rightarrow> nat \<Rightarrow> metric_call list" where
  "AddClamped pol res n =
     (if n \<le> 0 then [] else [AddTo RequestsClampedTotal [or_unknown pol, or_unknown res] (int n)])"

definition AddDeltaTotals :: "string \<Rightarrow> int \<Rightarrow> int \<Rightarrow> metric_call list" where
  "AddDeltaTotals pol0 deltaCPUMilli deltaMemBytes =
     (let pol = or_unknown pol0
      in (if deltaCPUMilli > 0 then [AddTo DeltaCPURequestMilliTotal [pol, ''up''] deltaCPUMilli]
          else if deltaCPUMilli < 0 then [AddTo DeltaCPURequestMilliTotal [pol, ''down''] (i64 (- deltaCPUMilli))]
          else []) @
         (if deltaMemBytes > 0 then [AddTo DeltaMemoryRequestBytesTotal [pol, ''up''] deltaMemBytes]
          else if deltaMemBytes < 0 then [AddTo DeltaMemoryRequestBytesTotal [pol, ''down''] (i64 (- deltaMemBytes))]
          else []))"

definition AddDeltaTotalsNamespace :: "string \<Rightarrow> string \<Rightarrow> int \<Rightarrow> int \<Rightarrow> metric_call list" where
  "AddDeltaTotalsNamespace pol0 ns0 deltaCPUMilli deltaMemBytes =
     (let pol = or_unknown pol0; ns = or_unknown ns0
      in (if deltaCPUMilli > 0 then
            [AddTo DeltaCPURequestMilliByNamespaceTotal [pol, ns, ''up''] deltaCPUMilli,
             AddTo DeltaCPURequestMilliTotal [pol, ''up''] deltaCPUMilli]
          else if deltaCPUMilli < 0 then
            [AddTo DeltaCPURequestMilliByNamespaceTotal [pol, ns, ''down''] (i64 (- deltaCPUMilli)),
             AddTo DeltaCPURequestMilliTotal [pol, ''down''] (i64 (- deltaCPUMilli))]
          else []) @
         (if deltaMemBytes > 0 then
            [AddTo DeltaMemoryRequestBytesByNamespaceTotal [pol, ns, ''up''] deltaMemBytes,
             AddTo DeltaMemoryRequestBytesTotal [pol, ''up''] deltaMemBytes]
          else if deltaMemBytes < 0 then
            [AddTo DeltaMemoryRequestBytesByNamespaceTotal [pol, ns, ''down''] (i64 (- deltaMemBytes)),
             AddTo DeltaMemoryRequestBytesTotal [pol, ''down''] (i64 (- deltaMemBytes))]
          else []))"

definition ObserveNamespace :: "string \<Rightarrow> string \<Rightarrow> nat \<Rightarrow> int \<Rightarrow> int \<Rightarrow> metric_call list" where
  "ObserveNamespace pol0 ns0 resized deltaCPUMilli deltaMemBytes =
     (let pol = or_unknown pol0; ns = or_unknown ns0
      in add_pos PodsResizedByNamespaceTotal [pol, ns] resized @
         [SetTo LastRunDeltaCPURequestMilliByNamespace [pol, ns] deltaCPUMilli,
          SetTo LastRunDeltaMemoryRequestBytesByNamespace [pol, ns] deltaMemBytes] @
         AddDeltaTotalsNamespace pol ns deltaCPUMilli deltaMemBytes)"

definition AddBounded :: "string \<Rightarrow> string \<Rightarrow> string \<Rightarrow> nat \<Rightarrow> metric_call list" where
  "AddBounded pol res bound n =
     (if n \<le> 0 then []
      else [AddTo RequestsBoundedTotal [or_unknown pol, or_unknown res, or_unknown bound] (int n)])"

definition ResetNamespaceGauges :: "metric_call list" where
  "ResetNamespaceGauges =
     [ResetVec LastRunDeltaCPURequestMilliByNamespace, ResetVec LastRunDeltaMemoryRequestBytesByNamespace]"

text \<open>The namespace is not used beyond its default.\<close>

definition AddBoundedNamespace :: "string \<Rightarrow> string \<Rightarrow> string \<Rightarrow> string \<Rightarrow> nat \<Rightarrow> metric_call list" where
  "AddBoundedNamespace pol ns0 res bound n =
     (let ns = or_unknown ns0 in AddBounded pol res bound n)"

text \<open>\<open>strings.TrimSpace\<close> on ASCII.\<close>

definition is_space :: "char \<Rightarrow> bool" where
  "is_space c \<longleftrightarrow> c = CHR '' '' \<or> (9 \<le> (of_char c :: nat) \<and> (of_char c :: nat) \<le> 13)"

definition TrimSpace :: "string \<Rightarrow> string" where
  "TrimSpace s = rev (dropWhile is_space (rev (dropWhile is_space s)))"

definition capability_label :: "string \<Rightarrow> string" where
  "capability_label state =
     (let s = ToLower (TrimSpace state)
      in if s = ''supported'' \<or> s = ''unsupported'' \<or> s = ''unknown'' then s else ''unknown'')"

definition ObserveCapability :: "string \<Rightarrow> string \<Rightarrow> metric_call list" where
  "ObserveCapability pol0 state =
     (let pol = or_unknown pol0; s = capability_label state
      in map (\<lambda>candidate. SetTo CapabilityState [pol, candidate] (if candidate = s then 1 else 0)) capabilityStates)"

definition IncCapabilityRuntimeProbeFailure :: "string \<Rightarrow> string \<Rightarrow> metric_call list" where
  "IncCapabilityRuntimeProbeFailure pol phase0 =
     (let ph = (if phase0 = ''dryrun'' \<or> phase0 = ''apply'' then phase0 else ''unknown'')
      in [Inc CapabilityRuntimeProbeFailuresTotal [or_unknown pol, ph]])"

end
