(* ===== verification/ObservabilityProps.thy ===== *)
theory ObservabilityProps
  imports Observability
begin

text \<open>
  What the reported calls amount to in a registry that behaves as the Prometheus client
  documents, and that no call makes the client panic (a duplicate metric name, a wrong number
  of label values, a negative amount added to a counter).
\<close>

section \<open>The registry\<close>

record 'r registry_ops =
  reg_apply :: "metric_call \<Rightarrow> 'r \<Rightarrow> 'r"
  reg_read :: "'r \<Rightarrow> metric \<Rightarrow> string list \<Rightarrow> int option"

primrec affects :: "metric_call \<Rightarrow> metric \<Rightarrow> string list \<Rightarrow> bool" where
  "affects (Touch m' ls') m ls \<longleftrightarrow> m' = m \<and> ls' = ls"
| "affects (AddTo m' ls' v) m ls \<longleftrightarrow> m' = m \<and> ls' = ls"
| "affects (SetTo m' ls' v) m ls \<longleftrightarrow> m' = m \<and> ls' = ls"
| "affects (ObserveIn m' ls' v) m ls \<longleftrightarrow> m' = m \<and> ls' = ls"
| "affects (ResetVec m') m ls \<longleftrightarrow> m' = m"

definition zero_if_new :: "int option \<Rightarrow> int" where
  "zero_if_new v = (case v of None \<Rightarrow> 0 | Some x \<Rightarrow> x)"

lemma zero_if_new_simps [simp]: "zero_if_new None = 0" "zero_if_new (Some x) = x"
  by (simp_all add: zero_if_new_def)

primrec value_after :: "metric_call \<Rightarrow> int option \<Rightarrow> int option" where
  "value_after (Touch m ls) v = Some (zero_if_new v)"
| "value_after (AddTo m ls n) v = Some (zero_if_new v + n)"
| "value_after (SetTo m ls n) v = Some n"
| "value_after (ObserveIn m ls d) v = v"
| "value_after (ResetVec m) v = None"

text \<open>Histograms are left open: only counters and gauges are read.\<close>

definition registry_spec :: "'r registry_ops \<Rightarrow> bool" where
  "registry_spec G \<longleftrightarrow>
     (\<forall>c r m ls. m \<noteq> ReconcileDuration \<longrightarrow>
        reg_read G (reg_apply G c r) m ls =
          (if affects c m ls then value_after c (reg_read G r m ls) else reg_read G r m ls))"

definition run_calls :: "'r registry_ops \<Rightarrow> metric_call list \<Rightarrow> 'r \<Rightarrow> 'r" where
  "run_calls G cs r = foldl (\<lambda>r c. reg_apply G c r) r cs"

definition series_after :: "metric \<Rightarrow> string list \<Rightarrow> metric_call list \<Rightarrow> int option \<Rightarrow> int option" where
  "series_after m ls cs v = foldl (\<lambda>v c. if affects c m ls then value_after c v else v) v cs"

lemma series_after_simps [simp]:
  "series_after m ls [] v = v"
  "series_after m ls (c # cs) v =
    series_after m ls cs (if affects c m ls then value_after c v else v)"
  by (simp_all add: series_after_def)

lemma series_after_append [simp]:
  "series_after m ls (cs @ ds) v = series_after m ls ds (series_after m ls cs v)"
  by (simp add: series_after_def)

lemma series_after_add_pos [simp]:
  "series_after m ls (add_pos m' ls' n) v =
    (if 0 < n \<and> m' = m \<and> ls' = ls then Some (zero_if_new v + int n) else v)"
  by (simp add: add_pos_def)

lemma zero_if_new_add_pos [simp]:
  "zero_if_new (series_after m ls (add_pos m' ls' n) v) =
    zero_if_new v + (if m' = m \<and> ls' = ls then int n else 0)"
  by (simp add: add_pos_def)

lemma read_run_calls:
  assumes "registry_spec G" "m \<noteq> ReconcileDuration"
  shows "reg_read G (run_calls G cs r) m ls = series_after m ls cs (reg_read G r m ls)"
proof (induction cs arbitrary: r)
  case (Cons c cs)
  have "reg_read G (run_calls G (c # cs) r) m ls = reg_read G (run_calls G cs (reg_apply G c r)) m ls"
    by (simp add: run_calls_def)
  also have "\<dots> = series_after m ls cs (reg_read G (reg_apply G c r) m ls)"
    by (rule Cons.IH)
  finally show ?case
    using assms by (simp add: registry_spec_def)
qed (simp add: run_calls_def)

text \<open>A registry for the witnesses: a map from series to values.\<close>

definition map_registry :: "(metric \<times> string list \<Rightarrow> int option) registry_ops" where
  "map_registry =
     \<lparr>reg_apply = (\<lambda>c r (m, ls). if affects c m ls then value_after c (r (m, ls)) else r (m, ls)),
      reg_read = (\<lambda>r m ls. r (m, ls))\<rparr>"

lemma map_registry_spec: "registry_spec map_registry"
  by (simp add: registry_spec_def map_registry_def)

section \<open>Properties\<close>

text \<open>
  After \<open>ObserveCapability\<close>, exactly one of the three series of the policy's capability
  is 1 and the other two are 0, whatever text is observed.
\<close>

lemma capability_one_hot:
  assumes "registry_spec G"
  shows "\<exists>s \<in> set capabilityStates. \<forall>s' \<in> set capabilityStates.
    reg_read G (run_calls G (ObserveCapability pol state) r) CapabilityState [or_unknown pol, s'] =
      Some (if s' = s then 1 else 0)"
proof (rule bexI [of _ "capability_label state"])
  show "capability_label state \<in> set capabilityStates"
    by (auto simp: capability_label_def capabilityStates_def Let_def)
  show "\<forall>s' \<in> set capabilityStates.
      reg_read G (run_calls G (ObserveCapability pol state) r) CapabilityState [or_unknown pol, s'] =
        Some (if s' = capability_label state then 1 else 0)"
    using assms by (simp add: read_run_calls ObserveCapability_def capabilityStates_def Let_def)
qed

lemma capability_one_hot_witness:
  "\<exists>s. s \<in> set capabilityStates \<and>
     reg_read map_registry (run_calls map_registry (ObserveCapability ''p'' '' Supported '') Map.empty)
       CapabilityState [or_unknown ''p'', s] = Some 1"
  using capability_one_hot [OF map_registry_spec, of "''p''" "'' Supported ''" Map.empty] by force

text \<open>
  A new run starts with \<open>InitPolicyMetrics\<close>, which leaves a supported policy with both
  the supported and the unknown series at 1 until the capability is observed again.
\<close>

lemma init_breaks_one_hot:
  assumes "registry_spec G"
  shows "\<forall>s \<in> {''supported'', ''unknown''}.
    reg_read G (run_calls G (ObserveCapability pol ''Supported'' @ InitPolicyMetrics pol) r)
      CapabilityState [or_unknown pol, s] = Some 1"
proof -
  have "capability_label ''Supported'' = ''supported''"
    by code_simp
  then show ?thesis
    using assms
    by (simp add: read_run_calls ObserveCapability_def InitPolicyMetrics_def capabilityStates_def Let_def)
qed

lemma init_breaks_one_hot_witness:
  "reg_read map_registry (run_calls map_registry (ObserveCapability ''p'' ''Supported'' @ InitPolicyMetrics ''p'') Map.empty)
      CapabilityState [or_unknown ''p'', ''unknown''] = Some 1"
  using init_breaks_one_hot [OF map_registry_spec, of "''p''" Map.empty] by simp

text \<open>The reasons of skipped pods and the numbers \<open>ObserveRun\<close> adds for them.\<close>

definition skip_counts :: "run_stats \<Rightarrow> (string \<times> nat) list" where
  "skip_counts s =
     [(''nochange'', PodsNoChange s), (''cooldown'', PodsSkippedCooldown s),
      (''maxpods'', PodsMaxPodsSkipped s), (''stabilization'', PodsPendingStabilization s),
      (''budget'', PodsBudgetSkipped s), (''metrics_not_found'', PodsMetricsNotFound s),
      (''metrics_error'', PodsMetricsErrorsOther s), (''qos'', PodsQoSSkipped s),
      (''conflict'', PodsConflictSkipped s)]"

text \<open>
  \<open>ObserveRun\<close> adds to each counter of the policy exactly the number of the run: to the
  skipped pods of every reason, to the failed and to the resized ones; the series of other
  policies stay as they are.
\<close>

lemma observe_run_adds:
  assumes "registry_spec G" "r' = run_calls G (ObserveRun pol elapsed unix s) r"
  shows "(\<forall>(reason, n) \<in> set (skip_counts s).
      zero_if_new (reg_read G r' PodsSkippedTotal [or_unknown pol, reason]) =
        zero_if_new (reg_read G r PodsSkippedTotal [or_unknown pol, reason]) + int n) \<and>
    zero_if_new (reg_read G r' PodsFailedTotal [or_unknown pol, ''apply'']) =
      zero_if_new (reg_read G r PodsFailedTotal [or_unknown pol, ''apply'']) + int (PodsApplyFailed s) \<and>
    zero_if_new (reg_read G r' PodsResizedTotal [or_unknown pol]) =
      zero_if_new (reg_read G r PodsResizedTotal [or_unknown pol]) + int (PodsResized s) \<and>
    (\<forall>m ls. m \<noteq> ReconcileDuration \<longrightarrow> hd ls \<noteq> or_unknown pol \<longrightarrow> reg_read G r' m ls = reg_read G r m ls)"
proof (intro conjI)
  show "\<forall>m ls. m \<noteq> ReconcileDuration \<longrightarrow> hd ls \<noteq> or_unknown pol \<longrightarrow> reg_read G r' m ls = reg_read G r m ls"
  proof (intro allI impI)
    fix m and ls :: "string list"
    assume m: "m \<noteq> ReconcileDuration" and ls: "hd ls \<noteq> or_unknown pol"
    have other: "or_unknown pol # k \<noteq> ls" for k
      using ls by auto
    show "reg_read G r' m ls = reg_read G r m ls"
      unfolding assms(2) read_run_calls [OF assms(1) m] ObserveRun_def Let_def Inc_def
      by (simp add: other)
  qed
next
  show "\<forall>(reason, n) \<in> set (skip_counts s).
      zero_if_new (reg_read G r' PodsSkippedTotal [or_unknown pol, reason]) =
        zero_if_new (reg_read G r PodsSkippedTotal [or_unknown pol, reason]) + int n"
    by (simp add: assms(2) read_run_calls [OF assms(1)] ObserveRun_def Inc_def skip_counts_def Let_def
        del: series_after_add_pos)
qed (simp_all add: assms(2) read_run_calls [OF assms(1)] ObserveRun_def Inc_def Let_def
    del: series_after_add_pos)

definition ex_stats :: run_stats where
  "ex_stats = \<lparr>PodsListed = 3, PodsEligible = 3, PodsSkippedCooldown = 0, PodsMaxPodsSkipped = 0,
     PodsPendingStabilization = 1, PodsBudgetSkipped = 0, PodsMetricsNotFound = 0,
     PodsMetricsErrorsOther = 0, PodsQoSSkipped = 0, PodsConflictSkipped = 0, PodsNoChange = 1,
     PodsDryRunFailed = 0, PodsApplyFailed = 0, PodsResized = 1, MetricsOK = True,
     DeltaCPURequestMilli = 50, DeltaMemoryRequestByte = 0\<rparr>"

text \<open>What the client library accepts without a panic.\<close>

primrec call_accepted :: "metric_call \<Rightarrow> bool" where
  "call_accepted (Touch m ls) \<longleftrightarrow> length ls = length (metric_labels m)"
| "call_accepted (AddTo m ls v) \<longleftrightarrow> length ls = length (metric_labels m) \<and> kind_of m = Counter \<and> 0 \<le> v"
| "call_accepted (SetTo m ls v) \<longleftrightarrow> length ls = length (metric_labels m) \<and> kind_of m = Gauge"
| "call_accepted (ObserveIn m ls d) \<longleftrightarrow> length ls = length (metric_labels m) \<and> kind_of m = Histogram"
| "call_accepted (ResetVec m) \<longleftrightarrow> True"

lemma accepted_add_pos [simp]: "length ls = length (metric_labels m) \<Longrightarrow> kind_of m = Counter \<Longrightarrow>
    list_all call_accepted (add_pos m ls n)"
  by (simp add: add_pos_def)

lemma i64_minus_nonneg: "in_i64 d \<Longrightarrow> d < 0 \<Longrightarrow> d \<noteq> - 9223372036854775808 \<Longrightarrow> 0 \<le> i64 (- d)"
  by (subst i64_id) (simp_all add: in_i64_def)

lemma accepted_namespace_totals:
  assumes "in_i64 d" "in_i64 m" "d \<noteq> - 9223372036854775808" "m \<noteq> - 9223372036854775808"
  shows "list_all call_accepted (AddDeltaTotalsNamespace pol ns d m)"
  using assms by (auto simp: AddDeltaTotalsNamespace_def Let_def intro: i64_minus_nonneg)

lemma accepted_calls:
  "list_all call_accepted (InitPolicyMetrics pol)" "list_all call_accepted (ObserveRun pol elapsed unix s)"
  "list_all call_accepted (IncAPICall pol call)" "list_all call_accepted (AddClamped pol res n)"
  "list_all call_accepted (AddBounded pol res bound n)"
  "list_all call_accepted (AddBoundedNamespace pol ns res bound n)"
  "list_all call_accepted (ObserveCapability pol state)"
  "list_all call_accepted (IncCapabilityRuntimeProbeFailure pol ph)"
  by (simp_all add: InitPolicyMetrics_def ObserveRun_def IncAPICall_def AddClamped_def AddBounded_def
      AddBoundedNamespace_def ObserveCapability_def IncCapabilityRuntimeProbeFailure_def capabilityStates_def
      Inc_def Let_def)

text \<open>
  No call of the package makes the client panic: the names of the registered metrics are
  distinct, every call suits the kind of its metric (counter, gauge, histogram), has as many
  label values as the metric has labels and never adds a negative amount, provided a namespace's delta is not the least \<open>int64\<close>.
\<close>

lemma metric_calls_accepted:
  assumes "in_i64 d" "in_i64 m" "d \<noteq> - 9223372036854775808" "m \<noteq> - 9223372036854775808"
  shows "distinct (map metric_name all_metrics) \<and>
    list_all call_accepted
      (InitPolicyMetrics pol @ ObserveRun pol elapsed unix s @ IncAPICall pol call @ AddClamped pol res n @
       ObserveNamespace pol ns n d m @ AddDeltaTotals pol d m @ AddBounded pol res bound n @
       AddBoundedNamespace pol ns res bound n @ ObserveCapability pol state @
       IncCapabilityRuntimeProbeFailure pol ph)"
proof
  show "distinct (map metric_name all_metrics)"
    by (simp add: all_metrics_def)
  have "list_all call_accepted (ObserveNamespace pol ns n d m)"
    using accepted_namespace_totals [OF assms] by (simp add: ObserveNamespace_def Let_def)
  moreover have "list_all call_accepted (AddDeltaTotals pol d m)"
    using assms by (auto simp: AddDeltaTotals_def Let_def intro: i64_minus_nonneg)
  ultimately show "list_all call_accepted
      (InitPolicyMetrics pol @ ObserveRun pol elapsed unix s @ IncAPICall pol call @ AddClamped pol res n @
       ObserveNamespace pol ns n d m @ AddDeltaTotals pol d m @ AddBounded pol res bound n @
       AddBoundedNamespace pol ns res bound n @ ObserveCapability pol state @
       IncCapabilityRuntimeProbeFailure pol ph)"
    by (simp add: accepted_calls)
qed

lemma metric_calls_accepted_witness:
  "list_all call_accepted (AddDeltaTotals ''p'' (- 50) 0)"
  using metric_calls_accepted [where d = "- 50" and m = 0 and pol = "''p''"]
  by (simp add: in_i64_def)

end
