(* ===== verification/Budget.thy ===== *)
theory Budget
  imports Policy Interfaces
begin

text \<open>
  The two pools a run of \<open>Reconcile\<close>
  (\<open>internal/controller/inplacepodresize_controller.go\<close>) reserves from: the budget for the
  total increase of requests (\<open>budgetManager\<close>, its operations under its mutex) and the
  slots for pods (a buffered channel filled with \<open>maxPods\<close> tokens).
\<close>

section \<open>The budget manager\<close>

record budget =
  bm_committed :: delta
  bm_reserved :: delta
  bm_max_cpu :: int
  bm_max_mem :: int

definition zero_delta :: delta where
  "zero_delta = \<lparr>cpu_request_milli = 0, memory_request_byte = 0\<rparr>"

definition newBudgetManager :: "'q quantity_ops \<Rightarrow> 'q timing_spec \<Rightarrow> budget" where
  "newBudgetManager Q tm =
     \<lparr>bm_committed = zero_delta, bm_reserved = zero_delta,
      bm_max_cpu = (case max_total_cpu_increase tm of None \<Rightarrow> 0 | Some q \<Rightarrow> q_milli Q q),
      bm_max_mem = (case max_total_memory_increase tm of None \<Rightarrow> 0 | Some q \<Rightarrow> q_value Q q)\<rparr>"

definition delta_add :: "delta \<Rightarrow> delta \<Rightarrow> delta" where
  "delta_add d e =
     \<lparr>cpu_request_milli = i64 (cpu_request_milli d + cpu_request_milli e),
      memory_request_byte = i64 (memory_request_byte d + memory_request_byte e)\<rparr>"

definition delta_sub :: "delta \<Rightarrow> delta \<Rightarrow> delta" where
  "delta_sub d e =
     \<lparr>cpu_request_milli = i64 (cpu_request_milli d - cpu_request_milli e),
      memory_request_byte = i64 (memory_request_byte d - memory_request_byte e)\<rparr>"

text \<open>\<open>None\<close> is the result \<open>false\<close>, with the manager unchanged.\<close>

definition tryReserveBudget :: "delta \<Rightarrow> budget \<Rightarrow> budget option" where
  "tryReserveBudget add b =
     (let nextCPU = i64 (i64 (cpu_request_milli (bm_committed b) + cpu_request_milli (bm_reserved b))
            + cpu_request_milli add);
          nextMem = i64 (i64 (memory_request_byte (bm_committed b) + memory_request_byte (bm_reserved b))
            + memory_request_byte add)
      in if bm_max_cpu b > 0 \<and> nextCPU > bm_max_cpu b then None
         else if bm_max_mem b > 0 \<and> nextMem > bm_max_mem b then None
         else Some (b\<lparr>bm_reserved := delta_add (bm_reserved b) add\<rparr>))"

definition releaseBudget :: "delta \<Rightarrow> budget \<Rightarrow> budget" where
  "releaseBudget add b = b\<lparr>bm_reserved := delta_sub (bm_reserved b) add\<rparr>"

definition commitBudget :: "delta \<Rightarrow> budget \<Rightarrow> budget" where
  "commitBudget add b =
     b\<lparr>bm_reserved := delta_sub (bm_reserved b) add, bm_committed := delta_add (bm_committed b) add\<rparr>"

definition committedDelta :: "budget \<Rightarrow> delta" where
  "committedDelta b = bm_committed b"

section \<open>The slots\<close>

text \<open>The tokens in the channel; a receive that would block fails (\<open>select\<close> with \<open>default\<close>).\<close>

definition take_slot :: "unit \<Rightarrow> nat \<Rightarrow> nat option" where
  "take_slot u n = (case n of 0 \<Rightarrow> None | Suc m \<Rightarrow> Some m)"

definition put_slot :: "unit \<Rightarrow> nat \<Rightarrow> nat" where
  "put_slot u n = Suc n"

text \<open>The slot of a resized pod is not put back.\<close>

definition keep_slot :: "unit \<Rightarrow> nat \<Rightarrow> nat" where
  "keep_slot u n = n"

section \<open>Both are reservation pools\<close>

text \<open>
  The channel starts with \<open>m\<close> tokens and has room for \<open>m\<close>. A state is the number of tokens
  beside the capacity.
\<close>

interpretation slots: reservation_pool
  "\<lambda>u (m, n). map_option (Pair m) (take_slot u n)"
  "\<lambda>u (m, n). (m, put_slot u n)"
  "\<lambda>u (m, n). (m, keep_slot u n)"
  "\<lambda>u. 1" "\<lambda>(m, n). int n" "\<lambda>(m, n). int m" "\<lambda>u. True" "\<lambda>(m, n). n \<le> m"
  by unfold_locales (auto simp: take_slot_def put_slot_def keep_slot_def split: nat.splits)

text \<open>
  One resource of the budget, selected by the field accessors. The laws hold for increases
  and limits that do not wrap, below \<open>2\<^sup>62\<close>.
\<close>

definition budget_ok :: "(delta \<Rightarrow> int) \<Rightarrow> delta \<Rightarrow> bool" where
  "budget_ok amt d \<longleftrightarrow> 0 \<le> amt d \<and> amt d \<le> 4611686018427387903"

definition budget_outstanding :: "(delta \<Rightarrow> int) \<Rightarrow> budget \<Rightarrow> int" where
  "budget_outstanding amt b = i64 (amt (bm_committed b) + amt (bm_reserved b))"

definition budget_sound :: "(delta \<Rightarrow> int) \<Rightarrow> (budget \<Rightarrow> int) \<Rightarrow> budget \<Rightarrow> bool" where
  "budget_sound amt mx b \<longleftrightarrow>
     0 < mx b \<and> mx b \<le> 4611686018427387903 \<and>
     0 \<le> budget_outstanding amt b \<and> budget_outstanding amt b \<le> mx b"

lemma reserve_cpu:
  assumes "tryReserveBudget a b = Some b'" "0 < bm_max_cpu b"
  shows "i64 (budget_outstanding cpu_request_milli b + cpu_request_milli a) \<le> bm_max_cpu b"
    and "budget_outstanding cpu_request_milli b' =
      i64 (budget_outstanding cpu_request_milli b + cpu_request_milli a)"
    and "bm_max_cpu b' = bm_max_cpu b"
  using assms
  by (auto simp: tryReserveBudget_def budget_outstanding_def delta_add_def Let_def add.assoc split: if_splits)

lemma reserve_mem:
  assumes "tryReserveBudget a b = Some b'" "0 < bm_max_mem b"
  shows "i64 (budget_outstanding memory_request_byte b + memory_request_byte a) \<le> bm_max_mem b"
    and "budget_outstanding memory_request_byte b' =
      i64 (budget_outstanding memory_request_byte b + memory_request_byte a)"
    and "bm_max_mem b' = bm_max_mem b"
  using assms
  by (auto simp: tryReserveBudget_def budget_outstanding_def delta_add_def Let_def add.assoc split: if_splits)

lemma release_outstanding:
  "budget_outstanding cpu_request_milli (releaseBudget a b) =
    i64 (budget_outstanding cpu_request_milli b - cpu_request_milli a)"
  "budget_outstanding memory_request_byte (releaseBudget a b) =
    i64 (budget_outstanding memory_request_byte b - memory_request_byte a)"
  by (simp_all add: budget_outstanding_def releaseBudget_def delta_sub_def add_diff_eq)

lemma commit_outstanding:
  "budget_outstanding cpu_request_milli (commitBudget a b) = budget_outstanding cpu_request_milli b"
  "budget_outstanding memory_request_byte (commitBudget a b) = budget_outstanding memory_request_byte b"
  by (simp_all add: budget_outstanding_def commitBudget_def delta_sub_def delta_add_def)

lemma budget_max [simp]:
  "bm_max_cpu (releaseBudget a b) = bm_max_cpu b" "bm_max_mem (releaseBudget a b) = bm_max_mem b"
  "bm_max_cpu (commitBudget a b) = bm_max_cpu b" "bm_max_mem (commitBudget a b) = bm_max_mem b"
  by (simp_all add: releaseBudget_def commitBudget_def)

lemma i64_small: "0 \<le> x \<Longrightarrow> x \<le> 9223372036854775807 \<Longrightarrow> i64 x = x"
  by (rule i64_id) (simp add: in_i64_def)

interpretation cpu_budget: reservation_pool tryReserveBudget releaseBudget commitBudget
  cpu_request_milli "\<lambda>b. bm_max_cpu b - budget_outstanding cpu_request_milli b" bm_max_cpu
  "budget_ok cpu_request_milli" "budget_sound cpu_request_milli bm_max_cpu"
proof
  fix a :: delta and b b' :: budget
  assume *: "budget_sound cpu_request_milli bm_max_cpu b" "budget_ok cpu_request_milli a"
    "tryReserveBudget a b = Some b'"
  then have "i64 (budget_outstanding cpu_request_milli b + cpu_request_milli a) =
      budget_outstanding cpu_request_milli b + cpu_request_milli a"
    by (intro i64_small) (auto simp: budget_sound_def budget_ok_def)
  with * reserve_cpu [OF *(3)] show "budget_sound cpu_request_milli bm_max_cpu b' \<and>
      bm_max_cpu b' - budget_outstanding cpu_request_milli b' =
        bm_max_cpu b - budget_outstanding cpu_request_milli b - cpu_request_milli a \<and>
      bm_max_cpu b' = bm_max_cpu b"
    by (auto simp: budget_sound_def budget_ok_def)
next
  fix a :: delta and b :: budget
  assume *: "budget_sound cpu_request_milli bm_max_cpu b" "budget_ok cpu_request_milli a"
    "bm_max_cpu b - budget_outstanding cpu_request_milli b + cpu_request_milli a \<le> bm_max_cpu b"
  then have "i64 (budget_outstanding cpu_request_milli b - cpu_request_milli a) =
      budget_outstanding cpu_request_milli b - cpu_request_milli a"
    by (intro i64_small) (auto simp: budget_sound_def budget_ok_def)
  with * show "budget_sound cpu_request_milli bm_max_cpu (releaseBudget a b) \<and>
      bm_max_cpu (releaseBudget a b) - budget_outstanding cpu_request_milli (releaseBudget a b) =
        bm_max_cpu b - budget_outstanding cpu_request_milli b + cpu_request_milli a \<and>
      bm_max_cpu (releaseBudget a b) = bm_max_cpu b"
    by (auto simp: budget_sound_def budget_ok_def release_outstanding)
qed (auto simp: budget_sound_def budget_ok_def commit_outstanding)

interpretation memory_budget: reservation_pool tryReserveBudget releaseBudget commitBudget
  memory_request_byte "\<lambda>b. bm_max_mem b - budget_outstanding memory_request_byte b" bm_max_mem
  "budget_ok memory_request_byte" "budget_sound memory_request_byte bm_max_mem"
proof
  fix a :: delta and b b' :: budget
  assume *: "budget_sound memory_request_byte bm_max_mem b" "budget_ok memory_request_byte a"
    "tryReserveBudget a b = Some b'"
  then have "i64 (budget_outstanding memory_request_byte b + memory_request_byte a) =
      budget_outstanding memory_request_byte b + memory_request_byte a"
    by (intro i64_small) (auto simp: budget_sound_def budget_ok_def)
  with * reserve_mem [OF *(3)] show "budget_sound memory_request_byte bm_max_mem b' \<and>
      bm_max_mem b' - budget_outstanding memory_request_byte b' =
        bm_max_mem b - budget_outstanding memory_request_byte b - memory_request_byte a \<and>
      bm_max_mem b' = bm_max_mem b"
    by (auto simp: budget_sound_def budget_ok_def)
next
  fix a :: delta and b :: budget
  assume *: "budget_sound memory_request_byte bm_max_mem b" "budget_ok memory_request_byte a"
    "bm_max_mem b - budget_outstanding memory_request_byte b + memory_request_byte a \<le> bm_max_mem b"
  then have "i64 (budget_outstanding memory_request_byte b - memory_request_byte a) =
      budget_outstanding memory_request_byte b - memory_request_byte a"
    by (intro i64_small) (auto simp: budget_sound_def budget_ok_def)
  with * show "budget_sound memory_request_byte bm_max_mem (releaseBudget a b) \<and>
      bm_max_mem (releaseBudget a b) - budget_outstanding memory_request_byte (releaseBudget a b) =
        bm_max_mem b - budget_outstanding memory_request_byte b + memory_request_byte a \<and>
      bm_max_mem (releaseBudget a b) = bm_max_mem b"
    by (auto simp: budget_sound_def budget_ok_def release_outstanding)
qed (auto simp: budget_sound_def budget_ok_def commit_outstanding)

section \<open>Properties\<close>

lemma new_outstanding:
  "budget_outstanding cpu_request_milli (newBudgetManager Q tm) = 0"
  "budget_outstanding memory_request_byte (newBudgetManager Q tm) = 0"
  by (simp_all add: budget_outstanding_def newBudgetManager_def zero_delta_def i64_small)

text \<open>
  However the workers interleave, the pods that keep their slot, which are the resized
  ones, are never more than \<open>maxPods\<close>.
\<close>

lemma slots_bound_resized:
  assumes "pool_run (\<lambda>u. True) (\<lambda>u (m, n). map_option (Pair m) (take_slot u n))
      (\<lambda>u (m, n). (m, put_slot u n)) (\<lambda>u (m, n). (m, keep_slot u n))
      (maxPods, maxPods) live used s"
  shows "size used \<le> maxPods"
  using slots.never_overdrawn [OF assms] by simp

lemma slots_bound_resized_witness:
  "size {#()#} \<le> (1 :: nat)"
proof -
  let ?run = "pool_run (\<lambda>u. True) (\<lambda>u (m, n). map_option (Pair m) (take_slot u n))
      (\<lambda>u (m, n). (m, put_slot u n)) (\<lambda>u (m, n). (m, keep_slot u n)) (1, 1)"
  have "?run {#} {#} (1, 1)" by (rule pool_run.start)
  then have "?run {#()#} {#} (1, 0)"
    by (rule pool_run.reserve) (simp_all add: take_slot_def)
  then have "?run {#} {#()#} ((\<lambda>u (m, n). (m, keep_slot u n)) () (1, 0))"
    by (rule pool_run.use_up)
  then show ?thesis by (rule slots_bound_resized)
qed

text \<open>
  However reservations, releases and commits interleave, the increases that were
  committed add up to no more than the configured budget, for CPU and for memory, as long as
  no reservation is a decrease.
\<close>

lemma budget_bounds_increase:
  assumes "pool_run (\<lambda>d. budget_ok cpu_request_milli d \<and> budget_ok memory_request_byte d)
      tryReserveBudget releaseBudget commitBudget (newBudgetManager Q tm) live used b"
  shows "(0 < bm_max_cpu (newBudgetManager Q tm) \<and> bm_max_cpu (newBudgetManager Q tm) < 2 ^ 62 \<longrightarrow>
      (\<Sum>d \<in># used. cpu_request_milli d) \<le> bm_max_cpu (newBudgetManager Q tm)) \<and>
    (0 < bm_max_mem (newBudgetManager Q tm) \<and> bm_max_mem (newBudgetManager Q tm) < 2 ^ 62 \<longrightarrow>
      (\<Sum>d \<in># used. memory_request_byte d) \<le> bm_max_mem (newBudgetManager Q tm))"
proof -
  show ?thesis
    using cpu_budget.never_overdrawn [OF pool_run_weaken [OF assms]]
      memory_budget.never_overdrawn [OF pool_run_weaken [OF assms]]
    by (simp add: budget_sound_def new_outstanding)
qed

definition ex_budget_timing :: "int timing_spec" where
  "ex_budget_timing =
     \<lparr>interval = minute, cooldown = 0, stabilization_window = 0, max_pods_per_run = 20,
      max_concurrent_pods = 10, max_total_cpu_increase = Some (100 * 1000000),
      max_total_memory_increase = None, capability_check_interval = hour\<rparr>"

lemma budget_bounds_increase_witness:
  "(\<Sum>d \<in># {#\<lparr>cpu_request_milli = 50, memory_request_byte = 0\<rparr>#}. cpu_request_milli d) \<le> 100"
proof -
  let ?d = "\<lparr>cpu_request_milli = 50, memory_request_byte = 0\<rparr>"
  let ?b0 = "newBudgetManager nano_ops ex_budget_timing"
  let ?run = "pool_run (\<lambda>d. budget_ok cpu_request_milli d \<and> budget_ok memory_request_byte d)
      tryReserveBudget releaseBudget commitBudget ?b0"
  have b0: "bm_max_cpu ?b0 = 100" "bm_max_mem ?b0 = 0"
    by (simp_all add: newBudgetManager_def ex_budget_timing_def ceil_div_def i64_def)
  have "?run {#} {#} ?b0" by (rule pool_run.start)
  then have "?run {#?d#} {#} (?b0\<lparr>bm_reserved := ?d\<rparr>)"
    by (rule pool_run.reserve)
      (simp_all add: budget_ok_def tryReserveBudget_def b0 delta_add_def, simp_all add: newBudgetManager_def zero_delta_def i64_small)
  then have "?run {#} {#?d#} (commitBudget ?d (?b0\<lparr>bm_reserved := ?d\<rparr>))"
    by (rule pool_run.use_up)
  from budget_bounds_increase [OF this] show ?thesis
    by (simp add: b0)
qed

lemma sum_mset_i64:
  "i64 ((\<Sum>d \<in># ds. i64 (f d)) + x) = i64 ((\<Sum>d \<in># ds. f d) + x)" for f :: "'a \<Rightarrow> int"
proof (induction ds arbitrary: x)
  case (add d ds)
  have "i64 ((\<Sum>d \<in># add_mset d ds. i64 (f d)) + x) = i64 ((\<Sum>d \<in># ds. i64 (f d)) + (i64 (f d) + x))"
    by (simp add: algebra_simps)
  also have "\<dots> = i64 ((\<Sum>d \<in># ds. f d) + (f d + x))"
    unfolding add.IH by (metis i64_add_left i64_add_right)
  finally show ?case by (simp add: algebra_simps)
qed simp

lemma committed_reserved_sums:
  assumes "pool_run ok tryReserveBudget releaseBudget commitBudget (newBudgetManager Q tm) live used b"
  shows "cpu_request_milli (committedDelta b) = i64 (\<Sum>d \<in># used. cpu_request_milli d) \<and>
    memory_request_byte (committedDelta b) = i64 (\<Sum>d \<in># used. memory_request_byte d) \<and>
    cpu_request_milli (bm_reserved b) = i64 (\<Sum>d \<in># live. cpu_request_milli d) \<and>
    memory_request_byte (bm_reserved b) = i64 (\<Sum>d \<in># live. memory_request_byte d)"
  using assms
proof induction
  case start
  then show ?case by (simp add: committedDelta_def newBudgetManager_def zero_delta_def i64_small)
next
  case (reserve live used s a s')
  then show ?case
    by (auto simp: tryReserveBudget_def committedDelta_def delta_add_def Let_def add.commute split: if_splits)
next
  case (refuse live used s a)
  then show ?case by simp
next
  case (give_back a live used s)
  then show ?case
    by (auto simp: releaseBudget_def committedDelta_def delta_sub_def)
next
  case (use_up a live used s)
  then show ?case
    by (auto simp: commitBudget_def committedDelta_def delta_sub_def delta_add_def add.commute)
qed

text \<open>
  The committed delta, which the run reports, is the sum of the deltas of the resized
  pods, and what stays reserved is the sum over the pods in flight (in \<open>int64\<close>).
\<close>

lemma committed_is_sum:
  assumes "pool_run ok tryReserveBudget releaseBudget commitBudget (newBudgetManager Q tm) live used b"
  shows "cpu_request_milli (committedDelta b) = i64 (\<Sum>d \<in># used. cpu_request_milli d) \<and>
    memory_request_byte (committedDelta b) = i64 (\<Sum>d \<in># used. memory_request_byte d) \<and>
    cpu_request_milli (bm_reserved b) = i64 (\<Sum>d \<in># live. cpu_request_milli d) \<and>
    memory_request_byte (bm_reserved b) = i64 (\<Sum>d \<in># live. memory_request_byte d)"
  by (rule committed_reserved_sums [OF assms])

lemma committed_is_sum_witness:
  "cpu_request_milli (committedDelta (newBudgetManager nano_ops ex_budget_timing)) = 0"
  using committed_is_sum [OF pool_run.start, of nano_ops ex_budget_timing] by (simp add: i64_small)

text \<open>
  When downscales reserve too, the budget can be overshot: a decrease in flight makes
  room for an increase of twice the budget, and stays made when the decrease is not applied.
\<close>

lemma budget_overshot_by_decrease:
  assumes "0 < m" "m < 2 ^ 61" "b0 = \<lparr>bm_committed = zero_delta, bm_reserved = zero_delta, bm_max_cpu = m, bm_max_mem = 0\<rparr>"
  shows "\<exists>used b. pool_run (\<lambda>d. True) tryReserveBudget releaseBudget commitBudget b0 {#} used b \<and>
    cpu_request_milli (committedDelta b) = 2 * bm_max_cpu b"
proof -
  let ?run = "pool_run (\<lambda>d. True) tryReserveBudget releaseBudget commitBudget b0"
  let ?down = "\<lparr>cpu_request_milli = - m, memory_request_byte = 0\<rparr>"
  let ?up = "\<lparr>cpu_request_milli = 2 * m, memory_request_byte = 0\<rparr>"
  have i: "i64 (- m) = - m" "i64 m = m" "i64 (2 * m) = 2 * m" "i64 0 = 0"
    using assms(1,2) by (simp_all add: i64_id in_i64_def)
  have "?run {#} {#} b0" by (rule pool_run.start)
  then have "?run {#?down#} {#} (b0\<lparr>bm_reserved := ?down\<rparr>)"
    by (rule pool_run.reserve) (use assms i in \<open>simp_all add: tryReserveBudget_def zero_delta_def delta_add_def\<close>)
  then have "?run {#?up, ?down#} {#} (b0\<lparr>bm_reserved := \<lparr>cpu_request_milli = m, memory_request_byte = 0\<rparr>\<rparr>)"
    by (rule pool_run.reserve) (use assms i in \<open>simp_all add: tryReserveBudget_def zero_delta_def delta_add_def\<close>)
  then have "?run {#?up#} {#} (releaseBudget ?down (b0\<lparr>bm_reserved := \<lparr>cpu_request_milli = m, memory_request_byte = 0\<rparr>\<rparr>))"
    by (intro pool_run.give_back) (simp add: add_mset_commute)
  then have "?run {#} {#?up#} (commitBudget ?up
      (releaseBudget ?down (b0\<lparr>bm_reserved := \<lparr>cpu_request_milli = m, memory_request_byte = 0\<rparr>\<rparr>)))"
    by (rule pool_run.use_up)
  then show ?thesis
    by (intro exI conjI) (assumption, use assms i in
      \<open>simp add: committedDelta_def commitBudget_def releaseBudget_def delta_add_def delta_sub_def zero_delta_def\<close>)
qed

lemma budget_overshot_by_decrease_witness:
  "\<exists>used b. pool_run (\<lambda>d. True) tryReserveBudget releaseBudget commitBudget
      \<lparr>bm_committed = zero_delta, bm_reserved = zero_delta, bm_max_cpu = 100, bm_max_mem = 0\<rparr> {#} used b \<and>
    cpu_request_milli (committedDelta b) = 2 * bm_max_cpu b"
  by (rule budget_overshot_by_decrease [of 100]) simp_all

end
