(* ===== verification/Rfc3339.thy ===== *)
theory Rfc3339
  imports Prelude "HOL-Library.Monad_Syntax"
begin

text \<open>
  The parts of Go's \<open>time\<close> package that the operator uses on annotations:
  \<open>Time.Format(time.RFC3339Nano)\<close> in a location, and \<open>time.Parse(time.RFC3339Nano, _)\<close>, which
  is laxer than RFC 3339 (one digit for the hour, a comma before the fraction, offsets up to
  24:60). A location gives the offset from UTC in seconds at every Unix second; the data base
  of time zones it comes from is a parameter. What is written is read back as the same
  instant when the year has four digits and the offset has no seconds, which every time
  zone satisfies since 1972.
\<close>

section \<open>The calendar\<close>

definition isLeap :: "int \<Rightarrow> bool" where
  "isLeap y \<longleftrightarrow> y mod 4 = 0 \<and> (y mod 100 \<noteq> 0 \<or> y mod 400 = 0)"

text \<open>The days from January 1 of the year 1 to January 1 of the year \<open>y\<close>.\<close>

definition days_before_year :: "int \<Rightarrow> int" where
  "days_before_year y = 365 * (y - 1) + (y - 1) div 4 - (y - 1) div 100 + (y - 1) div 400"

definition month_lengths :: "bool \<Rightarrow> int list" where
  "month_lengths leap = [31, if leap then 29 else 28, 31, 30, 31, 30, 31, 31, 30, 31, 30, 31]"

text \<open>
  The year of a day and the number of the day in it, by cycles of 400, 100, 4 years and one:
  the last of four centuries and of four years is a day longer.
\<close>

definition year_of_day :: "int \<Rightarrow> int \<times> int" where
  "year_of_day d =
     (let d400 = d mod 146097;
          n100 = d400 div 36524 - d400 div 36524 div 4;
          d100 = d400 - 36524 * n100;
          n4 = d100 div 1461;
          d4 = d100 - 1461 * n4;
          n1 = d4 div 365 - d4 div 365 div 4
      in (400 * (d div 146097) + 100 * n100 + 4 * n4 + n1 + 1, d4 - 365 * n1))"

fun split_month :: "int list \<Rightarrow> int \<Rightarrow> nat \<times> int" where
  "split_month [] d = (1, d + 1)"
| "split_month (l # ls) d =
     (if d < l then (1, d + 1) else (case split_month ls (d - l) of (m, dd) \<Rightarrow> (Suc m, dd)))"

definition date_of_day :: "int \<Rightarrow> int \<times> nat \<times> int" where
  "date_of_day d =
     (case year_of_day d of (y, yday) \<Rightarrow> (y, split_month (month_lengths (isLeap y)) yday))"

definition day_of_date :: "int \<Rightarrow> nat \<Rightarrow> int \<Rightarrow> int" where
  "day_of_date y m dd =
     days_before_year y + sum_list (take (m - 1) (month_lengths (isLeap y))) + (dd - 1)"

lemma days_before_cycles:
  assumes "0 \<le> b" "b \<le> 3" "0 \<le> c" "c \<le> 24" "0 \<le> e" "e \<le> (3 :: int)"
  shows "days_before_year (400 * a + 100 * b + 4 * c + e + 1) = 146097 * a + 36524 * b + 1461 * c + 365 * e"
    and "isLeap (400 * a + 100 * b + 4 * c + e + 1) \<longleftrightarrow> e = 3 \<and> (c \<noteq> 24 \<or> b = 3)"
proof -
  have quot: "(k * q + x) div k = q" if "0 \<le> x" "x < k" for x k q :: int
    using that by (simp add: div_add1_eq)
  have div: "(400 * a + 100 * b + 4 * c + e) div 4 = 100 * a + 25 * b + c"
    "(400 * a + 100 * b + 4 * c + e) div 100 = 4 * a + b" "(400 * a + 100 * b + 4 * c + e) div 400 = a"
    using quot [of e 4 "100 * a + 25 * b + c"] quot [of "4 * c + e" 100 "4 * a + b"]
      quot [of "100 * b + 4 * c + e" 400 a] assms by (simp_all add: algebra_simps)
  then show "days_before_year (400 * a + 100 * b + 4 * c + e + 1) = 146097 * a + 36524 * b + 1461 * c + 365 * e"
    by (simp add: days_before_year_def)
  have last: "x mod n = 0 \<longleftrightarrow> x = n" if "0 < x" "x \<le> n" for x n :: int
    using that by (cases "x = n") simp_all
  have full: "4 * c + e + 1 = 100 \<longleftrightarrow> e = 3 \<and> c = 24"
    "100 * b + 4 * c + e + 1 = 400 \<longleftrightarrow> e = 3 \<and> c = 24 \<and> b = 3"
    using assms by (intro iffI conjI; linarith)+
  have "(400 * a + 100 * b + 4 * c + e + 1) mod 4 = (e + 1) mod 4"
    using mod_mult_self2 [of "e + 1" 4 "100 * a + 25 * b + c"] by (simp add: algebra_simps)
  then have "(400 * a + 100 * b + 4 * c + e + 1) mod 4 = 0 \<longleftrightarrow> e = 3"
    using last [of "e + 1" 4] assms by simp
  moreover have "(400 * a + 100 * b + 4 * c + e + 1) mod 100 = (4 * c + e + 1) mod 100"
    using mod_mult_self2 [of "4 * c + e + 1" 100 "4 * a + b"] by (simp add: algebra_simps)
  then have "(400 * a + 100 * b + 4 * c + e + 1) mod 100 = 0 \<longleftrightarrow> e = 3 \<and> c = 24"
    using last [of "4 * c + e + 1" 100] full(1) assms by simp
  moreover have "(400 * a + 100 * b + 4 * c + e + 1) mod 400 = (100 * b + 4 * c + e + 1) mod 400"
    using mod_mult_self2 [of "100 * b + 4 * c + e + 1" 400 "a"] by (simp add: algebra_simps)
  then have "(400 * a + 100 * b + 4 * c + e + 1) mod 400 = 0 \<longleftrightarrow> e = 3 \<and> c = 24 \<and> b = 3"
    using last [of "100 * b + 4 * c + e + 1" 400] full(2) assms by simp
  ultimately show "isLeap (400 * a + 100 * b + 4 * c + e + 1) \<longleftrightarrow> e = 3 \<and> (c \<noteq> 24 \<or> b = 3)"
    using assms by (auto simp: isLeap_def)
qed

text \<open>The quotient, but the last part of four is one longer.\<close>

lemma cycle_part:
  assumes "0 \<le> d" "d \<le> 4 * k" "0 < (k :: int)" "q = d div k - d div k div 4"
  shows "0 \<le> q" "q \<le> 3" "0 \<le> d - k * q" "d - k * q \<le> k" "d - k * q = k \<longrightarrow> q = 3 \<and> d = 4 * k"
proof -
  define x r where "x = d div k" and "r = d mod k"
  have d: "d = k * x + r" "0 \<le> r" "r < k"
    using assms(3) by (simp_all add: x_def r_def)
  have "0 \<le> x" "x \<le> 4"
    using assms(1-3) zdiv_mono1 [of d "4 * k" k] by (simp_all add: x_def pos_imp_zdiv_nonneg_iff)
  then consider "x = 0" | "x = 1" | "x = 2" | "x = 3" | "x = 4" by linarith
  then have "0 \<le> q \<and> q \<le> 3 \<and> 0 \<le> d - k * q \<and> d - k * q \<le> k \<and> (d - k * q = k \<longrightarrow> q = 3 \<and> d = 4 * k)"
    using assms(2,4) [folded x_def] d by cases auto
  then show "0 \<le> q" "q \<le> 3" "0 \<le> d - k * q" "d - k * q \<le> k" "d - k * q = k \<longrightarrow> q = 3 \<and> d = 4 * k"
    by simp_all
qed

lemma year_length: "sum_list (month_lengths leap) = (if leap then 366 else 365)"
  by (simp add: month_lengths_def)

lemma year_of_day_correct:
  assumes "year_of_day d = (y, r)"
  shows "days_before_year y + r = d" "0 \<le> r" "r < sum_list (month_lengths (isLeap y))"
proof -
  define d400 where "d400 = d mod 146097"
  define b where "b = d400 div 36524 - d400 div 36524 div 4"
  define d100 where "d100 = d400 - 36524 * b"
  define c where "c = d100 div 1461"
  define d4 where "d4 = d100 - 1461 * c"
  define e where "e = d4 div 365 - d4 div 365 div 4"
  have y: "y = 400 * (d div 146097) + 100 * b + 4 * c + e + 1" "r = d4 - 365 * e"
    using assms unfolding year_of_day_def Let_def e_def d4_def c_def d100_def b_def d400_def
    by (simp_all only: prod.inject)
  have d400: "0 \<le> d400" "d400 \<le> 4 * 36524" by (simp_all add: d400_def)
  note b = cycle_part [OF d400 _ b_def, simplified, folded d100_def]
  have "0 \<le> d100" using b(3) by (simp add: d100_def)
  then have c: "0 \<le> c" "c \<le> 24" "0 \<le> d4" "d4 \<le> 4 * 365" "d4 = 1460 \<longrightarrow> c \<noteq> 24 \<or> b = 3"
    using b by (auto simp: c_def d4_def pos_imp_zdiv_nonneg_iff)
  note e = cycle_part [OF c(3,4) _ e_def, simplified]
  note cyc = days_before_cycles [OF b(1,2) c(1,2) e(1,2), of "d div 146097", folded y(1)]
  have "146097 * (d div 146097) + d400 = d" by (simp add: d400_def)
  then show "days_before_year y + r = d"
    unfolding cyc y(2) d4_def d100_def by linarith
  show "0 \<le> r" using e y(2) by simp
  show "r < sum_list (month_lengths (isLeap y))"
  proof (cases "d4 - 365 * e = 365")
    case True
    with e(5) c(5) have "e = 3" "c \<noteq> 24 \<or> b = 3" by simp_all
    with cyc(2) True y(2) show ?thesis by (simp add: year_length)
  next
    case False
    with e(4) y(2) show ?thesis by (simp add: year_length)
  qed
qed

lemma div_pred:
  assumes "0 < (n :: int)"
  shows "y div n = (y - 1) div n + (if y mod n = 0 then 1 else 0)"
proof -
  have y: "y = n * (y div n) + y mod n" "0 \<le> y mod n" "y mod n < n"
    using assms by simp_all
  show ?thesis
  proof (cases "y mod n = 0")
    case True
    then have "y - 1 = (n - 1) + (y div n - 1) * n"
      using y(1) by (simp add: algebra_simps)
    then have "(y - 1) div n = (n - 1) div n + (y div n - 1)"
      using assms by (simp only: div_mult_self1 less_irrefl not_False_eq_True)
    with True assms show ?thesis by (simp add: div_pos_pos_trivial)
  next
    case False
    have "y - 1 = (y mod n - 1) + (y div n) * n"
      using y(1) by (simp add: algebra_simps)
    then have "(y - 1) div n = (y mod n - 1) div n + y div n"
      using assms by (simp only: div_mult_self1 less_irrefl not_False_eq_True)
    moreover have "(y mod n - 1) div n = 0"
      using False y(2,3) by (intro div_pos_pos_trivial) linarith+
    ultimately show ?thesis using False by simp
  qed
qed

lemma days_before_next: "days_before_year (y + 1) = days_before_year y + sum_list (month_lengths (isLeap y))"
proof -
  have "y mod 100 = 0 \<Longrightarrow> y mod 4 = 0" "y mod 400 = 0 \<Longrightarrow> y mod 100 = 0" by presburger+
  then consider "y mod 4 \<noteq> 0" "y mod 100 \<noteq> 0" "y mod 400 \<noteq> 0" | "y mod 4 = 0" "y mod 100 \<noteq> 0" "y mod 400 \<noteq> 0"
    | "y mod 4 = 0" "y mod 100 = 0" "y mod 400 \<noteq> 0" | "y mod 4 = 0" "y mod 100 = 0" "y mod 400 = 0"
    by metis
  note leap_cases = this
  define p q w where "p = (y - 1) div 4" and "q = (y - 1) div 100" and "w = (y - 1) div 400"
  have "days_before_year (y + 1) = 365 * y + y div 4 - y div 100 + y div 400"
    by (simp add: days_before_year_def)
  moreover have "days_before_year y = 365 * y - 365 + p - q + w"
    by (simp add: days_before_year_def p_def q_def w_def)
  ultimately show ?thesis
    using div_pred [of 4 y, folded p_def] div_pred [of 100 y, folded q_def] div_pred [of 400 y, folded w_def]
    by (cases rule: leap_cases) (simp_all add: isLeap_def year_length)
qed

lemma days_before_mono:
  assumes "x \<le> y"
  shows "days_before_year x \<le> days_before_year y"
proof -
  have "days_before_year x \<le> days_before_year (x + int n)" for n
  proof (induction n)
    case (Suc n)
    with days_before_next [of "x + int n"] show ?case
      by (simp add: year_length add.assoc add.commute [of 1] split: if_splits)
  qed simp
  from this [of "nat (y - x)"] assms show ?thesis by simp
qed

lemma year_of_day_range:
  assumes "year_of_day d = (y, r)"
  shows "0 \<le> y \<longleftrightarrow> - 366 \<le> d" "y \<le> 9999 \<longleftrightarrow> d < 3652059"
proof -
  note yd = year_of_day_correct [OF assms]
  have ends: "days_before_year 0 = - 366" "days_before_year 10000 = 3652059"
    by (simp_all add: days_before_year_def)
  have next_year: "d < days_before_year (y + 1)"
    using yd by (simp add: days_before_next)
  show "0 \<le> y \<longleftrightarrow> - 366 \<le> d"
    using yd(1,2) ends(1) next_year days_before_mono [of 0 y] days_before_mono [of "y + 1" 0] by (cases "0 \<le> y") auto
  show "y \<le> 9999 \<longleftrightarrow> d < 3652059"
    using yd(1,2) ends(2) next_year days_before_mono [of 10000 y] days_before_mono [of "y + 1" 10000]
    by (cases "y \<le> 9999") auto
qed

lemma split_month_correct:
  assumes "split_month ls d = (m, dd)" "0 \<le> d" "d < sum_list ls"
  shows "1 \<le> m" "m \<le> length ls" "1 \<le> dd" "dd \<le> ls ! (m - 1)" "sum_list (take (m - 1) ls) + (dd - 1) = d"
proof -
  have "1 \<le> m \<and> m \<le> length ls \<and> 1 \<le> dd \<and> dd \<le> ls ! (m - 1) \<and> sum_list (take (m - 1) ls) + (dd - 1) = d"
    using assms
  proof (induction ls d arbitrary: m dd rule: split_month.induct)
    case (2 l ls d)
    show ?case
    proof (cases "d < l")
      case False
      obtain m' where m: "split_month ls (d - l) = (m', dd)" "m = Suc m'"
        using 2(2) False by (auto split: prod.splits)
      with 2(1) [OF False m(1)] 2(3,4) False show ?thesis
        by (cases m') auto
    qed (use 2 in auto)
  qed simp
  then show "1 \<le> m" "m \<le> length ls" "1 \<le> dd" "dd \<le> ls ! (m - 1)" "sum_list (take (m - 1) ls) + (dd - 1) = d"
    by simp_all
qed

lemma date_of_day_correct:
  assumes "date_of_day d = (y, m, dd)"
  shows "day_of_date y m dd = d" "1 \<le> m" "m \<le> 12" "1 \<le> dd" "dd \<le> month_lengths (isLeap y) ! (m - 1)"
proof -
  obtain r where y: "year_of_day d = (y, r)" and m: "split_month (month_lengths (isLeap y)) r = (m, dd)"
    using assms by (auto simp: date_of_day_def split: prod.splits)
  note yd = year_of_day_correct [OF y]
  note md = split_month_correct [OF m yd(2,3)]
  show "1 \<le> m" "m \<le> 12" "1 \<le> dd" "dd \<le> month_lengths (isLeap y) ! (m - 1)"
    using md by (simp_all add: month_lengths_def)
  show "day_of_date y m dd = d"
    using md(5) yd(1) by (simp add: day_of_date_def)
qed

section \<open>Writing an instant\<close>

text \<open>A location: the offset from UTC, in seconds, at a Unix second. \<open>nil\<close> stands for UTC.\<close>

type_synonym zone = "int \<Rightarrow> int"

type_synonym location = "zone option"

definition digit :: "int \<Rightarrow> char" where
  "digit n = char_of (48 + n)"

text \<open>The last \<open>k\<close> decimal digits.\<close>

primrec digits :: "nat \<Rightarrow> int \<Rightarrow> string" where
  "digits 0 n = ''''"
| "digits (Suc k) n = digits k (n div 10) @ [digit (n mod 10)]"

fun digit_count :: "nat \<Rightarrow> nat" where
  "digit_count n = (if n < 10 then 1 else Suc (digit_count (n div 10)))"

declare digit_count.simps [simp del]

text \<open>\<open>appendInt\<close>: at least \<open>w\<close> digits, after a sign when negative.\<close>

definition appendInt :: "int \<Rightarrow> nat \<Rightarrow> string" where
  "appendInt n w = (if n < 0 then ''-'' else '''') @ digits (max w (digit_count (nat \<bar>n\<bar>))) \<bar>n\<bar>"

text \<open>The fraction of a second, without trailing zeros.\<close>

definition write_fraction :: "int \<Rightarrow> string" where
  "write_fraction ns =
     (let s = rev (dropWhile (\<lambda>c. c = CHR ''0'') (rev (digits 9 ns)))
      in if s = '''' then '''' else CHR ''.'' # s)"

definition write_offset :: "int \<Rightarrow> string" where
  "write_offset off =
     (if off = 0 then ''Z''
      else (let zn = go_quot off 60
            in (if zn < 0 then ''-'' else ''+'') @ digits 2 (\<bar>zn\<bar> div 60) @ '':'' @ digits 2 (\<bar>zn\<bar> mod 60)))"

definition format_in :: "zone \<Rightarrow> time \<Rightarrow> string" where
  "format_in z t =
     (let sec = t div second; off = z sec; sod = (sec + off) mod 86400;
          (y, m, d) = date_of_day ((sec + off) div 86400 + 719162)
      in appendInt y 4 @ ''-'' @ digits 2 (int m) @ ''-'' @ digits 2 d @ ''T'' @
         digits 2 (sod div 3600) @ '':'' @ digits 2 (sod div 60 mod 60) @ '':'' @ digits 2 (sod mod 60) @
         write_fraction (t mod second) @ write_offset off)"

text \<open>\<open>formatTime\<close> of the reconciler.\<close>

definition formatTime :: "location \<Rightarrow> time \<Rightarrow> string" where
  "formatTime loc t = (case loc of Some z \<Rightarrow> format_in z t | None \<Rightarrow> format_in (\<lambda>s. 0) t)"

section \<open>Reading an instant\<close>

definition is_digit :: "char \<Rightarrow> bool" where
  "is_digit c \<longleftrightarrow> 48 \<le> (of_char c :: int) \<and> (of_char c :: int) \<le> 57"

definition digit_val :: "char \<Rightarrow> int" where
  "digit_val c = of_char c - 48"

primrec digits_val :: "int \<Rightarrow> string \<Rightarrow> int" where
  "digits_val n [] = n"
| "digits_val n (c # cs) = digits_val (10 * n + digit_val c) cs"

text \<open>A parser returns the value and the rest.\<close>

fun getnum :: "bool \<Rightarrow> string \<Rightarrow> (int \<times> string) option" where
  "getnum fixed (c # d # s) =
     (if \<not> is_digit c then None
      else if is_digit d then Some (10 * digit_val c + digit_val d, s)
      else if fixed then None else Some (digit_val c, d # s))"
| "getnum fixed [c] = (if is_digit c \<and> \<not> fixed then Some (digit_val c, []) else None)"
| "getnum fixed [] = None"

definition getyear :: "string \<Rightarrow> (int \<times> string) option" where
  "getyear s =
     (if 4 \<le> length s \<and> list_all is_digit (take 4 s) then Some (digits_val 0 (take 4 s), drop 4 s) else None)"

definition getnum_upto :: "bool \<Rightarrow> int \<Rightarrow> int \<Rightarrow> string \<Rightarrow> (int \<times> string) option" where
  "getnum_upto fixed lo hi s =
     (case getnum fixed s of Some (n, r) \<Rightarrow> if lo \<le> n \<and> n \<le> hi then Some (n, r) else None | None \<Rightarrow> None)"

definition skip_char :: "char \<Rightarrow> string \<Rightarrow> string option" where
  "skip_char c s = (case s of [] \<Rightarrow> None | d # r \<Rightarrow> if d = c then Some r else None)"

definition read_fraction :: "string \<Rightarrow> int \<times> string" where
  "read_fraction s =
     (case s of
        c # d # r \<Rightarrow>
          if (c = CHR ''.'' \<or> c = CHR '','') \<and> is_digit d
          then (let ds = takeWhile is_digit (d # r); ns = take 9 ds
                in (digits_val 0 ns * 10 ^ (9 - length ns), dropWhile is_digit (d # r)))
          else (0, s)
      | _ \<Rightarrow> (0, s))"

definition read_offset :: "string \<Rightarrow> (int \<times> string) option" where
  "read_offset s =
     (case s of
        c # r \<Rightarrow>
          if c = CHR ''Z'' then Some (0, r)
          else
            (case getnum_upto True 0 24 r of
               None \<Rightarrow> None
             | Some (hr, r1) \<Rightarrow>
                 (case skip_char CHR '':'' r1 of
                    None \<Rightarrow> None
                  | Some r2 \<Rightarrow>
                      (case getnum_upto True 0 60 r2 of
                         None \<Rightarrow> None
                       | Some (mm, r3) \<Rightarrow>
                           if c = CHR ''+'' then Some ((hr * 60 + mm) * 60, r3)
                           else if c = CHR ''-'' then Some (- ((hr * 60 + mm) * 60), r3)
                           else None)))
      | [] \<Rightarrow> None)"

definition parseTime :: "string \<Rightarrow> time option" where
  "parseTime s = do {
     (y, s) \<leftarrow> getyear s; s \<leftarrow> skip_char CHR ''-'' s;
     (m, s) \<leftarrow> getnum_upto True 1 12 s; s \<leftarrow> skip_char CHR ''-'' s;
     (d, s) \<leftarrow> getnum True s; s \<leftarrow> skip_char CHR ''T'' s;
     (hh, s) \<leftarrow> getnum_upto False 0 23 s; s \<leftarrow> skip_char CHR '':'' s;
     (mm, s) \<leftarrow> getnum_upto True 0 59 s; s \<leftarrow> skip_char CHR '':'' s;
     (ss, s) \<leftarrow> getnum_upto True 0 59 s;
     let (ns, s) = read_fraction s;
     (off, s) \<leftarrow> read_offset s;
     if s = '''' \<and> 1 \<le> d \<and> d \<le> month_lengths (isLeap y) ! (nat m - 1)
     then Some ((((day_of_date y (nat m) d - 719162) * 86400 + hh * 3600 + mm * 60 + ss) - off) * second + ns)
     else None
   }"

section \<open>Reading what was written\<close>

lemma digit_chars:
  assumes "0 \<le> n" "n < 10"
  shows "is_digit (digit n)" "digit_val (digit n) = n" "digit n = CHR ''0'' \<longleftrightarrow> n = 0"
proof -
  from assms have "n \<in> {0, 1, 2, 3, 4, 5, 6, 7, 8, 9}" by (simp, presburger)
  then have c: "of_char (digit n) = 48 + n" by (auto simp: digit_def)
  then show "is_digit (digit n)" "digit_val (digit n) = n"
    using assms by (simp_all add: is_digit_def digit_val_def)
  have "of_char CHR ''0'' = (48 :: int)" by simp
  with c show "digit n = CHR ''0'' \<longleftrightarrow> n = 0"
    by (metis add_cancel_right_right of_char_eq_iff)
qed

lemma length_digits [simp]: "length (digits k n) = k"
  by (induction k arbitrary: n) simp_all

lemma digits_digits: "list_all is_digit (digits k n)"
  by (induction k arbitrary: n) (simp_all add: digit_chars)

lemma digits_val_append: "digits_val n (xs @ ys) = digits_val (digits_val n xs) ys"
  by (induction xs arbitrary: n) simp_all

lemma digits_val_digits: "digits_val 0 (digits k n) = n mod 10 ^ k"
proof (induction k arbitrary: n)
  case (Suc k)
  have "n mod 10 ^ Suc k = 10 * (n div 10 mod 10 ^ k) + n mod 10"
    by (simp add: zmod_zmult2_eq)
  with Suc show ?case by (simp add: digits_val_append digit_chars)
qed simp

lemma getnum_digits:
  assumes "0 \<le> n" "n < 100"
  shows "getnum fixed (digits 2 n @ s) = Some (n, s)"
  using assms by (simp add: numeral_2_eq_2 digit_chars mod_pos_pos_trivial)

lemma getnum_upto_digits: "0 \<le> n \<Longrightarrow> n < 100 \<Longrightarrow> lo \<le> n \<Longrightarrow> n \<le> hi \<Longrightarrow> getnum_upto fixed lo hi (digits 2 n @ s) = Some (n, s)"
  by (simp add: getnum_upto_def getnum_digits)

lemma getyear_written:
  assumes "0 \<le> y" "y \<le> 9999"
  shows "getyear (appendInt y 4 @ s) = Some (y, s)"
proof -
  have "digit_count n \<le> k" if "n < 10 ^ k" "0 < k" for n k
    using that
  proof (induction k arbitrary: n)
    case (Suc k)
    then show ?case
      using Suc.IH [of "n div 10"] by (cases "n < 10"; cases k) (auto simp: digit_count.simps [of n] less_mult_imp_div_less)
  qed simp
  from this [of "nat y" 4] assms have "appendInt y 4 = digits 4 y"
    by (simp add: appendInt_def max_absorb1)
  with assms show ?thesis
    by (simp add: getyear_def digits_digits digits_val_digits)
qed

lemma digits_val_zeros: "digits_val n (replicate k CHR ''0'') = n * 10 ^ k"
  by (induction k arbitrary: n) (simp_all add: digit_val_def)

lemma trailing_zeros:
  obtains k where "s = rev (dropWhile (\<lambda>c. c = x) (rev s)) @ replicate k x"
proof -
  have "takeWhile (\<lambda>c. c = x) (rev s) = replicate (length (takeWhile (\<lambda>c. c = x) (rev s))) x"
    by (induction s rule: rev_induct) auto
  then have "rev s = replicate (length (takeWhile (\<lambda>c. c = x) (rev s))) x @ dropWhile (\<lambda>c. c = x) (rev s)"
    by (metis takeWhile_dropWhile_id)
  then have "s = rev (dropWhile (\<lambda>c. c = x) (rev s)) @ replicate (length (takeWhile (\<lambda>c. c = x) (rev s))) x"
    by (metis rev_append rev_replicate rev_rev_ident)
  then show thesis by (rule that)
qed

lemma read_written_fraction:
  assumes "0 \<le> ns" "ns < second" "c \<notin> {CHR ''.'', CHR '',''}" "\<not> is_digit c"
  shows "read_fraction (write_fraction ns @ c # s) = (ns, c # s)"
proof -
  obtain k where k: "digits 9 ns = rev (dropWhile (\<lambda>c. c = CHR ''0'') (rev (digits 9 ns))) @ replicate k CHR ''0''"
    by (rule trailing_zeros)
  define ds where "ds = rev (dropWhile (\<lambda>c. c = CHR ''0'') (rev (digits 9 ns)))"
  note k = k [folded ds_def]
  have "length ds + k = 9" using arg_cong [OF k, of length] by simp
  moreover have "digits_val 0 ds * 10 ^ k = ns"
    using arg_cong [OF k, of "digits_val 0"] assms(1,2) by (simp add: digits_val_append digits_val_zeros digits_val_digits)
  ultimately have val: "digits_val 0 ds * 10 ^ (9 - length ds) = ns" "length ds \<le> 9" by auto
  have all: "list_all is_digit ds"
    using digits_digits [of 9 ns] by (subst (asm) k) simp
  show ?thesis
  proof (cases ds)
    case Nil
    with val(1) have "ns = 0" by simp
    with Nil assms(3) show ?thesis
      by (simp add: write_fraction_def read_fraction_def ds_def split: list.split)
  next
    case (Cons d r)
    have w: "write_fraction ns = CHR ''.'' # d # r" using Cons by (simp add: write_fraction_def ds_def)
    have "takeWhile is_digit (ds @ c # s) = ds" "dropWhile is_digit (ds @ c # s) = c # s"
      using all assms(4) by (simp_all add: takeWhile_append dropWhile_append list_all_iff)
    with w val Cons all show ?thesis
      by (simp add: read_fraction_def Let_def)
  qed
qed

lemma read_written_offset:
  assumes "off mod 60 = 0" "\<bar>off\<bar> < 86400"
  shows "read_offset (write_offset off) = Some (off, '''')"
proof (cases "off = 0")
  case True
  then show ?thesis by (simp add: write_offset_def read_offset_def)
next
  case False
  define m where "m = \<bar>off\<bar> div 60"
  have "\<bar>off\<bar> mod 60 = 0" using assms(1) by (simp add: abs_if zmod_zminus1_eq_if)
  then have m: "\<bar>off\<bar> = m * 60" "0 < m" "m < 1440"
    using False assms(2) by (auto simp: m_def pos_imp_zdiv_pos_iff)
  then have zn: "go_quot off 60 = sgn off * m" "\<bar>go_quot off 60\<bar> = m"
    using False by (simp_all add: go_quot_def m_def abs_mult)
  have b: "0 \<le> m div 60" "m div 60 < 24" "0 \<le> m mod 60" "m mod 60 < 60"
    using m by (simp_all add: pos_imp_zdiv_nonneg_iff)
  have "3600 * (m div 60) + m mod 60 * 60 = m * 60"
    using div_mult_mod_eq [of m 60] by linarith
  with b m zn(1) False show ?thesis
    unfolding write_offset_def zn(2)
    by (cases "0 < off") (auto simp: read_offset_def getnum_upto_digits getnum_upto_digits [where s = "''''", simplified]
        skip_char_def zero_less_mult_iff mult_less_0_iff)
qed

lemma offset_start:
  obtains c s where "write_offset off = c # s" "c \<notin> {CHR ''.'', CHR '',''}" "\<not> is_digit c"
  by (cases "off = 0"; cases "go_quot off 60 < 0") (auto simp: write_offset_def is_digit_def Let_def)

text \<open>The instants that can be written: a year of four digits and an offset without seconds.\<close>

definition offset_at :: "location \<Rightarrow> time \<Rightarrow> int" where
  "offset_at loc t = (case loc of None \<Rightarrow> 0 | Some z \<Rightarrow> z (t div second))"

definition writable :: "location \<Rightarrow> time \<Rightarrow> bool" where
  "writable loc t \<longleftrightarrow>
     offset_at loc t mod 60 = 0 \<and> \<bar>offset_at loc t\<bar> < 86400 \<and>
     - 62167219200 \<le> t div second + offset_at loc t \<and> t div second + offset_at loc t < 253402300800"

lemma formatTime_offset: "formatTime loc t = format_in (\<lambda>s. offset_at loc t) t"
  by (simp add: formatTime_def offset_at_def format_in_def Let_def split: option.split)

lemma parse_fields:
  assumes "0 \<le> y" "y \<le> 9999" "1 \<le> m" "m \<le> 12" "1 \<le> d" "d \<le> month_lengths (isLeap y) ! (m - 1)" "d < 100"
    and "0 \<le> hh" "hh \<le> 23" "0 \<le> mm" "mm \<le> 59" "0 \<le> ss" "ss \<le> 59" "0 \<le> ns" "ns < second"
    and "c \<notin> {CHR ''.'', CHR '',''}" "\<not> is_digit c" "read_offset (c # s) = Some (off, '''')"
  shows "parseTime (appendInt y 4 @ ''-'' @ digits 2 (int m) @ ''-'' @ digits 2 d @ ''T'' @
      digits 2 hh @ '':'' @ digits 2 mm @ '':'' @ digits 2 ss @ write_fraction ns @ c # s) =
    Some ((((day_of_date y m d - 719162) * 86400 + hh * 3600 + mm * 60 + ss) - off) * second + ns)"
proof -
  note reads = getyear_written [OF assms(1,2)] getnum_digits [of d True] read_written_fraction [OF assms(14-17)]
    getnum_upto_digits [of "int m" 1 12 True] getnum_upto_digits [of hh 0 23 False]
    getnum_upto_digits [of mm 0 59 True] getnum_upto_digits [of ss 0 59 True]
  show ?thesis
    using assms by (simp add: parseTime_def reads skip_char_def)
qed

lemma parse_written:
  assumes "writable loc t"
  shows "parseTime (formatTime loc t) = Some t"
proof -
  define off sec where "off = offset_at loc t" and "sec = t div second + off"
  define sod where "sod = sec mod 86400"
  obtain y m d where date: "date_of_day (sec div 86400 + 719162) = (y, m, d)" using prod_cases3 by blast
  obtain c s where z: "write_offset off = c # s" "c \<notin> {CHR ''.'', CHR '',''}" "\<not> is_digit c"
    by (rule offset_start)
  have off: "off mod 60 = 0" "\<bar>off\<bar> < 86400" "- 62167219200 \<le> sec" "sec < 253402300800"
    using assms by (simp_all add: writable_def off_def sec_def)
  have "- 719528 \<le> sec div 86400" "sec div 86400 < 2932897"
    using off(3,4) by linarith+
  then have y: "0 \<le> y" "y \<le> 9999"
    using year_of_day_range [of "sec div 86400 + 719162" y] date
    by (auto simp: date_of_day_def split: prod.splits)
  note md = date_of_day_correct [OF date]
  have "month_lengths (isLeap y) ! (m - 1) \<le> 31"
  proof -
    have "list_all (\<lambda>n. n \<le> 31) (month_lengths (isLeap y))" by (simp add: month_lengths_def)
    then show ?thesis using md(2,3) by (simp add: list_all_length month_lengths_def)
  qed
  with md have d: "0 \<le> d" "d < 100" by linarith+
  have sod: "0 \<le> sod div 3600" "sod div 3600 \<le> 23" "0 \<le> sod div 60 mod 60" "sod div 60 mod 60 \<le> 59"
    "0 \<le> sod mod 60" "sod mod 60 \<le> 59"
    by (simp_all add: sod_def pos_imp_zdiv_nonneg_iff)
  have "sod div 3600 = sod div 60 div 60" using zdiv_zmult2_eq [of 60 sod 60] by simp
  then have clock: "sod div 3600 * 3600 + sod div 60 mod 60 * 60 + sod mod 60 = sod"
    using div_mult_mod_eq [of "sod div 60" 60] div_mult_mod_eq [of sod 60] by linarith
  have ns: "0 \<le> t mod second" "t mod second < second" by simp_all
  have "formatTime loc t = appendInt y 4 @ ''-'' @ digits 2 (int m) @ ''-'' @ digits 2 d @ ''T'' @
      digits 2 (sod div 3600) @ '':'' @ digits 2 (sod div 60 mod 60) @ '':'' @ digits 2 (sod mod 60) @
      write_fraction (t mod second) @ c # s"
    by (simp add: formatTime_offset format_in_def Let_def date z flip: off_def sec_def sod_def)
  moreover have "((day_of_date y m d - 719162) * 86400 + sod - off) * second + t mod second = t"
  proof -
    have "sec div 86400 * 86400 + sod = sec" by (simp add: sod_def)
    then have "(day_of_date y m d - 719162) * 86400 + sod - off = t div second"
      using md(1) by (simp add: sec_def)
    then show ?thesis by simp
  qed
  moreover have "read_offset (c # s) = Some (off, '''')"
    using read_written_offset [OF off(1,2)] z(1) by simp
  note parse_fields [OF y md(2-5) d(2) sod ns z(2,3) this]
  moreover have "(day_of_date y m d - 719162) * 86400 + sod div 3600 * 3600 + sod div 60 mod 60 * 60 + sod mod 60 =
      (day_of_date y m d - 719162) * 86400 + sod"
    using clock by simp
  ultimately show ?thesis by simp
qed

text \<open>In particular it is never the empty text.\<close>

lemma formatTime_nonempty: "writable loc t \<Longrightarrow> formatTime loc t \<noteq> ''''"
proof
  assume "writable loc t" "formatTime loc t = ''''"
  with parse_written [of loc t] show False by (simp add: parseTime_def getyear_def)
qed

text \<open>An offset with seconds is written without them, so that another instant is read back.\<close>

lemma offset_seconds_lost: "parseTime (formatTime (Some (\<lambda>s. 30)) 0) = Some (30 * second)"
  by code_simp

lemma written_epoch:
  "formatTime None 0 = ''1970-01-01T00:00:00Z''"
  "formatTime (Some (\<lambda>s. 18000)) 1500000000 = ''1970-01-01T05:00:01.5+05:00''"
  by code_simp+

text \<open>Texts that are no instants, and the ones that are read beyond RFC 3339.\<close>

lemma parseTime_examples:
  "parseTime ''2024-02-29T00:00:00Z'' \<noteq> None" "parseTime ''2023-02-29T00:00:00Z'' = None"
  "parseTime ''1970-01-01T5:00:00,25+01:60'' = parseTime ''1970-01-01T05:00:00.25+02:00''"
  "parseTime ''1970-01-01 00:00:00Z'' = None"
  by code_simp+

end
