(* ===== verification/PodState.thy ===== *)
theory PodState
  imports ApiTypes Interfaces Rfc3339
begin

text \<open>
  The decisions \<open>internal/controller/inplacepodresize_controller.go\<close> takes from the state of
  a pod and its annotations (\<open>isEligiblePod\<close>, \<open>shouldSkipByCooldown\<close>,
  \<open>stabilizationAllows\<close>) and the patches it makes of them (\<open>patchPodAnnotations\<close>,
  \<open>ensurePending\<close>). Instants are written in the location of the reconciler and read with
  \<open>parseTime\<close>.
\<close>

abbreviation annotationLastResizeTime :: string where
  "annotationLastResizeTime \<equiv> ''resize.halje.ru/last-resize-time''"

abbreviation annotationLastAppliedHash :: string where
  "annotationLastAppliedHash \<equiv> ''resize.halje.ru/last-applied-hash''"

abbreviation annotationPendingHash :: string where
  "annotationPendingHash \<equiv> ''resize.halje.ru/pending-hash''"

abbreviation annotationPendingSince :: string where
  "annotationPendingSince \<equiv> ''resize.halje.ru/pending-since''"

section \<open>Decisions\<close>

definition isEligiblePod :: "'q pod option \<Rightarrow> bool" where
  "isEligiblePod p =
     (case p of
        None \<Rightarrow> False
      | Some pod \<Rightarrow>
          if deletion_timestamp pod \<noteq> None then False
          else if phase pod \<noteq> ''Running'' then False
          else if node_name pod = '''' then False
          else True)"

text \<open>Reading an annotation: the empty text when it is absent.\<close>

definition ann_get :: "string smap \<Rightarrow> string \<Rightarrow> string" where
  "ann_get m k = (case map_of m k of None \<Rightarrow> '''' | Some v \<Rightarrow> v)"

definition shouldSkipByCooldown :: "'q pod option \<Rightarrow> duration \<Rightarrow> time \<Rightarrow> bool" where
  "shouldSkipByCooldown p cd now =
     (if cd \<le> 0 then False
      else case p of
          None \<Rightarrow> False
        | Some pod \<Rightarrow>
            (case annotations pod of
               None \<Rightarrow> False
             | Some m \<Rightarrow>
                 (case map_of m annotationLastResizeTime of
                    None \<Rightarrow> False
                  | Some t \<Rightarrow>
                      if t = '''' then False
                      else case parseTime t of
                          None \<Rightarrow> False
                        | Some parsed \<Rightarrow> time_sub now parsed < cd)))"

definition stabilizationAllows ::
  "'q pod option \<Rightarrow> string \<Rightarrow> duration \<Rightarrow> time \<Rightarrow> bool" where
  "stabilizationAllows p desiredHash window now =
     (if window \<le> 0 then True
      else case p of
          None \<Rightarrow> False
        | Some pod \<Rightarrow>
            (case annotations pod of
               None \<Rightarrow> False
             | Some m \<Rightarrow>
                 if ann_get m annotationLastAppliedHash = desiredHash then False
                 else if ann_get m annotationPendingHash \<noteq> desiredHash then False
                 else
                   (let since = ann_get m annotationPendingSince
                    in if since = '''' then False
                       else case parseTime since of
                           None \<Rightarrow> False
                         | Some ts \<Rightarrow> time_sub now ts \<ge> window)))"

section \<open>Patches\<close>

text \<open>
  The annotations of a merge patch: \<open>None\<close> is \<open>null\<close>. An empty text asks for removal.
\<close>

type_synonym ann_patch = "(string \<times> string option) list"

definition patch_of :: "string smap \<Rightarrow> ann_patch" where
  "patch_of m = map (\<lambda>(k, v). (k, if v = '''' then None else Some v)) m"

text \<open>
  The patch call is an argument, a function of the state of the cluster; a nil pod is not
  patched. \<open>None\<close> is the nil error.
\<close>

definition patchPodAnnotations ::
  "(string \<Rightarrow> string \<Rightarrow> ann_patch \<Rightarrow> 'e \<Rightarrow> string option \<times> 'e) \<Rightarrow> 'q pod option \<Rightarrow> string smap \<Rightarrow> 'e
    \<Rightarrow> string option \<times> 'e" where
  "patchPodAnnotations patch p m e =
     (case p of
        None \<Rightarrow> (None, e)
      | Some pod \<Rightarrow> patch (pod_namespace pod) (pod_name pod) (patch_of m) e)"

text \<open>What \<open>ensurePending\<close> writes.\<close>

definition pending_patch :: "location \<Rightarrow> string smap option \<Rightarrow> string \<Rightarrow> time \<Rightarrow> string smap" where
  "pending_patch loc anns desiredHash now =
     (let pending = (case anns of None \<Rightarrow> '''' | Some m \<Rightarrow> ann_get m annotationPendingHash);
          since = (case anns of None \<Rightarrow> '''' | Some m \<Rightarrow> ann_get m annotationPendingSince)
      in if pending \<noteq> desiredHash
         then [(annotationPendingHash, desiredHash), (annotationPendingSince, formatTime loc now)]
         else if since = '''' then [(annotationPendingSince, formatTime loc now)]
         else [])"

definition ensurePending ::
  "(string \<Rightarrow> string \<Rightarrow> ann_patch \<Rightarrow> 'e \<Rightarrow> string option \<times> 'e) \<Rightarrow> location \<Rightarrow> 'q pod option
    \<Rightarrow> string \<Rightarrow> time \<Rightarrow> 'e \<Rightarrow> string option \<times> 'e" where
  "ensurePending patch loc p desiredHash now e =
     (case p of
        None \<Rightarrow> (None, e)
      | Some pod \<Rightarrow>
          (let m = pending_patch loc (annotations pod) desiredHash now
           in if m = [] then (None, e) else patchPodAnnotations patch p m e))"

text \<open>What is written after a resize at \<open>t\<close>.\<close>

definition applied_patch :: "location \<Rightarrow> string \<Rightarrow> time \<Rightarrow> string smap" where
  "applied_patch loc desiredHash t =
     [(annotationLastResizeTime, formatTime loc t), (annotationLastAppliedHash, desiredHash),
      (annotationPendingHash, ''''), (annotationPendingSince, '''')]"

text \<open>The effect of a merge patch on the annotations (RFC 7386): \<open>null\<close> removes a key.\<close>

definition merge_patch :: "ann_patch \<Rightarrow> string smap option \<Rightarrow> string smap option" where
  "merge_patch ps anns =
     Some (foldl (\<lambda>m (k, v). case v of None \<Rightarrow> AList.delete k m | Some x \<Rightarrow> AList.update k x m)
       (case anns of None \<Rightarrow> [] | Some m \<Rightarrow> m) ps)"

definition anns_get :: "string smap option \<Rightarrow> string \<Rightarrow> string" where
  "anns_get anns k = (case anns of None \<Rightarrow> '''' | Some m \<Rightarrow> ann_get m k)"

lemma ann_get_update [simp]:
  "ann_get (AList.update k v m) k' = (if k = k' then v else ann_get m k')"
  by (simp add: ann_get_def update_conv')

lemma ann_get_delete [simp]:
  "ann_get (AList.delete k m) k' = (if k = k' then '''' else ann_get m k')"
  by (simp add: ann_get_def delete_conv')

lemma merge_patch_Nil [simp]: "anns_get (merge_patch [] anns) k = anns_get anns k"
  by (cases anns) (simp_all add: merge_patch_def anns_get_def ann_get_def)

lemma anns_get_merge:
  "anns_get (merge_patch (patch_of m) anns) k =
    (case map_of (rev m) k of None \<Rightarrow> anns_get anns k | Some v \<Rightarrow> v)"
proof (induction m arbitrary: anns rule: rev_induct)
  case Nil
  then show ?case by (simp add: patch_of_def)
next
  case (snoc kv m)
  obtain k' v where kv: "kv = (k', v)" by force
  have "merge_patch (patch_of (m @ [kv])) anns =
      map_option (if v = '''' then AList.delete k' else AList.update k' v) (merge_patch (patch_of m) anns)"
    by (simp add: merge_patch_def patch_of_def kv)
  then show ?case
    using snoc.IH [of anns] by (auto simp: kv merge_patch_def anns_get_def)
qed

end
