(* ===== verification/Worker.thy ===== *)
theory Worker
  imports Budget PodState Observability
begin

text \<open>
  \<open>processOne\<close> of \<open>internal/controller/inplacepodresize_controller.go\<close>: what one worker does
  with one candidate pod. The code runs on several workers at once and shares its state
  (counters under a mutex, the budget under its own, a channel of slots, a cancellable
  context). The model cuts it into segments: a \<open>phase\<close> is what the worker holds between two
  segments, and \<open>advance\<close> runs the next one. A segment takes or returns at most one thing that
  is shared (a slot, a part of the budget) and makes at most one call of the cluster or the
  clock, but for the two readings of the clock of a fatal error; beside that it only adds to
  counters, which commutes, and reads what does not change during a run.

  The cluster and the clock are the parameter \<open>world\<close>, functions of a state \<open>'e\<close> that is
  threaded through. Contexts with time-outs show only in the errors the calls return.
\<close>

section \<open>The world and the context of a run\<close>

record ('q, 'e) world =
  w_now :: "'e \<Rightarrow> time \<times> 'e"
  w_update_resize :: "string \<Rightarrow> string \<Rightarrow> 'q pod \<Rightarrow> 'e \<Rightarrow> (api_error + 'q pod) \<times> 'e"
  w_get_fresh :: "string \<Rightarrow> string \<Rightarrow> 'e \<Rightarrow> (api_error + 'q pod) \<times> 'e"
  w_patch_pod :: "string \<Rightarrow> string \<Rightarrow> ann_patch \<Rightarrow> 'e \<Rightarrow> string option \<times> 'e"

datatype condition_status = ConditionTrue | ConditionFalse | ConditionUnknown

record condition =
  cond_type :: string
  cond_status :: condition_status
  cond_reason :: string
  cond_message :: string
  cond_generation :: int
  cond_transition :: time

abbreviation conditionActive :: string where
  "conditionActive \<equiv> ''Active''"

abbreviation conditionMetricsAvailable :: string where
  "conditionMetricsAvailable \<equiv> ''MetricsAvailable''"

abbreviation conditionInPlaceResizeSupport :: string where
  "conditionInPlaceResizeSupport \<equiv> ''InPlaceResizeSupported''"

text \<open>The pod metrics of the run: the error of the list call, none listed, or the map.\<close>

datatype 'q metrics_answer =
    MetricsFailed string
  | MetricsNotListed
  | MetricsListed "string \<times> string \<Rightarrow> 'q pod_metrics option"

text \<open>
  What does not change while the workers run. \<open>rc_set_condition\<close> is
  \<open>meta.SetStatusCondition\<close>.
\<close>

record ('q, 'l, 'e) run_ctx =
  rc_q :: "'q quantity_ops"
  rc_world :: "('q, 'e) world"
  rc_location :: location
  rc_policy :: string
  rc_generation :: int
  rc_spec :: "('q, 'l) policy_spec"
  rc_cap :: capability
  rc_metrics :: "'q metrics_answer"
  rc_recorder :: bool
  rc_set_condition :: "condition \<Rightarrow> condition list \<Rightarrow> condition list"

record ns_agg =
  agg_resized :: nat
  agg_cpu :: int
  agg_mem :: int

record event =
  ev_object :: "string \<times> string"
  ev_type :: string
  ev_reason :: string
  ev_message :: string

text \<open>What the workers share. \<open>rs_prober\<close> is \<open>None\<close> when no resizer is configured.\<close>

record 'e run_state =
  rs_slots :: nat
  rs_budget :: budget
  rs_maxpods_skipped :: nat
  rs_metrics_errors :: nat
  rs_metrics_not_found :: nat
  rs_qos_skipped :: nat
  rs_conflict_skipped :: nat
  rs_no_change :: nat
  rs_pending :: nat
  rs_budget_skipped :: nat
  rs_apply_failed :: nat
  rs_resized :: nat
  rs_total_resized :: nat
  rs_bounded :: "nat \<times> nat \<times> nat \<times> nat"
  rs_metrics_ok :: bool
  rs_metrics_err :: string
  rs_aggs :: "ns_agg smap"
  rs_cancelled :: bool
  rs_fatal :: bool
  rs_stop_all :: bool
  rs_prober :: "prober option"
  rs_conditions :: "condition list"
  rs_last_cap_check :: "time option"
  rs_calls :: "metric_call list"
  rs_events :: "event list"
  rs_env :: 'e

text \<open>
  Between the segments: \<open>Waiting\<close> has a target that is not stable yet, \<open>Decided\<close> one that may
  be applied, \<open>Reserved\<close> its part of the budget. A conflict leads through \<open>Conflicted\<close> and
  \<open>Retrying\<close>, any other error through \<open>Refused\<close>; an applied resize through \<open>Applied\<close> and
  \<open>Committed\<close>. \<open>Releasing\<close> and \<open>Leaving\<close> are the deferred returns of the budget and the slot.
\<close>

datatype 'q phase =
    Fresh
  | Slotted
  | Computed "'q result"
  | Waiting "'q result" time
  | Decided "'q result" time
  | Reserved "'q result" time
  | Conflicted "'q result" time
  | Retrying "'q result" time "'q pod"
  | Refused "'q result" resize_error
  | Applied "'q result" time
  | Committed "'q result" time
  | Releasing "'q result"
  | Leaving
  | Finished

section \<open>The segments\<close>

text \<open>The deferred return of the slot.\<close>

definition give_slot :: "'e run_state \<Rightarrow> 'e run_state" where
  "give_slot st = st\<lparr>rs_slots := put_slot () (rs_slots st)\<rparr>"

text \<open>The deferred return of the budget.\<close>

definition give_budget :: "'q result \<Rightarrow> 'e run_state \<Rightarrow> 'e run_state" where
  "give_budget res st = st\<lparr>rs_budget := releaseBudget (res_delta res) (rs_budget st)\<rparr>"

definition begin_pod :: "'e run_state \<Rightarrow> 'q phase \<times> 'e run_state" where
  "begin_pod st =
     (if rs_cancelled st then (Finished, st)
      else case take_slot () (rs_slots st) of
          None \<Rightarrow> (Finished, st\<lparr>rs_maxpods_skipped := Suc (rs_maxpods_skipped st)\<rparr>)
        | Some n \<Rightarrow> (Slotted, st\<lparr>rs_slots := n\<rparr>))"

definition getPodMetrics ::
  "'q metrics_answer \<Rightarrow> string \<Rightarrow> string \<Rightarrow> string + 'q pod_metrics option" where
  "getPodMetrics ans ns name =
     (case ans of
        MetricsFailed e \<Rightarrow> Inl e
      | MetricsNotListed \<Rightarrow> Inr None
      | MetricsListed m \<Rightarrow> Inr (m (ns, name)))"

text \<open>What is counted of every successful computation.\<close>

definition note_result :: "('q, 'l, 'e) run_ctx \<Rightarrow> 'q pod \<Rightarrow> 'q result \<Rightarrow> 'e run_state \<Rightarrow> 'e run_state" where
  "note_result ctx pod res st =
     (let pol = rc_policy ctx; ns = pod_namespace pod;
          (cmin, cmax, mmin, mmax) = rs_bounded st
      in st\<lparr>rs_calls := rs_calls st @
             AddClamped pol ''cpu'' (clamped_cpu res) @
             AddClamped pol ''memory'' (clamped_mem res) @
             AddBounded pol ''cpu'' ''min'' (bounded_cpu_min res) @
             AddBounded pol ''cpu'' ''max'' (bounded_cpu_max res) @
             AddBounded pol ''memory'' ''min'' (bounded_mem_min res) @
             AddBounded pol ''memory'' ''max'' (bounded_mem_max res) @
             AddBoundedNamespace pol ns ''cpu'' ''min'' (bounded_cpu_min res) @
             AddBoundedNamespace pol ns ''cpu'' ''max'' (bounded_cpu_max res) @
             AddBoundedNamespace pol ns ''memory'' ''min'' (bounded_mem_min res) @
             AddBoundedNamespace pol ns ''memory'' ''max'' (bounded_mem_max res),
           rs_bounded := (cmin + bounded_cpu_min res, cmax + bounded_cpu_max res,
             mmin + bounded_mem_min res, mmax + bounded_mem_max res)\<rparr>)"

text \<open>What follows a successful computation: nothing to change, or a target.\<close>

definition act_on_result :: "'q result \<Rightarrow> 'e run_state \<Rightarrow> 'q phase \<times> 'e run_state" where
  "act_on_result res st =
     (if \<not> changed res then (Leaving, st\<lparr>rs_no_change := Suc (rs_no_change st)\<rparr>)
      else if cpu_request_milli (res_delta res) = 0 \<and> memory_request_byte (res_delta res) = 0 then
        (Leaving, st\<lparr>rs_no_change := Suc (rs_no_change st)\<rparr>)
      else (Computed res, st))"

definition evaluate_pod ::
  "('q, 'l, 'e) run_ctx \<Rightarrow> 'q pod \<Rightarrow> 'e run_state \<Rightarrow> 'q phase \<times> 'e run_state" where
  "evaluate_pod ctx pod st =
     (case getPodMetrics (rc_metrics ctx) (pod_namespace pod) (pod_name pod) of
        Inl err \<Rightarrow>
          (Leaving, st\<lparr>rs_metrics_errors := Suc (rs_metrics_errors st),
             rs_metrics_err := (if rs_metrics_err st = '''' then err else rs_metrics_err st),
             rs_cancelled := True\<rparr>)
      | Inr None \<Rightarrow> (Leaving, st\<lparr>rs_metrics_not_found := Suc (rs_metrics_not_found st)\<rparr>)
      | Inr (Some pm) \<Rightarrow>
          (let st1 = st\<lparr>rs_metrics_ok := True\<rparr>
           in case ComputeDesired (rc_q ctx) (Some pod) (Some pm) (rc_spec ctx) of
                (res, Some (QoSChange from to)) \<Rightarrow> (Leaving, st1\<lparr>rs_qos_skipped := Suc (rs_qos_skipped st1)\<rparr>)
              | (res, Some err) \<Rightarrow> (Leaving, st1)
              | (res, None) \<Rightarrow> act_on_result res (note_result ctx pod res st1)))"

text \<open>The clock is read; a target must have been stable for the window.\<close>

definition check_stable ::
  "('q, 'l, 'e) run_ctx \<Rightarrow> 'q pod \<Rightarrow> 'q result \<Rightarrow> 'e run_state \<Rightarrow> 'q phase \<times> 'e run_state" where
  "check_stable ctx pod res st =
     (let (t, e) = w_now (rc_world ctx) (rs_env st)
      in (if stabilizationAllows (Some pod) (hash res)
            (stabilization_window (timing (rc_spec ctx))) t
          then Decided res t else Waiting res t, st\<lparr>rs_env := e\<rparr>))"

definition note_pending ::
  "('q, 'l, 'e) run_ctx \<Rightarrow> 'q pod \<Rightarrow> 'q result \<Rightarrow> time \<Rightarrow> 'e run_state \<Rightarrow> 'q phase \<times> 'e run_state" where
  "note_pending ctx pod res t st =
     (let (err, e) =
        ensurePending (w_patch_pod (rc_world ctx)) (rc_location ctx) (Some pod) (hash res) t (rs_env st)
      in (Leaving, st\<lparr>rs_env := e, rs_pending := Suc (rs_pending st)\<rparr>))"

definition reserve_budget :: "'q result \<Rightarrow> time \<Rightarrow> 'e run_state \<Rightarrow> 'q phase \<times> 'e run_state" where
  "reserve_budget res t st =
     (case tryReserveBudget (res_delta res) (rs_budget st) of
        None \<Rightarrow> (Leaving, st\<lparr>rs_budget_skipped := Suc (rs_budget_skipped st)\<rparr>)
      | Some b \<Rightarrow> (Reserved res t, st\<lparr>rs_budget := b\<rparr>))"

text \<open>\<open>apierrors.IsConflict\<close> on an error of the resizer looks at the error it wraps.\<close>

definition resize_conflict :: "resize_error \<Rightarrow> bool" where
  "resize_conflict x = (case unwrap x of None \<Rightarrow> False | Some e \<Rightarrow> err_conflict e)"

definition count_api_call :: "('q, 'l, 'e) run_ctx \<Rightarrow> string \<Rightarrow> 'e run_state \<Rightarrow> 'e run_state" where
  "count_api_call ctx call st = st\<lparr>rs_calls := rs_calls st @ IncAPICall (rc_policy ctx) call\<rparr>"

text \<open>
  The handling of a fatal error, once per run: the capability is marked unsupported and the
  run is cancelled.
\<close>

definition mark_fatal :: "('q, 'l, 'e) run_ctx \<Rightarrow> resize_error \<Rightarrow> 'e run_state \<Rightarrow> 'e run_state" where
  "mark_fatal ctx err st =
     (if rs_fatal st then st
      else
        (let (checked, e1) = w_now (rc_world ctx) (rs_env st);
             c = \<lparr>cap_state = SupportUnsupported, cap_reason = ''ApplyFailed'',
                  cap_message = resize_error_text err, cap_checked = checked\<rparr>;
             (now, e2) = w_now (rc_world ctx) e1
         in st\<lparr>rs_fatal := True,
               rs_env := e2,
               rs_prober := map_option (Mark c) (rs_prober st),
               rs_calls := rs_calls st @ ObserveCapability (rc_policy ctx) ''Unsupported'' @
                 IncCapabilityRuntimeProbeFailure (rc_policy ctx) ''apply'',
               rs_last_cap_check := Some checked,
               rs_conditions := rc_set_condition ctx
                 \<lparr>cond_type = conditionInPlaceResizeSupport, cond_status = ConditionFalse,
                  cond_reason = cap_reason c, cond_message = cap_message c,
                  cond_generation = rc_generation ctx, cond_transition = now\<rparr> (rs_conditions st),
               rs_stop_all := True,
               rs_cancelled := True\<rparr>))"

text \<open>Any other error of the call is counted; the two fatal kinds are marked.\<close>

definition fail_resize :: "('q, 'l, 'e) run_ctx \<Rightarrow> resize_error \<Rightarrow> 'e run_state \<Rightarrow> 'e run_state" where
  "fail_resize ctx err st =
     (let st1 = st\<lparr>rs_apply_failed := Suc (rs_apply_failed st)\<rparr>
      in case err of
           UnsupportedError e \<Rightarrow> mark_fatal ctx err st1
         | ForbiddenError e \<Rightarrow> mark_fatal ctx err st1
         | _ \<Rightarrow> st1)"

text \<open>After a conflict: the pod is read again, and its version and identity are used for one more attempt.\<close>

definition skip_conflict :: "'q result \<Rightarrow> 'e run_state \<Rightarrow> 'q phase \<times> 'e run_state" where
  "skip_conflict res st = (Releasing res, st\<lparr>rs_conflict_skipped := Suc (rs_conflict_skipped st)\<rparr>)"

definition fetch_fresh ::
  "('q, 'l, 'e) run_ctx \<Rightarrow> 'q pod \<Rightarrow> 'q result \<Rightarrow> time \<Rightarrow> 'e run_state \<Rightarrow> 'q phase \<times> 'e run_state" where
  "fetch_fresh ctx pod res t st =
     (case w_get_fresh (rc_world ctx) (pod_namespace pod) (pod_name pod) (rs_env st) of
        (Inl err, e) \<Rightarrow> skip_conflict res (st\<lparr>rs_env := e\<rparr>)
      | (Inr fresh, e) \<Rightarrow> (Retrying res t fresh, st\<lparr>rs_env := e\<rparr>))"

definition retry_conflict ::
  "('q, 'l, 'e) run_ctx \<Rightarrow> 'q result \<Rightarrow> time \<Rightarrow> 'q pod \<Rightarrow> 'e run_state \<Rightarrow> 'q phase \<times> 'e run_state" where
  "retry_conflict ctx res t fresh st =
     (let desired2 = map_option (\<lambda>d. d\<lparr>resource_version := resource_version fresh, pod_uid := pod_uid fresh\<rparr>)
            (desired res)
      in case UpdateResize (w_update_resize (rc_world ctx)) (rs_prober st) (Some fresh) desired2 (rs_env st) of
           (Inl err, e) \<Rightarrow> skip_conflict res (st\<lparr>rs_env := e\<rparr>)
         | (Inr out, e) \<Rightarrow> (Applied (res\<lparr>desired := desired2\<rparr>) t, st\<lparr>rs_env := e\<rparr>))"

definition apply_resize ::
  "('q, 'l, 'e) run_ctx \<Rightarrow> 'q pod \<Rightarrow> 'q result \<Rightarrow> time \<Rightarrow> 'e run_state \<Rightarrow> 'q phase \<times> 'e run_state" where
  "apply_resize ctx pod res t st =
     (if rs_prober st = None \<or> cap_state (rc_cap ctx) \<noteq> SupportSupported then
        (Releasing res, st\<lparr>rs_apply_failed := Suc (rs_apply_failed st)\<rparr>)
      else
        (let st1 = count_api_call ctx ''update_resize_apply'' st
         in case UpdateResize (w_update_resize (rc_world ctx)) (rs_prober st1) (Some pod) (desired res) (rs_env st1) of
              (Inr out, e) \<Rightarrow> (Applied res t, st1\<lparr>rs_env := e\<rparr>)
            | (Inl err, e) \<Rightarrow>
                (if resize_conflict err then Conflicted res t else Refused res err, st1\<lparr>rs_env := e\<rparr>)))"

definition agg_get :: "ns_agg smap \<Rightarrow> string \<Rightarrow> ns_agg" where
  "agg_get m ns = (case map_of m ns of
     None \<Rightarrow> \<lparr>agg_resized = 0, agg_cpu = 0, agg_mem = 0\<rparr> | Some a \<Rightarrow> a)"

definition add_agg :: "string \<Rightarrow> delta \<Rightarrow> ns_agg smap \<Rightarrow> ns_agg smap" where
  "add_agg ns d m =
     (let a = agg_get m ns
      in AList.update ns
        \<lparr>agg_resized = Suc (agg_resized a),
         agg_cpu = i64 (agg_cpu a + cpu_request_milli d),
         agg_mem = i64 (agg_mem a + memory_request_byte d)\<rparr> m)"

definition resized_event :: "'q quantity_ops \<Rightarrow> 'q pod \<Rightarrow> delta \<Rightarrow> event" where
  "resized_event Q pod d =
     \<lparr>ev_object = (pod_namespace pod, pod_name pod), ev_type = ''Normal'', ev_reason = ''Resized'',
      ev_message = ''In-place resize applied: deltaCPU='' @ q_string Q (q_new_milli Q (cpu_request_milli d)) @
        '' deltaMem='' @ q_string Q (q_new_bytes Q (memory_request_byte d))\<rparr>"

text \<open>An applied resize is committed and counted; then the pod is annotated and the event recorded.\<close>

definition commit_resize ::
  "('q, 'l, 'e) run_ctx \<Rightarrow> 'q pod \<Rightarrow> 'q result \<Rightarrow> time \<Rightarrow> 'e run_state \<Rightarrow> 'q phase \<times> 'e run_state" where
  "commit_resize ctx pod res t st =
     (Committed res t, st\<lparr>rs_budget := commitBudget (res_delta res) (rs_budget st),
        rs_slots := keep_slot () (rs_slots st),
        rs_resized := Suc (rs_resized st),
        rs_total_resized := Suc (rs_total_resized st),
        rs_aggs := add_agg (pod_namespace pod) (res_delta res) (rs_aggs st)\<rparr>)"

definition annotate_pod ::
  "('q, 'l, 'e) run_ctx \<Rightarrow> 'q pod \<Rightarrow> 'q result \<Rightarrow> time \<Rightarrow> 'e run_state \<Rightarrow> 'q phase \<times> 'e run_state" where
  "annotate_pod ctx pod res t st =
     (let st1 = count_api_call ctx ''patch_pod_annotations'' st;
          (err, e) = patchPodAnnotations (w_patch_pod (rc_world ctx)) (Some pod)
            (applied_patch (rc_location ctx) (hash res) t) (rs_env st1)
      in (Finished, st1\<lparr>rs_env := e,
            rs_events := rs_events st1 @
              (if rc_recorder ctx then [resized_event (rc_q ctx) pod (res_delta res)] else [])\<rparr>))"

section \<open>The whole of it\<close>

fun advance ::
  "('q, 'l, 'e) run_ctx \<Rightarrow> 'q pod \<Rightarrow> 'q phase \<times> 'e run_state \<Rightarrow> 'q phase \<times> 'e run_state" where
  "advance ctx pod (Fresh, st) = begin_pod st"
| "advance ctx pod (Slotted, st) = evaluate_pod ctx pod st"
| "advance ctx pod (Computed res, st) = check_stable ctx pod res st"
| "advance ctx pod (Waiting res t, st) = note_pending ctx pod res t st"
| "advance ctx pod (Decided res t, st) = reserve_budget res t st"
| "advance ctx pod (Reserved res t, st) = apply_resize ctx pod res t st"
| "advance ctx pod (Conflicted res t, st) = fetch_fresh ctx pod res t st"
| "advance ctx pod (Retrying res t fresh, st) = retry_conflict ctx res t fresh st"
| "advance ctx pod (Refused res err, st) = (Releasing res, fail_resize ctx err st)"
| "advance ctx pod (Applied res t, st) = commit_resize ctx pod res t st"
| "advance ctx pod (Committed res t, st) = annotate_pod ctx pod res t st"
| "advance ctx pod (Releasing res, st) = (Leaving, give_budget res st)"
| "advance ctx pod (Leaving, st) = (Finished, give_slot st)"
| "advance ctx pod (Finished, st) = (Finished, st)"

text \<open>A worker that is not interrupted: nine segments at most.\<close>

definition processOne :: "('q, 'l, 'e) run_ctx \<Rightarrow> 'q pod \<Rightarrow> 'e run_state \<Rightarrow> 'e run_state" where
  "processOne ctx pod st = snd ((advance ctx pod ^^ 9) (Fresh, st))"

end
