(* ===== verification/WorkerLemmas.thy ===== *)
theory WorkerLemmas
  imports Worker
begin

text \<open>
  What one segment of a worker does to the pools and the counters. A phase holds a slot or
  not, and a part of the budget or none; \<open>counted\<close> adds up the counters a pod can end in.
  \<open>advance_moves\<close> is the balance of every segment.
\<close>

section \<open>What a phase holds\<close>

primrec holds_slot :: "'q phase \<Rightarrow> nat" where
  "holds_slot Fresh = 0"
| "holds_slot Slotted = 1"
| "holds_slot (Computed res) = 1"
| "holds_slot (Waiting res t) = 1"
| "holds_slot (Decided res t) = 1"
| "holds_slot (Reserved res t) = 1"
| "holds_slot (Conflicted res t) = 1"
| "holds_slot (Retrying res t fresh) = 1"
| "holds_slot (Refused res err) = 1"
| "holds_slot (Applied res t) = 1"
| "holds_slot (Committed res t) = 0"
| "holds_slot (Releasing res) = 1"
| "holds_slot Leaving = 1"
| "holds_slot Finished = 0"

primrec live_delta :: "'q phase \<Rightarrow> delta multiset" where
  "live_delta Fresh = {#}"
| "live_delta Slotted = {#}"
| "live_delta (Computed res) = {#}"
| "live_delta (Waiting res t) = {#}"
| "live_delta (Decided res t) = {#}"
| "live_delta (Reserved res t) = {#res_delta res#}"
| "live_delta (Conflicted res t) = {#res_delta res#}"
| "live_delta (Retrying res t fresh) = {#res_delta res#}"
| "live_delta (Refused res err) = {#res_delta res#}"
| "live_delta (Applied res t) = {#res_delta res#}"
| "live_delta (Committed res t) = {#}"
| "live_delta (Releasing res) = {#res_delta res#}"
| "live_delta Leaving = {#}"
| "live_delta Finished = {#}"

text \<open>Whether the pod is still to be counted, and how many segments are left at most.\<close>

primrec active :: "'q phase \<Rightarrow> nat" where
  "active Fresh = 1"
| "active Slotted = 1"
| "active (Computed res) = 1"
| "active (Waiting res t) = 1"
| "active (Decided res t) = 1"
| "active (Reserved res t) = 1"
| "active (Conflicted res t) = 1"
| "active (Retrying res t fresh) = 1"
| "active (Refused res err) = 1"
| "active (Applied res t) = 1"
| "active (Committed res t) = 0"
| "active (Releasing res) = 0"
| "active Leaving = 0"
| "active Finished = 0"

primrec rank :: "'q phase \<Rightarrow> nat" where
  "rank Fresh = 10"
| "rank Slotted = 9"
| "rank (Computed res) = 8"
| "rank (Decided res t) = 7"
| "rank (Reserved res t) = 6"
| "rank (Conflicted res t) = 5"
| "rank (Retrying res t fresh) = 4"
| "rank (Refused res err) = 4"
| "rank (Waiting res t) = 3"
| "rank (Applied res t) = 3"
| "rank (Committed res t) = 2"
| "rank (Releasing res) = 3"
| "rank Leaving = 2"
| "rank Finished = 1"

text \<open>Phases are ordered by how much of the work is done.\<close>

instantiation phase :: (type) preorder
begin

definition less_eq_phase :: "'a phase \<Rightarrow> 'a phase \<Rightarrow> bool" where
  "less_eq_phase p q \<longleftrightarrow> rank q \<le> rank p"

definition less_phase :: "'a phase \<Rightarrow> 'a phase \<Rightarrow> bool" where
  "less_phase p q \<longleftrightarrow> rank q < rank p"

instance
  by standard (auto simp: less_eq_phase_def less_phase_def)

end

definition counted :: "'e run_state \<Rightarrow> nat" where
  "counted st = rs_maxpods_skipped st + rs_metrics_errors st + rs_metrics_not_found st + rs_qos_skipped st +
     rs_conflict_skipped st + rs_no_change st + rs_pending st + rs_budget_skipped st + rs_apply_failed st +
     rs_resized st"

text \<open>The segments that change the pools, and all of them.\<close>

lemmas pool_segments =
  begin_pod_def reserve_budget_def commit_resize_def give_budget_def give_slot_def

lemmas call_segments =
  check_stable_def note_pending_def apply_resize_def fetch_fresh_def retry_conflict_def skip_conflict_def
  annotate_pod_def count_api_call_def

lemmas segment_splits =
  if_splits option.splits sum.splits prod.splits nat.splits

section \<open>Targets\<close>

text \<open>When the evaluation of a pod goes on, there is a target to change it to.\<close>

definition wanted :: "('q, 'l, 'e) run_ctx \<Rightarrow> 'q pod \<Rightarrow> 'q result \<Rightarrow> bool" where
  "wanted ctx pod res \<longleftrightarrow>
     (\<exists>pm. getPodMetrics (rc_metrics ctx) (pod_namespace pod) (pod_name pod) = Inr (Some pm) \<and>
        ComputeDesired (rc_q ctx) (Some pod) (Some pm) (rc_spec ctx) = (res, None)) \<and>
     changed res \<and> res_delta res \<noteq> zero_delta"

text \<open>A target that may be applied has been stable for the window at the instant it was decided.\<close>

definition stable :: "('q, 'l, 'e) run_ctx \<Rightarrow> 'q pod \<Rightarrow> 'q result \<Rightarrow> time \<Rightarrow> bool" where
  "stable ctx pod res t \<longleftrightarrow>
     stabilizationAllows (Some pod) (hash res) (stabilization_window (timing (rc_spec ctx))) t"

lemma nonzero_delta: "d \<noteq> zero_delta \<longleftrightarrow> \<not> (cpu_request_milli d = 0 \<and> memory_request_byte d = 0)"
  by (cases d) (simp add: zero_delta_def)

section \<open>Effects\<close>

lemma note_result_fields [simp]:
  "rs_budget (note_result ctx pod res st) = rs_budget st"
  "rs_slots (note_result ctx pod res st) = rs_slots st"
  "rs_resized (note_result ctx pod res st) = rs_resized st"
  "rs_aggs (note_result ctx pod res st) = rs_aggs st"
  "counted (note_result ctx pod res st) = counted st"
  "rs_env (note_result ctx pod res st) = rs_env st"
  "rs_no_change (note_result ctx pod res st) = rs_no_change st"
  "rs_prober (note_result ctx pod res st) = rs_prober st"
  "rs_conditions (note_result ctx pod res st) = rs_conditions st"
  "rs_fatal (note_result ctx pod res st) = rs_fatal st"
  "rs_stop_all (note_result ctx pod res st) = rs_stop_all st"
  "rs_cancelled (note_result ctx pod res st) = rs_cancelled st"
  "rs_events (note_result ctx pod res st) = rs_events st"
  by (simp_all add: note_result_def counted_def Let_def split: prod.splits)

lemma mark_fatal_fields [simp]:
  "rs_budget (mark_fatal ctx err st) = rs_budget st"
  "rs_slots (mark_fatal ctx err st) = rs_slots st"
  "rs_resized (mark_fatal ctx err st) = rs_resized st"
  "rs_aggs (mark_fatal ctx err st) = rs_aggs st"
  "rs_events (mark_fatal ctx err st) = rs_events st"
  "counted (mark_fatal ctx err st) = counted st"
  by (simp_all add: mark_fatal_def counted_def Let_def split: prod.splits)

lemma fail_resize_fields [simp]:
  "rs_budget (fail_resize ctx err st) = rs_budget st"
  "rs_slots (fail_resize ctx err st) = rs_slots st"
  "rs_resized (fail_resize ctx err st) = rs_resized st"
  "rs_aggs (fail_resize ctx err st) = rs_aggs st"
  "rs_events (fail_resize ctx err st) = rs_events st"
  "counted (fail_resize ctx err st) = Suc (counted st)"
proof -
  have "counted (st\<lparr>rs_apply_failed := Suc (rs_apply_failed st)\<rparr>) = Suc (counted st)"
    by (simp add: counted_def)
  then show "rs_budget (fail_resize ctx err st) = rs_budget st"
    "rs_slots (fail_resize ctx err st) = rs_slots st"
    "rs_resized (fail_resize ctx err st) = rs_resized st"
    "rs_aggs (fail_resize ctx err st) = rs_aggs st"
    "rs_events (fail_resize ctx err st) = rs_events st"
    "counted (fail_resize ctx err st) = Suc (counted st)"
    by (simp_all add: fail_resize_def Let_def split: resize_error.splits)
qed

text \<open>How the evaluation of a pod can end.\<close>

lemma evaluate_pod_cases:
  assumes "evaluate_pod ctx pod st = (ph', st')"
  obtains (metrics_error) err where "rc_metrics ctx = MetricsFailed err" "ph' = Leaving"
      "st' = st\<lparr>rs_metrics_errors := Suc (rs_metrics_errors st),
        rs_metrics_err := (if rs_metrics_err st = '''' then err else rs_metrics_err st), rs_cancelled := True\<rparr>"
  | (not_found) "getPodMetrics (rc_metrics ctx) (pod_namespace pod) (pod_name pod) = Inr None" "ph' = Leaving"
      "st' = st\<lparr>rs_metrics_not_found := Suc (rs_metrics_not_found st)\<rparr>"
  | (qos) pm where "getPodMetrics (rc_metrics ctx) (pod_namespace pod) (pod_name pod) = Inr (Some pm)" "ph' = Leaving"
      "st' = st\<lparr>rs_metrics_ok := True, rs_qos_skipped := Suc (rs_qos_skipped st)\<rparr>"
  | (error) pm where "getPodMetrics (rc_metrics ctx) (pod_namespace pod) (pod_name pod) = Inr (Some pm)" "ph' = Leaving"
      "st' = st\<lparr>rs_metrics_ok := True\<rparr>"
  | (unchanged) pm res where "getPodMetrics (rc_metrics ctx) (pod_namespace pod) (pod_name pod) = Inr (Some pm)"
      "ph' = Leaving" "st' = (note_result ctx pod res (st\<lparr>rs_metrics_ok := True\<rparr>))\<lparr>rs_no_change := Suc (rs_no_change st)\<rparr>"
  | (target) pm res where "getPodMetrics (rc_metrics ctx) (pod_namespace pod) (pod_name pod) = Inr (Some pm)"
      "ph' = Computed res" "wanted ctx pod res" "st' = note_result ctx pod res (st\<lparr>rs_metrics_ok := True\<rparr>)"
proof (cases "getPodMetrics (rc_metrics ctx) (pod_namespace pod) (pod_name pod)")
  case (Inl err)
  then have "rc_metrics ctx = MetricsFailed err"
    by (simp add: getPodMetrics_def split: metrics_answer.splits)
  with Inl metrics_error assms show thesis by (auto simp: evaluate_pod_def)
next
  case (Inr m)
  show thesis
  proof (cases m)
    case None
    with Inr assms not_found show thesis by (auto simp: evaluate_pod_def)
  next
    case (Some pm)
    obtain res err where c: "ComputeDesired (rc_q ctx) (Some pod) (Some pm) (rc_spec ctx) = (res, err)" by force
    show thesis
    proof (cases err)
      case (Some e)
      with Inr \<open>m = Some pm\<close> c assms qos error show thesis
        by (cases e) (auto simp: evaluate_pod_def)
    next
      case None
      with Inr \<open>m = Some pm\<close> c assms
      have act: "act_on_result res (note_result ctx pod res (st\<lparr>rs_metrics_ok := True\<rparr>)) = (ph', st')"
        by (simp add: evaluate_pod_def)
      show thesis
      proof (cases "changed res \<and> res_delta res \<noteq> zero_delta")
        case True
        then have "wanted ctx pod res"
          using Inr \<open>m = Some pm\<close> c None by (auto simp: wanted_def)
        with True Inr \<open>m = Some pm\<close> act target show thesis
          by (auto simp: act_on_result_def nonzero_delta)
      next
        case False
        with Inr \<open>m = Some pm\<close> act unchanged show thesis
          by (auto simp: act_on_result_def nonzero_delta split: if_splits)
      qed
    qed
  qed
qed

text \<open>
  The balance of a segment: a slot is taken, kept for good or put back as the phases say; the
  pod is counted at most once; less is left to do; the budget is reserved, released or
  committed, or stays as it is.
\<close>

definition pools_move :: "'q pod \<Rightarrow> 'q phase \<times> 'e run_state \<Rightarrow> 'q phase \<times> 'e run_state \<Rightarrow> bool" where
  "pools_move p x y \<longleftrightarrow>
     (let (ph, st) = x; (ph', st') = y;
          same = (rs_resized st' = rs_resized st \<and> rs_aggs st' = rs_aggs st)
      in rs_budget st' = rs_budget st \<and> live_delta ph' = live_delta ph \<and> same \<or>
         (\<exists>res t. ph = Decided res t \<and> ph' = Reserved res t \<and> same \<and>
            tryReserveBudget (res_delta res) (rs_budget st) = Some (rs_budget st')) \<or>
         (\<exists>res. ph = Releasing res \<and> ph' = Leaving \<and> same \<and>
            rs_budget st' = releaseBudget (res_delta res) (rs_budget st)) \<or>
         (\<exists>res t. ph = Applied res t \<and> ph' = Committed res t \<and> rs_resized st' = Suc (rs_resized st) \<and>
            rs_aggs st' = add_agg (pod_namespace p) (res_delta res) (rs_aggs st) \<and>
            rs_budget st' = commitBudget (res_delta res) (rs_budget st)))"

lemma pools_same:
  assumes "rs_budget st' = rs_budget st" "live_delta ph' = live_delta ph" "rs_resized st' = rs_resized st"
    "rs_aggs st' = rs_aggs st"
  shows "pools_move p (ph, st) (ph', st')"
  using assms by (simp add: pools_move_def)

definition slots_move :: "'q phase \<times> 'e run_state \<Rightarrow> 'q phase \<times> 'e run_state \<Rightarrow> bool" where
  "slots_move x y \<longleftrightarrow>
     (let (ph, st) = x; (ph', st') = y
      in rs_slots st' + holds_slot ph' + rs_resized st' = rs_slots st + holds_slot ph + rs_resized st \<and>
         counted st' + active ph' \<le> counted st + active ph \<and> rank ph' < rank ph)"

lemma evaluate_moves:
  assumes "evaluate_pod ctx p st = (ph', st')"
  shows "slots_move (Slotted, st) (ph', st') \<and> pools_move p (Slotted, st) (ph', st')"
  using assms
proof (cases rule: evaluate_pod_cases)
  case (unchanged pm res)
  have "counted ((note_result ctx p res (st\<lparr>rs_metrics_ok := True\<rparr>))\<lparr>rs_no_change := Suc (rs_no_change st)\<rparr>) =
      Suc (counted (note_result ctx p res (st\<lparr>rs_metrics_ok := True\<rparr>)))"
    by (simp add: counted_def)
  moreover have "counted (st\<lparr>rs_metrics_ok := True\<rparr>) = counted st" by (simp add: counted_def)
  ultimately show ?thesis using unchanged by (simp add: slots_move_def pools_same)
next
  case (target pm res)
  moreover have "counted (st\<lparr>rs_metrics_ok := True\<rparr>) = counted st" by (simp add: counted_def)
  ultimately show ?thesis by (simp add: slots_move_def pools_same)
qed (simp_all add: slots_move_def pools_same counted_def)

lemma call_moves:
  assumes "advance ctx p (ph, st) = (ph', st')"
    and "case ph of Computed res \<Rightarrow> True | Waiting res t \<Rightarrow> True | Reserved res t \<Rightarrow> True | Conflicted res t \<Rightarrow> True
      | Retrying res t fresh \<Rightarrow> True | Committed res t \<Rightarrow> True | _ \<Rightarrow> False"
  shows "slots_move (ph, st) (ph', st') \<and> pools_move p (ph, st) (ph', st')"
  using assms
  by (auto simp: slots_move_def counted_def call_segments Let_def intro!: pools_same
      split: phase.splits segment_splits)

lemma advance_moves:
  assumes "advance ctx p (ph, st) = (ph', st')" "ph \<noteq> Finished"
  shows "slots_move (ph, st) (ph', st') \<and> pools_move p (ph, st) (ph', st')"
proof (cases ph)
  case Fresh
  with assms show ?thesis
    by (auto simp: begin_pod_def take_slot_def slots_move_def counted_def intro!: pools_same split: segment_splits)
next
  case Slotted
  with assms evaluate_moves show ?thesis by simp
next
  case (Decided res t)
  with assms show ?thesis
    by (auto simp: reserve_budget_def slots_move_def pools_move_def counted_def split: segment_splits)
next
  case (Refused res err)
  with assms show ?thesis by (auto simp: slots_move_def pools_same)
next
  case (Applied res t)
  with assms show ?thesis
    by (auto simp: commit_resize_def keep_slot_def slots_move_def pools_move_def counted_def)
next
  case (Releasing res)
  with assms show ?thesis
    by (auto simp: give_budget_def slots_move_def pools_move_def counted_def)
next
  case Leaving
  with assms show ?thesis
    by (auto simp: give_slot_def put_slot_def slots_move_def counted_def pools_same)
qed (use assms call_moves [of ctx p ph st ph' st'] in auto)

lemma advance_slots:
  assumes "advance ctx p (ph, st) = (ph', st')" "ph \<noteq> Finished"
  shows "rs_slots st' + holds_slot ph' + rs_resized st' = rs_slots st + holds_slot ph + rs_resized st"
    and "counted st' + active ph' \<le> counted st + active ph"
    and "rank ph' < rank ph"
  using advance_moves [OF assms] by (simp_all add: slots_move_def)

text \<open>What a phase says of its pod, kept by every segment.\<close>

primrec justified :: "('q, 'l, 'e) run_ctx \<Rightarrow> 'q pod \<Rightarrow> 'q phase \<Rightarrow> bool" where
  "justified ctx p Fresh = True"
| "justified ctx p Slotted = True"
| "justified ctx p (Computed res) = wanted ctx p res"
| "justified ctx p (Waiting res t) = (wanted ctx p res \<and> \<not> stable ctx p res t)"
| "justified ctx p (Decided res t) = (wanted ctx p res \<and> stable ctx p res t)"
| "justified ctx p (Reserved res t) = (wanted ctx p res \<and> stable ctx p res t)"
| "justified ctx p (Conflicted res t) = (wanted ctx p res \<and> stable ctx p res t)"
| "justified ctx p (Retrying res t fresh) = (wanted ctx p res \<and> stable ctx p res t)"
| "justified ctx p (Refused res err) = (\<exists>t. wanted ctx p res \<and> stable ctx p res t)"
| "justified ctx p (Applied res t) = (\<exists>res'. wanted ctx p res' \<and> stable ctx p res' t \<and>
     res_delta res = res_delta res' \<and> hash res = hash res')"
| "justified ctx p (Committed res t) = (\<exists>res'. wanted ctx p res' \<and> stable ctx p res' t \<and>
     res_delta res = res_delta res' \<and> hash res = hash res')"
| "justified ctx p (Releasing res) = (\<exists>t. wanted ctx p res \<and> stable ctx p res t)"
| "justified ctx p Leaving = True"
| "justified ctx p Finished = True"

lemma advance_justified:
  assumes "advance ctx p (ph, st) = (ph', st')" "justified ctx p ph"
  shows "justified ctx p ph'"
proof (cases ph)
  case Slotted
  with assms(1) have "evaluate_pod ctx p st = (ph', st')" by simp
  then show ?thesis by (cases rule: evaluate_pod_cases) simp_all
next
  case (Computed res)
  with assms show ?thesis
    by (auto simp: check_stable_def stable_def Let_def split: segment_splits)
next
  case (Reserved res t)
  with assms show ?thesis
    by (auto simp: apply_resize_def Let_def split: segment_splits)
next
  case (Conflicted res t)
  with assms show ?thesis
    by (auto simp: fetch_fresh_def skip_conflict_def split: segment_splits)
next
  case (Retrying res t fresh)
  with assms show ?thesis
    by (auto simp: retry_conflict_def skip_conflict_def Let_def split: segment_splits)
qed (use assms in \<open>auto simp: pool_segments note_pending_def annotate_pod_def take_slot_def Let_def
    split: segment_splits\<close>)

section \<open>What steers the run\<close>

definition control :: "'e run_state \<Rightarrow> bool \<times> bool \<times> bool \<times> prober option \<times> condition list" where
  "control st = (rs_fatal st, rs_cancelled st, rs_stop_all st, rs_prober st, rs_conditions st)"

text \<open>Only a failed list of metrics and a refused resize change it.\<close>

lemma advance_control:
  assumes "advance ctx p (ph, st) = (ph', st')"
  obtains (same) "control st' = control st"
  | (no_metrics) err where "ph = Slotted" "rc_metrics ctx = MetricsFailed err"
      "control st' = control (st\<lparr>rs_cancelled := True\<rparr>)"
  | (refused) res err where "ph = Refused res err" "st' = fail_resize ctx err st"
proof (cases ph)
  case Slotted
  with assms have "evaluate_pod ctx p st = (ph', st')" by simp
  then show thesis
  proof (cases rule: evaluate_pod_cases)
    case (metrics_error err)
    with Slotted no_metrics show thesis by (simp add: control_def)
  qed (use same in \<open>simp_all add: control_def\<close>)
next
  case (Refused res err)
  with assms refused show thesis by simp
qed (use assms same in \<open>auto simp: control_def pool_segments call_segments Let_def split: segment_splits\<close>)

lemma cancelled_fail_resize: "rs_cancelled st \<Longrightarrow> rs_cancelled (fail_resize ctx err st)"
  by (simp add: fail_resize_def mark_fatal_def Let_def split: resize_error.splits prod.splits)

lemma advance_cancelled:
  assumes "advance ctx p (ph, st) = (ph', st')" "rs_cancelled st"
  shows "rs_cancelled st'"
  using assms(1)
proof (cases rule: advance_control)
  case refused
  with assms(2) show ?thesis by (simp add: cancelled_fail_resize)
qed (use assms(2) in \<open>simp_all add: control_def\<close>)

end
