(* ===== verification/WorkerPool.thy ===== *)
theory WorkerPool
  imports WorkerLemmas
begin

text \<open>
  The pool of workers of \<open>Reconcile\<close>: the candidates are handed out over an unbuffered
  channel to \<open>maxConcurrentPods\<close> goroutines, each of which runs \<open>processOne\<close> on one pod at a
  time. A step lets one worker take the next pod, run its next segment or become idle
  again; or it stops the handing out once the run is cancelled (the \<open>select\<close> of the
  enqueueing loop, which may still choose the channel). The pool is done when no pod waits
  and every worker is idle, which is when \<open>wg.Wait\<close> returns.
\<close>

section \<open>Steps\<close>

record ('q, 'e) pool =
  pl_queue :: "'q pod list"
  pl_workers :: "('q pod \<times> 'q phase) option list"
  pl_shared :: "'e run_state"

definition start_pool :: "'q pod list \<Rightarrow> nat \<Rightarrow> 'e run_state \<Rightarrow> ('q, 'e) pool" where
  "start_pool candidates k st = \<lparr>pl_queue = candidates, pl_workers = replicate k None, pl_shared = st\<rparr>"

inductive pool_step :: "('q, 'l, 'e) run_ctx \<Rightarrow> ('q, 'e) pool \<Rightarrow> ('q, 'e) pool \<Rightarrow> bool" for ctx where
  take: "i < length (pl_workers s) \<Longrightarrow> pl_workers s ! i = None \<Longrightarrow> pl_queue s = p # ps \<Longrightarrow>
    pool_step ctx s (s\<lparr>pl_queue := ps, pl_workers := (pl_workers s)[i := Some (p, Fresh)]\<rparr>)"
| stop: "rs_cancelled (pl_shared s) \<Longrightarrow> pl_queue s \<noteq> [] \<Longrightarrow> pool_step ctx s (s\<lparr>pl_queue := []\<rparr>)"
| work: "i < length (pl_workers s) \<Longrightarrow> pl_workers s ! i = Some (p, ph) \<Longrightarrow> ph \<noteq> Finished \<Longrightarrow>
    advance ctx p (ph, pl_shared s) = (ph', st') \<Longrightarrow>
    pool_step ctx s (s\<lparr>pl_workers := (pl_workers s)[i := Some (p, ph')], pl_shared := st'\<rparr>)"
| rest: "i < length (pl_workers s) \<Longrightarrow> pl_workers s ! i = Some (p, Finished) \<Longrightarrow>
    pool_step ctx s (s\<lparr>pl_workers := (pl_workers s)[i := None]\<rparr>)"

text \<open>\<open>n\<close> steps.\<close>

inductive pool_steps ::
  "('q, 'l, 'e) run_ctx \<Rightarrow> nat \<Rightarrow> ('q, 'e) pool \<Rightarrow> ('q, 'e) pool \<Rightarrow> bool" for ctx where
  none: "pool_steps ctx 0 s s"
| more: "pool_steps ctx n s s' \<Longrightarrow> pool_step ctx s' s'' \<Longrightarrow> pool_steps ctx (Suc n) s s''"

definition pool_done :: "('q, 'e) pool \<Rightarrow> bool" where
  "pool_done s \<longleftrightarrow> pl_queue s = [] \<and> list_all (\<lambda>w. w = None) (pl_workers s)"

text \<open>A total over the workers, idle ones counting nothing.\<close>

definition per_worker :: "('q phase \<Rightarrow> 'm :: comm_monoid_add) \<Rightarrow> ('q pod \<times> 'q phase) option list \<Rightarrow> 'm" where
  "per_worker f ws = sum_list (map (\<lambda>w. case w of None \<Rightarrow> 0 | Some (p, ph) \<Rightarrow> f ph) ws)"

lemma per_worker_update:
  assumes "i < length ws"
  shows "per_worker f (ws[i := w']) + (case ws ! i of None \<Rightarrow> 0 | Some (p, ph) \<Rightarrow> f ph) =
    per_worker f ws + (case w' of None \<Rightarrow> 0 | Some (p, ph) \<Rightarrow> f ph)"
  unfolding per_worker_def using assms by (rule sum_list_update_balance)

lemma per_worker_idle [simp]: "per_worker f (replicate k None) = 0"
  by (induction k) (simp_all add: per_worker_def)

lemma per_worker_done: "pool_done s \<Longrightarrow> per_worker f (pl_workers s) = 0"
proof -
  have "per_worker f ws = 0" if "list_all (\<lambda>w. w = None) ws" for ws :: "('a pod \<times> 'a phase) option list"
    using that by (induction ws) (simp_all add: per_worker_def)
  then show "pool_done s \<Longrightarrow> per_worker f (pl_workers s) = 0"
    by (simp add: pool_done_def)
qed

section \<open>The aggregates\<close>

text \<open>The aggregates per namespace add up to the resized pods and their deltas.\<close>

definition aggs_match :: "ns_agg smap \<Rightarrow> delta multiset \<Rightarrow> bool" where
  "aggs_match m used \<longleftrightarrow>
     distinct (map fst m) \<and>
     sum_list (map (\<lambda>(ns, a). agg_resized a) m) = size used \<and>
     i64 (sum_list (map (\<lambda>(ns, a). agg_cpu a) m)) = i64 (\<Sum>d \<in># used. cpu_request_milli d) \<and>
     i64 (sum_list (map (\<lambda>(ns, a). agg_mem a) m)) = i64 (\<Sum>d \<in># used. memory_request_byte d)"

lemma sum_list_update_key:
  fixes f :: "'v \<Rightarrow> 'm :: comm_monoid_add"
  assumes "distinct (map fst m)"
  shows "sum_list (map (\<lambda>(k, v). f v) (AList.update k v m)) + (case map_of m k of None \<Rightarrow> 0 | Some w \<Rightarrow> f w) =
    sum_list (map (\<lambda>(k, v). f v) m) + f v"
  using assms
proof (induction m)
  case Nil
  then show ?case by simp
next
  case (Cons kv m)
  obtain k' w where kv: "kv = (k', w)" by force
  show ?case
  proof (cases "k' = k")
    case True
    then show ?thesis by (simp add: kv ac_simps)
  next
    case False
    with Cons show ?thesis by (simp add: kv add.assoc)
  qed
qed

lemma i64_add_cong: "i64 a = i64 b \<Longrightarrow> i64 (a + x) = i64 (b + x)"
  by (metis i64_add_left)

lemma aggs_match_add:
  assumes "aggs_match m used"
  shows "aggs_match (add_agg ns d m) (add_mset d used)"
proof -
  let ?a = "agg_get m ns"
  let ?b = "\<lparr>agg_resized = Suc (agg_resized ?a), agg_cpu = i64 (agg_cpu ?a + cpu_request_milli d),
    agg_mem = i64 (agg_mem ?a + memory_request_byte d)\<rparr>"
  have old: "(case map_of m ns of None \<Rightarrow> 0 | Some w \<Rightarrow> f w) = f ?a"
    if "f \<lparr>agg_resized = 0, agg_cpu = 0, agg_mem = 0\<rparr> = 0" for f :: "ns_agg \<Rightarrow> 'm :: zero"
    using that by (simp add: agg_get_def split: option.splits)
  have dist: "distinct (map fst m)" using assms by (simp add: aggs_match_def)
  have "sum_list (map (\<lambda>(k, v). agg_resized v) (AList.update ns ?b m)) = Suc (sum_list (map (\<lambda>(k, v). agg_resized v) m))"
    using sum_list_update_key [OF dist, of agg_resized ns ?b] old [of agg_resized] by simp
  moreover have cpu: "i64 (sum_list (map (\<lambda>(k, v). agg_cpu v) (AList.update ns ?b m))) =
      i64 (sum_list (map (\<lambda>(k, v). agg_cpu v) m) + cpu_request_milli d)"
  proof -
    have "sum_list (map (\<lambda>(k, v). agg_cpu v) (AList.update ns ?b m)) =
        sum_list (map (\<lambda>(k, v). agg_cpu v) m) - agg_cpu ?a + i64 (agg_cpu ?a + cpu_request_milli d)"
      using sum_list_update_key [OF dist, of agg_cpu ns ?b] old [of agg_cpu] by simp
    then show ?thesis by simp
  qed
  moreover have mem: "i64 (sum_list (map (\<lambda>(k, v). agg_mem v) (AList.update ns ?b m))) =
      i64 (sum_list (map (\<lambda>(k, v). agg_mem v) m) + memory_request_byte d)"
  proof -
    have "sum_list (map (\<lambda>(k, v). agg_mem v) (AList.update ns ?b m)) =
        sum_list (map (\<lambda>(k, v). agg_mem v) m) - agg_mem ?a + i64 (agg_mem ?a + memory_request_byte d)"
      using sum_list_update_key [OF dist, of agg_mem ns ?b] old [of agg_mem] by simp
    then show ?thesis by simp
  qed
  moreover have "i64 (sum_list (map (\<lambda>(k, v). agg_cpu v) m) + cpu_request_milli d) =
      i64 ((\<Sum>d \<in># used. cpu_request_milli d) + cpu_request_milli d)"
    "i64 (sum_list (map (\<lambda>(k, v). agg_mem v) m) + memory_request_byte d) =
      i64 ((\<Sum>d \<in># used. memory_request_byte d) + memory_request_byte d)"
    using assms by (auto simp: aggs_match_def intro: i64_add_cong)
  moreover have "distinct (map fst (AList.update ns ?b m))"
    by (rule distinct_update [OF dist])
  moreover have "add_agg ns d m = AList.update ns ?b m"
    by (simp add: add_agg_def Let_def)
  moreover have "(\<Sum>d \<in># add_mset d used. f d) = (\<Sum>d \<in># used. f d) + f d" for f :: "delta \<Rightarrow> int"
    by simp
  moreover have "sum_list (map (\<lambda>(k, v). agg_resized v) m) = size used"
    using assms by (simp add: aggs_match_def)
  ultimately show ?thesis
    unfolding aggs_match_def by (simp only: size_add_mset simp_thms)
qed


section \<open>Invariants of the shared state\<close>

text \<open>
  What every segment keeps, of the shared state and of the phase of a pod, holds throughout; the
  property of the phases may depend on the shared state when every segment keeps it for all pods.
\<close>

definition worker_all :: "('q pod \<Rightarrow> 'q phase \<Rightarrow> bool) \<Rightarrow> ('q pod \<times> 'q phase) option \<Rightarrow> bool" where
  "worker_all W w \<longleftrightarrow> (case w of None \<Rightarrow> True | Some (p, ph) \<Rightarrow> W p ph)"

lemma worker_all_simps [simp]:
  "worker_all W None" "worker_all W (Some (p, ph)) \<longleftrightarrow> W p ph"
  by (simp_all add: worker_all_def)

lemma list_all_upd:
  assumes "list_all P xs" "P x"
  shows "list_all P (xs[i := x])"
  using assms set_update_subset_insert [of xs i x] by (auto simp: list_all_iff)

lemma pool_invariant_mono:
  assumes "pool_steps ctx n (start_pool cands k st0) s" "I st0"
    and "\<And>p st. p \<in> set cands \<Longrightarrow> W st p Fresh"
    and "\<And>p ph st ph' st'. p \<in> set cands \<Longrightarrow> I st \<Longrightarrow> W st p ph \<Longrightarrow> ph \<noteq> Finished \<Longrightarrow>
      advance ctx p (ph, st) = (ph', st') \<Longrightarrow> I st' \<and> W st' p ph' \<and> (\<forall>q ph. W st q ph \<longrightarrow> W st' q ph)"
  shows "I (pl_shared s) \<and> set (pl_queue s) \<subseteq> set cands \<and>
    list_all (worker_all (\<lambda>p ph. p \<in> set cands \<and> W (pl_shared s) p ph)) (pl_workers s)"
  using assms(1)
proof (induction n "start_pool cands k st0" s)
  case none
  with assms(2) show ?case by (simp add: start_pool_def list_all_length)
next
  case (more n s s')
  from more(3) show ?case
  proof cases
    case (take i p ps)
    with more(2) assms(3) [of p] show ?thesis by (auto intro: list_all_upd)
  next
    case (work i p ph ph' st')
    have "worker_all (\<lambda>p ph. p \<in> set cands \<and> W (pl_shared s) p ph) (Some (p, ph))"
      using more(2) work(2,3) by (metis list_all_length)
    then have new: "I st'" "p \<in> set cands" "W st' p ph'" "\<And>q ph. W (pl_shared s) q ph \<Longrightarrow> W st' q ph"
      using more(2) work(4,5) assms(4) [of p "pl_shared s" ph ph' st'] by auto
    have "worker_all (\<lambda>p ph. p \<in> set cands \<and> W st' p ph) w"
      if "worker_all (\<lambda>p ph. p \<in> set cands \<and> W (pl_shared s) p ph) w" for w
      using that new(4) by (auto simp: worker_all_def split: option.splits)
    then have "list_all (worker_all (\<lambda>p ph. p \<in> set cands \<and> W st' p ph)) (pl_workers s)"
      using more(2) by (auto simp: list_all_iff)
    with more(2) new(1-3) show ?thesis by (auto simp: work(1) intro: list_all_upd)
  qed (use more(2) in \<open>auto intro: list_all_upd\<close>)
qed

text \<open>Of the phases alone.\<close>

lemma pool_invariant:
  assumes "pool_steps ctx n (start_pool cands k st0) s" "I st0"
    and "\<And>p. p \<in> set cands \<Longrightarrow> W p Fresh"
    and "\<And>p ph st ph' st'. p \<in> set cands \<Longrightarrow> I st \<Longrightarrow> W p ph \<Longrightarrow> ph \<noteq> Finished \<Longrightarrow>
      advance ctx p (ph, st) = (ph', st') \<Longrightarrow> I st' \<and> W p ph'"
  shows "I (pl_shared s) \<and> set (pl_queue s) \<subseteq> set cands \<and>
    list_all (worker_all (\<lambda>p ph. p \<in> set cands \<and> W p ph)) (pl_workers s)"
  using assms by (intro pool_invariant_mono [where I = I and W = "\<lambda>st. W"]) blast+

end
