(* ===== verification/Glob.thy ===== *)
theory Glob
  imports Prelude
begin

text \<open>
  \<open>path.Match\<close> of the Go standard library, on byte strings, as its documentation states it:
  \<open>*\<close> matches any sequence of characters other than \<open>/\<close>, \<open>?\<close> any one of them, a class
  \<open>[^a-z]\<close> one character, \<open>\\c\<close> and any other character itself, and the match must cover
  the whole name. A pattern is parsed into tokens; \<open>None\<close> is \<open>ErrBadPattern\<close>, which
  \<open>path.Match\<close> returns, with \<open>false\<close>, for every malformed pattern whatever the name.
\<close>

datatype glob_token =
    Star
  | AnyChar
  | Lit char
  | CharClass bool "(char \<times> char) list"   \<comment> \<open>negated, ranges\<close>

section \<open>Parsing\<close>

text \<open>One end of a range; a class must go on after it.\<close>

fun get_esc :: "string \<Rightarrow> (char \<times> string) option" where
  "get_esc [] = None"
| "get_esc (c # cs) =
     (if c = CHR ''-'' \<or> c = CHR '']'' then None
      else if c = CHR 0x5C then (case cs of d # e # ds \<Rightarrow> Some (d, e # ds) | _ \<Rightarrow> None)
      else if cs = [] then None else Some (c, cs))"

lemma get_esc_shorter: "get_esc s = Some (c, r) \<Longrightarrow> length r < length s"
  by (cases s) (auto split: if_splits list.splits)

lemma get_esc_nonempty: "get_esc s = Some (c, r) \<Longrightarrow> r \<noteq> []"
  by (cases s) (auto split: if_splits list.splits)

text \<open>The ranges up to the closing bracket, which does not close an empty class.\<close>

function parse_ranges :: "(char \<times> char) list \<Rightarrow> string \<Rightarrow> ((char \<times> char) list \<times> string) option" where
  "parse_ranges rs s =
     (if rs \<noteq> [] \<and> s \<noteq> [] \<and> hd s = CHR '']'' then Some (rev rs, tl s)
      else case get_esc s of
          None \<Rightarrow> None
        | Some (lo, s1) \<Rightarrow>
            if hd s1 = CHR ''-'' then
              (case get_esc (tl s1) of
                 None \<Rightarrow> None
               | Some (hi, s2) \<Rightarrow> parse_ranges ((lo, hi) # rs) s2)
            else parse_ranges ((lo, lo) # rs) s1)"
  by pat_completeness auto
termination
  by (relation "measure (\<lambda>(rs, s). length s)")
    (auto dest!: get_esc_shorter simp: less_Suc_eq_le)

declare parse_ranges.simps [simp del]

lemma parse_ranges_shorter: "parse_ranges rs s = Some (rs', r) \<Longrightarrow> length r < length s"
proof (induction rs s rule: parse_ranges.induct)
  case (1 rs s)
  show ?case
  proof (cases "rs \<noteq> [] \<and> s \<noteq> [] \<and> hd s = CHR '']''")
    case True
    with 1(3) show ?thesis by (subst (asm) parse_ranges.simps) (auto simp: neq_Nil_conv)
  next
    case False
    with 1(3) obtain lo s1 where lo: "get_esc s = Some (lo, s1)"
      by (subst (asm) parse_ranges.simps) (auto split: option.splits)
    show ?thesis
    proof (cases "hd s1 = CHR ''-''")
      case True
      with 1(3) False lo obtain hi s2 where "get_esc (tl s1) = Some (hi, s2)"
        "parse_ranges ((lo, hi) # rs) s2 = Some (rs', r)"
        by (subst (asm) parse_ranges.simps) (auto split: option.splits)
      with 1(1) [OF False lo refl True] lo show ?thesis
        using get_esc_shorter [OF lo] get_esc_shorter [of "tl s1" hi s2] by fastforce
    next
      case False2: False
      with 1(3) False lo have "parse_ranges ((lo, lo) # rs) s1 = Some (rs', r)"
        by (subst (asm) parse_ranges.simps) auto
      with 1(2) [OF False lo refl False2] show ?thesis
        using get_esc_shorter [OF lo] by simp
    qed
  qed
qed

function parse_glob :: "string \<Rightarrow> glob_token list option" where
  "parse_glob [] = Some []"
| "parse_glob (c # cs) =
     (if c = CHR ''*'' then map_option ((#) Star) (parse_glob cs)
      else if c = CHR ''?'' then map_option ((#) AnyChar) (parse_glob cs)
      else if c = CHR ''['' then
        (let neg = (cs \<noteq> [] \<and> hd cs = CHR ''^'')
         in case parse_ranges [] (if neg then tl cs else cs) of
              None \<Rightarrow> None
            | Some (rs, r) \<Rightarrow> map_option ((#) (CharClass neg rs)) (parse_glob r))
      else if c = CHR 0x5C then
        (case cs of [] \<Rightarrow> None | d # ds \<Rightarrow> map_option ((#) (Lit d)) (parse_glob ds))
      else map_option ((#) (Lit c)) (parse_glob cs))"
  by pat_completeness auto
termination
  by (relation "measure length") (auto dest!: parse_ranges_shorter split: if_splits)

section \<open>Matching\<close>

definition class_matches :: "bool \<Rightarrow> (char \<times> char) list \<Rightarrow> char \<Rightarrow> bool" where
  "class_matches neg rs c \<longleftrightarrow> list_ex (\<lambda>(lo, hi). of_char lo \<le> (of_char c :: nat) \<and> of_char c \<le> (of_char hi :: nat)) rs \<noteq> neg"

fun glob_matches :: "glob_token list \<Rightarrow> string \<Rightarrow> bool" where
  "glob_matches [] s \<longleftrightarrow> s = []"
| "glob_matches (Star # ts) s \<longleftrightarrow>
     glob_matches ts s \<or>
     (case s of [] \<Rightarrow> False | c # s' \<Rightarrow> c \<noteq> CHR ''/'' \<and> glob_matches (Star # ts) s')"
| "glob_matches (AnyChar # ts) s \<longleftrightarrow>
     (case s of [] \<Rightarrow> False | c # s' \<Rightarrow> c \<noteq> CHR ''/'' \<and> glob_matches ts s')"
| "glob_matches (Lit d # ts) s \<longleftrightarrow> (case s of [] \<Rightarrow> False | c # s' \<Rightarrow> c = d \<and> glob_matches ts s')"
| "glob_matches (CharClass neg rs # ts) s \<longleftrightarrow>
     (case s of [] \<Rightarrow> False | c # s' \<Rightarrow> class_matches neg rs c \<and> glob_matches ts s')"

text \<open>The boolean result of \<open>path.Match\<close>.\<close>

definition path_match :: "string \<Rightarrow> string \<Rightarrow> bool" where
  "path_match pattern name = (case parse_glob pattern of None \<Rightarrow> False | Some ts \<Rightarrow> glob_matches ts name)"

section \<open>What patterns of common shapes match\<close>

lemma glob_star:
  "glob_matches (Star # ts) s \<longleftrightarrow>
    (\<exists>u v. s = u @ v \<and> CHR ''/'' \<notin> set u \<and> glob_matches ts v)"
proof (induction s)
  case Nil
  then show ?case by simp
next
  case (Cons c s)
  show ?case
  proof
    assume "glob_matches (Star # ts) (c # s)"
    then consider "glob_matches ts (c # s)" | "c \<noteq> CHR ''/''" "glob_matches (Star # ts) s" by auto
    then show "\<exists>u v. c # s = u @ v \<and> CHR ''/'' \<notin> set u \<and> glob_matches ts v"
    proof cases
      case 1
      then show ?thesis by (metis append_Nil empty_iff list.set(1))
    next
      case 2
      with Cons.IH obtain u v where "s = u @ v" "CHR ''/'' \<notin> set u" "glob_matches ts v" by blast
      with 2 show ?thesis by (metis append_Cons insert_iff list.set(2))
    qed
  next
    assume "\<exists>u v. c # s = u @ v \<and> CHR ''/'' \<notin> set u \<and> glob_matches ts v"
    then obtain u v where *: "c # s = u @ v" "CHR ''/'' \<notin> set u" "glob_matches ts v" by blast
    show "glob_matches (Star # ts) (c # s)"
    proof (cases u)
      case Nil
      with * show ?thesis by simp
    next
      case (Cons d u')
      with * have "glob_matches (Star # ts) s"
        unfolding Cons.IH by auto
      with * Cons show ?thesis by auto
    qed
  qed
qed

text \<open>Characters with no meaning of their own in a pattern.\<close>

definition plain :: "string \<Rightarrow> bool" where
  "plain s \<longleftrightarrow> list_all (\<lambda>c. c \<notin> {CHR ''*'', CHR ''?'', CHR ''['', CHR 0x5C}) s"

lemma parse_glob_plain: "plain s \<Longrightarrow> parse_glob (s @ r) = map_option (\<lambda>ts. map Lit s @ ts) (parse_glob r)"
  by (cases "parse_glob r"; induction s) (auto simp: plain_def)

lemma glob_matches_lits: "glob_matches (map Lit p @ ts) s \<longleftrightarrow> (\<exists>r. s = p @ r \<and> glob_matches ts r)"
  by (induction p arbitrary: s) (auto split: list.splits)

lemma path_match_plain: "plain p \<Longrightarrow> path_match p s \<longleftrightarrow> s = p"
  using parse_glob_plain [of p "[]"] glob_matches_lits [of p "[]" s] by (simp add: path_match_def)

lemma path_match_prefix:
  assumes "plain p"
  shows "path_match (p @ ''*'') s \<longleftrightarrow> (\<exists>r. s = p @ r \<and> CHR ''/'' \<notin> set r)"
proof -
  have "glob_matches [Star] r \<longleftrightarrow> CHR ''/'' \<notin> set r" for r
    by (simp add: glob_star del: glob_matches.simps(2))
  then show ?thesis
    using parse_glob_plain [OF assms, of "''*''"]
    by (simp add: path_match_def glob_matches_lits del: glob_matches.simps(2))
qed

lemma path_match_star: "path_match ''*'' s \<longleftrightarrow> CHR ''/'' \<notin> set s"
  using path_match_prefix [of "[]" s] by (simp add: plain_def)

end
