(* ===== verification/NsSelector.thy ===== *)
theory NsSelector
  imports Glob
begin

text \<open>
  \<open>internal/nsselector/nsselector.go\<close>: compiling and matching the include and exclude
  patterns of a namespace selector. The \<open>regexp\<close> package is the parameter \<open>'r regexp_ops\<close>:
  a compiled regular expression is a value of type \<open>'r\<close>, and \<open>re_compile\<close> yields it or
  the text of the error.
\<close>

record 'r regexp_ops =
  re_compile :: "string \<Rightarrow> string + 'r"
  re_match :: "'r \<Rightarrow> string \<Rightarrow> bool"
  re_string :: "'r \<Rightarrow> string"

abbreviation MatchTypeGlob :: string where
  "MatchTypeGlob \<equiv> ''Glob''"

abbreviation MatchTypeRegexp :: string where
  "MatchTypeRegexp \<equiv> ''Regexp''"

text \<open>The two implementations of the \<open>matcher\<close> interface and its methods.\<close>

datatype 'r matcher = GlobMatcher string | RegexpMatcher 'r

fun MatchString :: "'r regexp_ops \<Rightarrow> 'r matcher \<Rightarrow> string \<Rightarrow> bool" where
  "MatchString E (GlobMatcher g) s = path_match g s"
| "MatchString E (RegexpMatcher re) s = re_match E re s"

fun matcher_string :: "'r regexp_ops \<Rightarrow> 'r matcher \<Rightarrow> string" where
  "matcher_string E (GlobMatcher g) = g"
| "matcher_string E (RegexpMatcher re) = re_string E re"

record 'r selector =
  sel_match_type :: string
  include_ms :: "'r matcher list"
  exclude_ms :: "'r matcher list"

datatype compile_error =
    UnsupportedMatchType string
  | InvalidRegexp string string         \<comment> \<open>the pattern, the error of \<open>regexp.Compile\<close>\<close>
  | CompileInclude compile_error        \<comment> \<open>\<open>compile include patterns: %w\<close>\<close>
  | CompileExclude compile_error        \<comment> \<open>\<open>compile exclude patterns: %w\<close>\<close>

text \<open>
  The texts of the errors. \<open>quote\<close> is the verb \<open>%q\<close> on ASCII: quotes around the text, a
  backslash before a quote or a backslash, the named escapes, and \<open>\x\<close> with two digits for
  the other control characters; any other character stands for itself.
\<close>

definition quote_hex_digit :: "nat \<Rightarrow> char" where
  "quote_hex_digit n = (if n < 10 then char_of (48 + n) else char_of (87 + n))"

definition quote_char :: "char \<Rightarrow> string" where
  "quote_char c =
     (let n = of_char c :: nat; bs = CHR 0x5C
      in if n = 34 \<or> n = 92 then [bs, c]
         else if 7 \<le> n \<and> n \<le> 13 then [bs, ''abtnvfr'' ! (n - 7)]
         else if n < 32 \<or> n = 127 then [bs, CHR ''x'', quote_hex_digit (n div 16), quote_hex_digit (n mod 16)]
         else [c])"

definition quote :: "string \<Rightarrow> string" where
  "quote s = [CHR 0x22] @ concat (map quote_char s) @ [CHR 0x22]"

fun compile_error_text :: "compile_error \<Rightarrow> string" where
  "compile_error_text (UnsupportedMatchType ty) = ''unsupported matchType '' @ quote ty"
| "compile_error_text (InvalidRegexp p e) = ''invalid regexp '' @ quote p @ '': '' @ e"
| "compile_error_text (CompileInclude e) = ''compile include patterns: '' @ compile_error_text e"
| "compile_error_text (CompileExclude e) = ''compile exclude patterns: '' @ compile_error_text e"

section \<open>Compiling\<close>

primrec compile_regexps :: "'r regexp_ops \<Rightarrow> string list \<Rightarrow> compile_error + 'r matcher list" where
  "compile_regexps E [] = Inr []"
| "compile_regexps E (p # ps) =
     (case re_compile E p of
        Inl e \<Rightarrow> Inl (InvalidRegexp p e)
      | Inr re \<Rightarrow>
          (case compile_regexps E ps of
             Inl e \<Rightarrow> Inl e
           | Inr ms \<Rightarrow> Inr (RegexpMatcher re # ms)))"

definition compileMatchers ::
  "'r regexp_ops \<Rightarrow> string \<Rightarrow> string list \<Rightarrow> compile_error + 'r matcher list" where
  "compileMatchers E matchType patterns =
     (if matchType = '''' \<or> matchType = MatchTypeGlob then Inr (map GlobMatcher patterns)
      else if matchType = MatchTypeRegexp then compile_regexps E patterns
      else Inl (UnsupportedMatchType matchType))"

text \<open>The include list in effect: everything when none is given.\<close>

definition default_include :: "string \<Rightarrow> string list \<Rightarrow> compile_error + string list" where
  "default_include matchType incl =
     (if incl = [] then
        (if matchType = '''' \<or> matchType = MatchTypeGlob then Inr [''*'']
         else if matchType = MatchTypeRegexp then Inr [''.*'']
         else Inl (UnsupportedMatchType matchType))
      else Inr incl)"

definition Compile ::
  "'r regexp_ops \<Rightarrow> string \<Rightarrow> string list \<Rightarrow> string list \<Rightarrow> compile_error + 'r selector" where
  "Compile E matchType incl excl =
     (case default_include matchType incl of
        Inl e \<Rightarrow> Inl e
      | Inr incl' \<Rightarrow>
          (case compileMatchers E matchType incl' of
             Inl e \<Rightarrow> Inl (CompileInclude e)
           | Inr ims \<Rightarrow>
               (case compileMatchers E matchType excl of
                  Inl e \<Rightarrow> Inl (CompileExclude e)
                | Inr xms \<Rightarrow>
                    Inr \<lparr>sel_match_type = matchType, include_ms = ims, exclude_ms = xms\<rparr>)))"

section \<open>Matching\<close>

text \<open>A loop over matchers that ends at the first match.\<close>

primrec first_match :: "'r regexp_ops \<Rightarrow> 'r matcher list \<Rightarrow> string \<Rightarrow> bool" where
  "first_match E [] name = False"
| "first_match E (m # ms) name = (if MatchString E m name then True else first_match E ms name)"

definition Match :: "'r regexp_ops \<Rightarrow> 'r selector \<Rightarrow> string \<Rightarrow> bool" where
  "Match E s name =
     (if \<not> first_match E (include_ms s) name then False
      else if first_match E (exclude_ms s) name then False
      else True)"

section \<open>Properties\<close>

lemma first_match_ex: "first_match E ms name \<longleftrightarrow> (\<exists>m \<in> set ms. MatchString E m name)"
  by (induction ms) auto

text \<open>What one pattern of a selector means, by match type.\<close>

definition pattern_matches :: "'r regexp_ops \<Rightarrow> string \<Rightarrow> string \<Rightarrow> string \<Rightarrow> bool" where
  "pattern_matches E matchType p name \<longleftrightarrow>
     (if matchType = MatchTypeRegexp
      then (case re_compile E p of Inl _ \<Rightarrow> False | Inr re \<Rightarrow> re_match E re name)
      else path_match p name)"

lemma compile_regexps_matches:
  "compile_regexps E ps = Inr ms \<Longrightarrow>
    (\<exists>m \<in> set ms. MatchString E m name) \<longleftrightarrow> (\<exists>p \<in> set ps. pattern_matches E MatchTypeRegexp p name)"
  by (induction ps arbitrary: ms) (auto simp: pattern_matches_def split: sum.splits)

lemma compileMatchers_matches:
  assumes "compileMatchers E mt ps = Inr ms"
  shows "(\<exists>m \<in> set ms. MatchString E m name) \<longleftrightarrow> (\<exists>p \<in> set ps. pattern_matches E mt p name)"
proof (cases "mt = MatchTypeRegexp")
  case True
  with assms show ?thesis
    by (simp add: compileMatchers_def compile_regexps_matches)
next
  case False
  then show ?thesis
    using assms by (auto simp: compileMatchers_def pattern_matches_def split: if_splits) blast+
qed

lemma compile_regexps_error:
  "compile_regexps E ps = Inl e \<Longrightarrow>
    \<exists>p \<in> set ps. \<exists>msg. re_compile E p = Inl msg \<and> e = InvalidRegexp p msg"
  by (induction ps) (auto split: sum.splits)

lemma compile_regexps_ok:
  "\<forall>p \<in> set ps. \<exists>re. re_compile E p = Inr re \<Longrightarrow> \<exists>ms. compile_regexps E ps = Inr ms"
  by (induction ps) (auto split: sum.splits)

lemma compileMatchers_total:
  "(\<exists>ms. compileMatchers E mt ps = Inr ms) \<longleftrightarrow>
    mt \<in> {'''', MatchTypeGlob} \<or> (mt = MatchTypeRegexp \<and> (\<forall>p \<in> set ps. \<exists>re. re_compile E p = Inr re))"
proof (cases "mt = MatchTypeRegexp")
  case True
  show ?thesis
  proof (cases "compile_regexps E ps")
    case (Inl e)
    with compile_regexps_error [OF this] True show ?thesis
      by (auto simp: compileMatchers_def) (metis sum.distinct(1))
  next
    case (Inr ms)
    have "\<forall>p \<in> set ps. \<exists>re. re_compile E p = Inr re"
      using Inr by (induction ps arbitrary: ms) (auto split: sum.splits)
    with True Inr show ?thesis by (simp add: compileMatchers_def)
  qed
qed (auto simp: compileMatchers_def)

text \<open>
  C21. A compiled selector matches exactly the names that match some include pattern
  (any pattern of the default include list when none is given) and no exclude pattern.
\<close>

theorem selector_meaning:
  assumes "Compile E mt incl excl = Inr s"
  shows "Match E s name \<longleftrightarrow>
    (\<exists>p \<in> set (if incl = [] then (if mt = MatchTypeRegexp then [''.*''] else [''*'']) else incl).
       pattern_matches E mt p name) \<and>
    \<not> (\<exists>p \<in> set excl. pattern_matches E mt p name)"
proof -
  obtain incl' where incl: "default_include mt incl = Inr incl'"
    and ims: "compileMatchers E mt incl' = Inr (include_ms s)"
    and xms: "compileMatchers E mt excl = Inr (exclude_ms s)"
    using assms by (auto simp: Compile_def split: sum.splits)
  have "incl' = (if incl = [] then (if mt = MatchTypeRegexp then [''.*''] else [''*'']) else incl)"
    using incl by (auto simp: default_include_def split: if_splits)
  then show ?thesis
    using compileMatchers_matches [OF ims] compileMatchers_matches [OF xms]
    by (simp add: Match_def first_match_ex)
qed

text \<open>A regular expression engine for the witnesses: it knows \<open>.*\<close> and plain texts.\<close>

definition ex_regexp :: "string regexp_ops" where
  "ex_regexp = \<lparr>re_compile = (\<lambda>p. if p = ''('' then Inl ''missing closing )'' else Inr p),
     re_match = (\<lambda>re s. re = ''.*'' \<or> re = s), re_string = (\<lambda>re. re)\<rparr>"

theorem selector_meaning_witness:
  "\<not> Match ex_regexp \<lparr>sel_match_type = MatchTypeGlob, include_ms = [GlobMatcher ''*''],
      exclude_ms = [GlobMatcher ''client-*'']\<rparr> ''client-10''"
  by (subst selector_meaning [of ex_regexp MatchTypeGlob "[''*'']" "[''client-*'']"])
    (simp_all add: Compile_def default_include_def compileMatchers_def pattern_matches_def path_match_def)

text \<open>
  \<open>Compile\<close> succeeds exactly when the match type is empty, \<open>Glob\<close> or \<open>Regexp\<close>, and in the
  last case every given pattern is a regular expression the engine accepts (with \<open>.*\<close> for an
  empty include list). A malformed glob is never an error.
\<close>

lemma compile_succeeds:
  "(\<exists>s. Compile E mt incl excl = Inr s) \<longleftrightarrow>
    mt \<in> {'''', MatchTypeGlob} \<or>
    (mt = MatchTypeRegexp \<and>
      (\<forall>p \<in> set (if incl = [] then [''.*''] else incl) \<union> set excl. \<exists>re. re_compile E p = Inr re))"
proof -
  have "(\<exists>s. Compile E mt incl excl = Inr s) \<longleftrightarrow>
      (\<exists>incl'. default_include mt incl = Inr incl' \<and>
        (\<exists>ms. compileMatchers E mt incl' = Inr ms) \<and> (\<exists>ms. compileMatchers E mt excl = Inr ms))"
    by (auto simp: Compile_def split: sum.splits)
  then show ?thesis
    unfolding compileMatchers_total by (auto simp: default_include_def split: if_splits)
qed

text \<open>
  With globs, a selector of plain prefixes (\<open>p*\<close>) and plain names selects exactly the
  names that begin with an included prefix and are not one of the excluded names. The
  match-all default covers every namespace name, since these hold no slash.
\<close>

lemma glob_prefixes_select:
  assumes "Compile E MatchTypeGlob (map (\<lambda>p. p @ ''*'') prefixes) names = Inr s"
    and "list_all plain prefixes" "list_all plain names" "CHR ''/'' \<notin> set name"
  shows "Match E s name \<longleftrightarrow>
    (prefixes = [] \<or> (\<exists>p \<in> set prefixes. \<exists>r. name = p @ r)) \<and> name \<notin> set names"
proof -
  have Compiled: "Match E s name \<longleftrightarrow>
      (\<exists>p \<in> set (if prefixes = [] then [''*''] else map (\<lambda>p. p @ ''*'') prefixes). path_match p name) \<and>
      \<not> (\<exists>p \<in> set names. path_match p name)"
    using assms(1)
    by (auto simp: Compile_def default_include_def compileMatchers_def Match_def first_match_ex split: if_splits) blast+
  have "(\<exists>p \<in> set names. path_match p name) \<longleftrightarrow> name \<in> set names"
    using assms(3) path_match_plain by (auto simp: list_all_iff)
  moreover have "path_match (p @ ''*'') name \<longleftrightarrow> (\<exists>r. name = p @ r)" if "p \<in> set prefixes" for p
    using that assms(2,4) path_match_prefix [of p name] by (auto simp: list_all_iff)
  ultimately show ?thesis
    unfolding Compiled using assms(4) by (simp add: path_match_star)
qed

lemma glob_prefixes_select_witness:
  "\<not> Match ex_regexp \<lparr>sel_match_type = MatchTypeGlob, include_ms = [GlobMatcher ''team-*''],
      exclude_ms = [GlobMatcher ''team-a'']\<rparr> ''team-a''"
  by (subst glob_prefixes_select [where prefixes = "[''team-'']" and names = "[''team-a'']"])
    (simp_all add: Compile_def default_include_def compileMatchers_def plain_def)

text \<open>
  A malformed exclude glob excludes nothing: it compiles, and the selector matches as if
  it had not been written, where the same mistake in a regular expression is an error.
\<close>

lemma malformed_exclude_ignored:
  assumes "parse_glob bad = None" "Compile E MatchTypeGlob incl (bad # excl) = Inr s"
    and "Compile E MatchTypeGlob incl excl = Inr s'"
  shows "Match E s name \<longleftrightarrow> Match E s' name"
  using assms
  by (auto simp: Compile_def compileMatchers_def Match_def path_match_def split: sum.splits)

lemma malformed_exclude_ignored_witness:
  "Match ex_regexp \<lparr>sel_match_type = MatchTypeGlob, include_ms = [GlobMatcher ''*''],
      exclude_ms = [GlobMatcher ''kube-[a'']\<rparr> ''kube-a''"
proof -
  have "parse_glob ''kube-[a'' = None"
    by (simp add: parse_ranges.simps)
  then show ?thesis
    by (subst malformed_exclude_ignored [of "''kube-[a''" ex_regexp "[''*'']" "[]" _
          "\<lparr>sel_match_type = MatchTypeGlob, include_ms = [GlobMatcher ''*''], exclude_ms = []\<rparr>"])
      (simp_all add: Compile_def default_include_def compileMatchers_def Match_def path_match_def)
qed

end
