(* ===== verification/Reconcile.thy ===== *)
theory Reconcile
  imports WorkerPool NsSelector
begin

text \<open>
  \<open>Reconcile\<close> of \<open>internal/controller/inplacepodresize_controller.go\<close> around the worker pool:
  the defaults, the checks that end a run early, the choice of the candidates, the set-up of
  the shared state, and after the pool the summary, the metrics, the conditions and the
  patch of the status. Everything outside the repository is in the records \<open>cluster\<close> (the
  API servers, as functions of a state \<open>'e\<close>) and \<open>reconciler\<close> (the fields of the reconciler
  and the library functions it calls).
\<close>

section \<open>The policy object and the cluster\<close>

record policy_status =
  st_conditions :: "condition list"
  st_observed_generation :: int
  st_last_run :: "time option"
  st_last_cap_check :: "time option"

record ('q, 'l) policy_object =
  po_name :: string
  po_generation :: int
  po_spec :: "('q, 'l) policy_spec"
  po_status :: policy_status

text \<open>
  \<open>cl_list_pods\<close> and \<open>cl_list_metrics\<close> answer an error text or the items; what a failed list
  of pods leaves in the result is the second component. \<open>cl_list_metrics\<close> is \<open>None\<close> when the
  metrics client has no clientset.
\<close>

record ('q, 'l, 's, 'e) cluster =
  cl_world :: "('q, 'e) world"
  cl_get_policy :: "string \<Rightarrow> 'e \<Rightarrow> (api_error + ('q, 'l) policy_object) \<times> 'e"
  cl_discover :: "'e \<Rightarrow> (string + api_resource list) \<times> 'e"
  cl_list_pods :: "'s option \<Rightarrow> 'e \<Rightarrow> (string option \<times> 'q pod list) \<times> 'e"
  cl_list_metrics :: "(string \<Rightarrow> string \<Rightarrow> 'e \<Rightarrow> (string + 'q pod_metrics list) \<times> 'e) option"
  cl_patch_status :: "string \<Rightarrow> policy_status \<Rightarrow> policy_status \<Rightarrow> 'e \<Rightarrow> string option \<times> 'e"

text \<open>
  \<open>rq_label_selector\<close> is \<open>metav1.LabelSelectorAsSelector\<close> and \<open>rq_label_string\<close> its result's
  \<open>String\<close>.
\<close>

record ('q, 'l, 's, 'r) reconciler =
  rq_quantities :: "'q quantity_ops"
  rq_regexps :: "'r regexp_ops"
  rq_label_selector :: "'l \<Rightarrow> string + 's"
  rq_label_string :: "'s \<Rightarrow> string"
  rq_location :: location
  rq_set_condition :: "condition \<Rightarrow> condition list \<Rightarrow> condition list"
  rq_recorder :: bool
  rq_metrics_timeout :: duration
  rq_resize_timeout :: duration
  rq_patch_timeout :: duration

section \<open>Defaults\<close>

definition or_default :: "int \<Rightarrow> int \<Rightarrow> int" where
  "or_default v d = (if v \<le> 0 then d else v)"

record run_limits =
  lim_metrics_timeout :: duration
  lim_resize_timeout :: duration
  lim_patch_timeout :: duration
  lim_interval :: duration
  lim_max_pods :: int
  lim_cap_ttl :: duration

definition run_limits_of :: "('q, 'l, 's, 'r) reconciler \<Rightarrow> 'q timing_spec \<Rightarrow> run_limits" where
  "run_limits_of cfg tm =
     \<lparr>lim_metrics_timeout = or_default (rq_metrics_timeout cfg) (5 * second),
      lim_resize_timeout = or_default (rq_resize_timeout cfg) (10 * second),
      lim_patch_timeout = or_default (rq_patch_timeout cfg) (5 * second),
      lim_interval = or_default (interval tm) minute,
      lim_max_pods = or_default (max_pods_per_run tm) 20,
      lim_cap_ttl = or_default (capability_check_interval tm) hour\<rparr>"

definition concurrent_pods :: "'q timing_spec \<Rightarrow> int \<Rightarrow> int" where
  "concurrent_pods tm maxPods =
     (let n = or_default (max_concurrent_pods tm) 10 in if n > maxPods then maxPods else n)"

section \<open>What a run changes before the pool\<close>

record 'e visit =
  vs_conditions :: "condition list"
  vs_cap_check :: "time option"
  vs_prober :: "prober option"
  vs_calls :: "metric_call list"
  vs_events :: "event list"
  vs_env :: 'e

text \<open>\<open>setCond\<close>; the clock is read when the condition is built.\<close>

definition setCond ::
  "('q, 'l, 's, 'r) reconciler \<Rightarrow> ('q, 'l, 's, 'e) cluster \<Rightarrow> ('q, 'l) policy_object \<Rightarrow>
    string \<Rightarrow> condition_status \<Rightarrow> string \<Rightarrow> string \<Rightarrow> 'e visit \<Rightarrow> 'e visit" where
  "setCond cfg cl obj ty status reason message v =
     (let (now, e) = w_now (cl_world cl) (vs_env v)
      in v\<lparr>vs_env := e,
           vs_conditions := rq_set_condition cfg
             \<lparr>cond_type = ty, cond_status = status, cond_reason = reason, cond_message = message,
              cond_generation = po_generation obj, cond_transition = now\<rparr> (vs_conditions v)\<rparr>)"

section \<open>The checks that end a run early\<close>

text \<open>Every check gives \<open>Inl\<close> when the run ends here, to be repeated after the interval.\<close>

definition check_enabled ::
  "('q, 'l, 's, 'r) reconciler \<Rightarrow> ('q, 'l, 's, 'e) cluster \<Rightarrow> ('q, 'l) policy_object \<Rightarrow>
    'e visit \<Rightarrow> 'e visit + 'e visit" where
  "check_enabled cfg cl obj v =
     (if \<not> enabled (po_spec obj)
      then Inl (setCond cfg cl obj conditionActive ConditionFalse ''Disabled'' ''policy is disabled'' v)
      else Inr (setCond cfg cl obj conditionActive ConditionTrue ''Enabled'' ''policy is enabled'' v))"

fun state_text :: "support_state \<Rightarrow> string" where
  "state_text SupportUnknown = ''Unknown''"
| "state_text SupportSupported = ''Supported''"
| "state_text SupportUnsupported = ''Unsupported''"

fun support_condition :: "support_state \<Rightarrow> condition_status" where
  "support_condition SupportSupported = ConditionTrue"
| "support_condition SupportUnsupported = ConditionFalse"
| "support_condition SupportUnknown = ConditionUnknown"

text \<open>
  The question to the prober. Discovery is asked only when there is no fresh answer and a
  discovery client. Without a resizer the capability is the zero value, which no branch
  takes for supported or unsupported.
\<close>

definition no_capability :: capability where
  "no_capability = \<lparr>cap_state = SupportUnknown, cap_reason = '''', cap_message = '''', cap_checked = zero_time\<rparr>"

definition ask_prober ::
  "('q, 'l, 's, 'e) cluster \<Rightarrow> duration \<Rightarrow> time \<Rightarrow> prober \<Rightarrow> 'e \<Rightarrow> capability \<times> prober \<times> 'e" where
  "ask_prober cl ttl now pr e =
     (let (disc, e') = cl_discover cl e;
          (cap, pr') = Supported ttl now disc pr
      in (cap, pr', if cap_fresh ttl now (cap_checked (cache pr)) \<or> \<not> has_discovery pr then e else e'))"

definition query_support ::
  "('q, 'l, 's, 'r) reconciler \<Rightarrow> ('q, 'l, 's, 'e) cluster \<Rightarrow> ('q, 'l) policy_object \<Rightarrow>
    'e visit \<Rightarrow> capability \<times> 'e visit" where
  "query_support cfg cl obj v =
     (case vs_prober v of
        None \<Rightarrow> (no_capability, v)
      | Some pr \<Rightarrow>
          (let (now, e1) = w_now (cl_world cl) (vs_env v);
               (cap, pr', e2) = ask_prober cl (lim_cap_ttl (run_limits_of cfg (timing (po_spec obj)))) now pr e1;
               v1 = v\<lparr>vs_env := e2, vs_prober := Some pr',
                 vs_calls := vs_calls v @ ObserveCapability (po_name obj) (state_text (cap_state cap)),
                 vs_cap_check := Some (cap_checked cap)\<rparr>
           in (cap, setCond cfg cl obj conditionInPlaceResizeSupport (support_condition (cap_state cap))
                 (cap_reason cap) (cap_message cap) v1)))"

definition unsupported_event :: "('q, 'l) policy_object \<Rightarrow> capability \<Rightarrow> event" where
  "unsupported_event obj cap =
     \<lparr>ev_object = ('''', po_name obj), ev_type = ''Warning'', ev_reason = ''ResizeUnsupported'',
      ev_message = ''In-place resize unsupported: '' @ cap_message cap\<rparr>"

definition check_support ::
  "('q, 'l, 's, 'r) reconciler \<Rightarrow> ('q, 'l, 's, 'e) cluster \<Rightarrow> ('q, 'l) policy_object \<Rightarrow>
    'e visit \<Rightarrow> 'e visit + capability \<times> 'e visit" where
  "check_support cfg cl obj v =
     (let (cap, v1) = query_support cfg cl obj v
      in if cap_state cap = SupportUnsupported
         then Inl (v1\<lparr>vs_events := vs_events v1 @ (if rq_recorder cfg then [unsupported_event obj cap] else [])\<rparr>)
         else Inr (cap, v1))"

definition check_namespaces ::
  "('q, 'l, 's, 'r) reconciler \<Rightarrow> ('q, 'l, 's, 'e) cluster \<Rightarrow> ('q, 'l) policy_object \<Rightarrow>
    'e visit \<Rightarrow> 'e visit + 'r selector" where
  "check_namespaces cfg cl obj v =
     (let ns = ns_selector (po_spec obj)
      in case Compile (rq_regexps cfg) (match_type ns) (sel_include ns) (sel_exclude ns) of
           Inl err \<Rightarrow> Inl (setCond cfg cl obj conditionActive ConditionFalse ''InvalidNamespaceSelector''
             (compile_error_text err) v)
         | Inr sel \<Rightarrow>
             if sel_include ns = [] \<and> pod_selector (po_spec obj) = None
             then Inl (setCond cfg cl obj conditionActive ConditionFalse ''UnsafeConfig''
               ''namespaceSelector.include is empty; set podSelector to limit pods'' v)
             else Inr sel)"

definition check_pod_selector ::
  "('q, 'l, 's, 'r) reconciler \<Rightarrow> ('q, 'l, 's, 'e) cluster \<Rightarrow> ('q, 'l) policy_object \<Rightarrow>
    'e visit \<Rightarrow> 'e visit + 's option" where
  "check_pod_selector cfg cl obj v =
     (case pod_selector (po_spec obj) of
        None \<Rightarrow> Inr None
      | Some l \<Rightarrow>
          (case rq_label_selector cfg l of
             Inl err \<Rightarrow> Inl (setCond cfg cl obj conditionActive ConditionFalse ''InvalidPodSelector'' err v)
           | Inr ls \<Rightarrow> Inr (Some ls)))"

text \<open>All checks in their order.\<close>

record ('s, 'r, 'e) admission =
  ad_cap :: capability
  ad_namespaces :: "'r selector"
  ad_pods :: "'s option"
  ad_visit :: "'e visit"

definition admit ::
  "('q, 'l, 's, 'r) reconciler \<Rightarrow> ('q, 'l, 's, 'e) cluster \<Rightarrow> ('q, 'l) policy_object \<Rightarrow>
    'e visit \<Rightarrow> 'e visit + ('s, 'r, 'e) admission" where
  "admit cfg cl obj v =
     (case check_enabled cfg cl obj v of
        Inl w \<Rightarrow> Inl w
      | Inr v1 \<Rightarrow>
          (case check_support cfg cl obj v1 of
             Inl w \<Rightarrow> Inl w
           | Inr (cap, v2) \<Rightarrow>
               (case check_namespaces cfg cl obj v2 of
                  Inl w \<Rightarrow> Inl w
                | Inr sel \<Rightarrow>
                    (case check_pod_selector cfg cl obj v2 of
                       Inl w \<Rightarrow> Inl w
                     | Inr ls \<Rightarrow> Inr \<lparr>ad_cap = cap, ad_namespaces = sel, ad_pods = ls, ad_visit = v2\<rparr>))))"

section \<open>The candidates\<close>

record 'q selection =
  sn_matched :: nat
  sn_eligible :: nat
  sn_cooldown :: nat
  sn_candidates :: "'q pod list"

definition no_selection :: "'q selection" where
  "no_selection = \<lparr>sn_matched = 0, sn_eligible = 0, sn_cooldown = 0, sn_candidates = []\<rparr>"

text \<open>One listed pod: each filter counts what gets past the one before.\<close>

definition select_pod ::
  "('q, 'l, 's, 'r) reconciler \<Rightarrow> ('q, 'e) world \<Rightarrow> 'r selector \<Rightarrow> duration \<Rightarrow> 'q pod \<Rightarrow>
    'q selection \<times> 'e \<Rightarrow> 'q selection \<times> 'e" where
  "select_pod cfg w sel cd pod x =
     (let (sn, e) = x
      in if \<not> Match (rq_regexps cfg) sel (pod_namespace pod) then (sn, e)
         else let sn1 = sn\<lparr>sn_matched := Suc (sn_matched sn)\<rparr>
              in if \<not> isEligiblePod (Some pod) then (sn1, e)
                 else let sn2 = sn1\<lparr>sn_eligible := Suc (sn_eligible sn1)\<rparr>; (now, e1) = w_now w e
                      in if shouldSkipByCooldown (Some pod) cd now
                         then (sn2\<lparr>sn_cooldown := Suc (sn_cooldown sn2)\<rparr>, e1)
                         else (sn2\<lparr>sn_candidates := sn_candidates sn2 @ [pod]\<rparr>, e1))"

definition select_pods ::
  "('q, 'l, 's, 'r) reconciler \<Rightarrow> ('q, 'e) world \<Rightarrow> 'r selector \<Rightarrow> duration \<Rightarrow> 'q pod list \<Rightarrow> 'e \<Rightarrow>
    'q selection \<times> 'e" where
  "select_pods cfg w sel cd pods e = fold (select_pod cfg w sel cd) pods (no_selection, e)"

text \<open>The distinct matched namespaces, with the map of those already seen.\<close>

primrec count_namespaces ::
  "'r regexp_ops \<Rightarrow> 'r selector \<Rightarrow> 'q pod list \<Rightarrow> string set \<Rightarrow> nat" where
  "count_namespaces E sel [] seen = 0"
| "count_namespaces E sel (p # ps) seen =
     (if Match E sel (pod_namespace p)
      then if pod_namespace p \<notin> seen
           then Suc (count_namespaces E sel ps (insert (pod_namespace p) seen))
           else count_namespaces E sel ps seen
      else count_namespaces E sel ps seen)"

text \<open>
  Listing and selecting. A failed list stops the run, and what it left in the result is
  still looked at.
\<close>

record ('q, 'e) listing =
  ls_failed :: bool
  ls_listed :: nat
  ls_namespaces :: nat
  ls_selection :: "'q selection"
  ls_visit :: "'e visit"

definition list_candidates ::
  "('q, 'l, 's, 'r) reconciler \<Rightarrow> ('q, 'l, 's, 'e) cluster \<Rightarrow> ('q, 'l) policy_object \<Rightarrow>
    ('s, 'r, 'e) admission \<Rightarrow> ('q, 'e) listing" where
  "list_candidates cfg cl obj ad =
     (let v = ad_visit ad; sel = ad_namespaces ad;
          ((err, pods), e1) = cl_list_pods cl (ad_pods ad) (vs_env v);
          (sn, e2) = select_pods cfg (cl_world cl) sel (cooldown (timing (po_spec obj))) pods e1;
          failed = err \<noteq> None
      in \<lparr>ls_failed = failed,
          ls_listed = (if failed then 0 else length pods),
          ls_namespaces = (if failed then sn_matched sn else count_namespaces (rq_regexps cfg) sel pods {}),
          ls_selection = sn,
          ls_visit = v\<lparr>vs_env := e2,
            vs_calls := vs_calls v @ IncAPICall (po_name obj) ''list_pods_clusterwide''\<rparr>\<rparr>)"

section \<open>Pod metrics\<close>

text \<open>\<open>Client.ListPodMetrics\<close> of \<open>internal/metrics/metrics.go\<close>.\<close>

definition ListPodMetrics ::
  "(string \<Rightarrow> string \<Rightarrow> 'e \<Rightarrow> (string + 'q pod_metrics list) \<times> 'e) option \<Rightarrow> string \<Rightarrow> string \<Rightarrow>
    'e \<Rightarrow> (string + 'q pod_metrics list) \<times> 'e" where
  "ListPodMetrics cs ns labels e =
     (case cs of
        None \<Rightarrow> (Inl ''metrics client is not configured'', e)
      | Some list \<Rightarrow> list ns labels e)"

text \<open>The map of the metrics by namespace and name; of two items with one key the later stays.\<close>

definition metrics_map :: "'q pod_metrics list \<Rightarrow> string \<times> string \<Rightarrow> 'q pod_metrics option" where
  "metrics_map items = fold (\<lambda>pm m. m((pm_namespace pm, pm_name pm) \<mapsto> pm)) items (\<lambda>k. None)"

definition collect_metrics ::
  "('q, 'l, 's, 'r) reconciler \<Rightarrow> ('q, 'l, 's, 'e) cluster \<Rightarrow> ('q, 'l) policy_object \<Rightarrow>
    's option \<Rightarrow> ('q, 'e) listing \<Rightarrow> 'q metrics_answer \<times> 'e visit" where
  "collect_metrics cfg cl obj pods_sel li =
     (let v = ls_visit li
      in if \<not> ls_failed li \<and> sn_candidates (ls_selection li) \<noteq> []
         then (let (ans, e) = ListPodMetrics (cl_list_metrics cl) ''''
                     (case pods_sel of None \<Rightarrow> '''' | Some s \<Rightarrow> rq_label_string cfg s) (vs_env v);
                   v1 = v\<lparr>vs_env := e,
                     vs_calls := vs_calls v @ IncAPICall (po_name obj) ''list_pod_metrics_clusterwide''\<rparr>
               in (case ans of Inl err \<Rightarrow> MetricsFailed err | Inr items \<Rightarrow> MetricsListed (metrics_map items), v1))
         else (MetricsNotListed, v))"

section \<open>The shared state of the pool\<close>

definition start_run ::
  "'q quantity_ops \<Rightarrow> 'q timing_spec \<Rightarrow> int \<Rightarrow> bool \<Rightarrow> 'e visit \<Rightarrow> 'e run_state" where
  "start_run Q tm maxPods failed v =
     \<lparr>rs_slots = nat maxPods, rs_budget = newBudgetManager Q tm,
      rs_maxpods_skipped = 0, rs_metrics_errors = 0, rs_metrics_not_found = 0, rs_qos_skipped = 0,
      rs_conflict_skipped = 0, rs_no_change = 0, rs_pending = 0, rs_budget_skipped = 0,
      rs_apply_failed = 0, rs_resized = 0, rs_total_resized = 0, rs_bounded = (0, 0, 0, 0),
      rs_metrics_ok = False, rs_metrics_err = '''', rs_aggs = [], rs_cancelled = False,
      rs_fatal = False, rs_stop_all = failed, rs_prober = vs_prober v,
      rs_conditions = vs_conditions v, rs_last_cap_check = vs_cap_check v, rs_calls = vs_calls v,
      rs_events = vs_events v, rs_env = vs_env v\<rparr>"

definition run_context ::
  "('q, 'l, 's, 'r) reconciler \<Rightarrow> ('q, 'l, 's, 'e) cluster \<Rightarrow> ('q, 'l) policy_object \<Rightarrow> capability \<Rightarrow>
    'q metrics_answer \<Rightarrow> ('q, 'l, 'e) run_ctx" where
  "run_context cfg cl obj cap ans =
     \<lparr>rc_q = rq_quantities cfg, rc_world = cl_world cl, rc_location = rq_location cfg,
      rc_policy = po_name obj, rc_generation = po_generation obj, rc_spec = po_spec obj,
      rc_cap = cap, rc_metrics = ans, rc_recorder = rq_recorder cfg,
      rc_set_condition = rq_set_condition cfg\<rparr>"

text \<open>
  The pool runs when there is something to do; it is left when it is done, in whatever
  order its workers ran.
\<close>

definition pool_outcome ::
  "('q, 'l, 'e) run_ctx \<Rightarrow> 'q pod list \<Rightarrow> int \<Rightarrow> 'e run_state \<Rightarrow> 'e run_state \<Rightarrow> bool" where
  "pool_outcome ctx cands workers st st' \<longleftrightarrow>
     (if \<not> rs_stop_all st \<and> cands \<noteq> [] \<and> 0 < workers
      then (\<exists>n s. pool_steps ctx n (start_pool cands (nat workers) st) s \<and> pool_done s \<and> pl_shared s = st')
      else st' = st)"


section \<open>After the pool\<close>

definition requeue_after :: "duration \<Rightarrow> duration \<Rightarrow> duration" where
  "requeue_after iv elapsed =
     (if 0 < iv \<and> 0 < elapsed then (if iv \<le> elapsed then 0 else iv - elapsed) else iv)"

definition bytesToMi :: "int \<Rightarrow> int" where
  "bytesToMi v = go_quot v (1024 * 1024)"

definition stats_of :: "('q, 'e) listing \<Rightarrow> 'e run_state \<Rightarrow> run_stats" where
  "stats_of li st =
     \<lparr>PodsListed = ls_listed li, PodsEligible = sn_eligible (ls_selection li),
      PodsSkippedCooldown = sn_cooldown (ls_selection li),
      PodsMaxPodsSkipped = rs_maxpods_skipped st, PodsPendingStabilization = rs_pending st,
      PodsBudgetSkipped = rs_budget_skipped st, PodsMetricsNotFound = rs_metrics_not_found st,
      PodsMetricsErrorsOther = rs_metrics_errors st, PodsQoSSkipped = rs_qos_skipped st,
      PodsConflictSkipped = rs_conflict_skipped st, PodsNoChange = rs_no_change st,
      PodsDryRunFailed = 0, PodsApplyFailed = rs_apply_failed st, PodsResized = rs_resized st,
      MetricsOK = rs_metrics_ok st,
      DeltaCPURequestMilli = cpu_request_milli (committedDelta (rs_budget st)),
      DeltaMemoryRequestByte = memory_request_byte (committedDelta (rs_budget st))\<rparr>"

text \<open>The line \<open>Reconcile summary\<close> of the log.\<close>

record summary =
  sm_namespaces :: nat
  sm_stats :: run_stats
  sm_bounded :: "nat \<times> nat \<times> nat \<times> nat"
  sm_delta_mi :: int
  sm_requeue :: duration

definition summary_of :: "('q, 'e) listing \<Rightarrow> 'e run_state \<Rightarrow> duration \<Rightarrow> summary" where
  "summary_of li st requeue =
     \<lparr>sm_namespaces = ls_namespaces li, sm_stats = stats_of li st, sm_bounded = rs_bounded st,
      sm_delta_mi = bytesToMi (memory_request_byte (committedDelta (rs_budget st))),
      sm_requeue = requeue\<rparr>"

text \<open>What the run says of the metrics API.\<close>

definition metrics_verdict :: "'e run_state \<Rightarrow> condition_status \<times> string \<times> string" where
  "metrics_verdict st =
     (if rs_metrics_ok st then (ConditionTrue, ''OK'', ''metrics API available'')
      else if 0 < rs_metrics_errors st then (ConditionFalse, ''Unavailable'', rs_metrics_err st)
      else if 0 < rs_metrics_not_found st then
        (ConditionUnknown, ''PodMetricsNotReady'', ''pod metrics not found yet (fresh pods); will retry'')
      else (ConditionUnknown, ''NoEligiblePods'', ''no eligible pods to query metrics''))"

definition visit_of :: "'e run_state \<Rightarrow> 'e visit" where
  "visit_of st =
     \<lparr>vs_conditions = rs_conditions st, vs_cap_check = rs_last_cap_check st, vs_prober = rs_prober st,
      vs_calls = rs_calls st, vs_events = rs_events st, vs_env = rs_env st\<rparr>"

text \<open>
  The end of a run. \<open>aggs\<close> are the aggregates in the order in which the map is walked; \<open>real\<close>
  is the elapsed time and \<open>unix\<close> the second that \<open>ObserveRun\<close> reads from the system's clock.
\<close>

definition finish_run ::
  "('q, 'l, 's, 'r) reconciler \<Rightarrow> ('q, 'l, 's, 'e) cluster \<Rightarrow> ('q, 'l) policy_object \<Rightarrow> time \<Rightarrow>
    ('q, 'e) listing \<Rightarrow> 'e run_state \<Rightarrow> ns_agg smap \<Rightarrow> duration \<Rightarrow> int \<Rightarrow> summary \<times> 'e visit" where
  "finish_run cfg cl obj started li st aggs real unix =
     (let v = visit_of st;
          (now, e) = w_now (cl_world cl) (vs_env v);
          requeue = requeue_after (lim_interval (run_limits_of cfg (timing (po_spec obj)))) (time_sub now started);
          v1 = v\<lparr>vs_env := e,
            vs_calls := vs_calls v @ ObserveRun (po_name obj) real unix (stats_of li st) @
              concat (map (\<lambda>(ns, a). ObserveNamespace (po_name obj) ns (agg_resized a) (agg_cpu a) (agg_mem a)) aggs)\<rparr>;
          (status, reason, message) = metrics_verdict st
      in (summary_of li st requeue, setCond cfg cl obj conditionMetricsAvailable status reason message v1))"

section \<open>The whole of \<open>Reconcile\<close>\<close>

text \<open>The deferred report of the status.\<close>

definition reported :: "('q, 'l) policy_object \<Rightarrow> 'e visit \<Rightarrow> time \<Rightarrow> policy_status" where
  "reported obj v now =
     \<lparr>st_conditions = vs_conditions v, st_observed_generation = po_generation obj,
      st_last_run = Some now, st_last_cap_check = vs_cap_check v\<rparr>"

text \<open>
  The outcome: the result (an error, or the requested delay, \<open>0\<close> for none), the status
  written, the summary, and what is left of the prober, the metrics, the events and the
  cluster.
\<close>

record 'e outcome =
  oc_result :: "api_error + duration"
  oc_status :: "policy_status option"
  oc_summary :: "summary option"
  oc_prober :: "prober option"
  oc_calls :: "metric_call list"
  oc_events :: "event list"
  oc_env :: 'e

definition leave ::
  "('q, 'l, 's, 'e) cluster \<Rightarrow> ('q, 'l) policy_object \<Rightarrow> duration \<Rightarrow> summary option \<Rightarrow> 'e visit \<Rightarrow> 'e outcome" where
  "leave cl obj requeue sm v =
     (let (now, e1) = w_now (cl_world cl) (vs_env v);
          (err, e2) = cl_patch_status cl (po_name obj) (po_status obj) (reported obj v now) e1
      in \<lparr>oc_result = Inr requeue, oc_status = Some (reported obj v now), oc_summary = sm,
          oc_prober = vs_prober v, oc_calls = vs_calls v, oc_events = vs_events v, oc_env = e2\<rparr>)"

definition nothing_done :: "api_error + duration \<Rightarrow> prober option \<Rightarrow> 'e \<Rightarrow> 'e outcome" where
  "nothing_done r pr e =
     \<lparr>oc_result = r, oc_status = None, oc_summary = None, oc_prober = pr, oc_calls = [], oc_events = [], oc_env = e\<rparr>"

definition first_visit :: "('q, 'l) policy_object \<Rightarrow> prober option \<Rightarrow> 'e \<Rightarrow> 'e visit" where
  "first_visit obj pr e =
     \<lparr>vs_conditions = st_conditions (po_status obj), vs_cap_check = st_last_cap_check (po_status obj),
      vs_prober = pr, vs_calls = InitPolicyMetrics (po_name obj), vs_events = [], vs_env = e\<rparr>"

text \<open>The run of an admitted policy up to the pool.\<close>

definition prepare ::
  "('q, 'l, 's, 'r) reconciler \<Rightarrow> ('q, 'l, 's, 'e) cluster \<Rightarrow> ('q, 'l) policy_object \<Rightarrow>
    ('s, 'r, 'e) admission \<Rightarrow> ('q, 'e) listing \<times> ('q, 'l, 'e) run_ctx \<times> 'e run_state" where
  "prepare cfg cl obj ad =
     (let tm = timing (po_spec obj);
          maxPods = lim_max_pods (run_limits_of cfg tm);
          li = list_candidates cfg cl obj ad;
          (ans, v) = collect_metrics cfg cl obj (ad_pods ad) li
      in (li, run_context cfg cl obj (ad_cap ad) ans,
          start_run (rq_quantities cfg) tm maxPods (ls_failed li) v))"

definition run_workers :: "('q, 'l, 's, 'r) reconciler \<Rightarrow> ('q, 'l) policy_object \<Rightarrow> int" where
  "run_workers cfg obj =
     (let tm = timing (po_spec obj) in concurrent_pods tm (lim_max_pods (run_limits_of cfg tm)))"

inductive reconcile ::
  "('q, 'l, 's, 'r) reconciler \<Rightarrow> ('q, 'l, 's, 'e) cluster \<Rightarrow> string \<Rightarrow> prober option \<Rightarrow> 'e \<Rightarrow>
    'e outcome \<Rightarrow> bool"
  for cfg cl name pr e where
  missing: "w_now (cl_world cl) e = (started, e1) \<Longrightarrow> cl_get_policy cl name e1 = (Inl err, e2) \<Longrightarrow>
    err_not_found err \<Longrightarrow> reconcile cfg cl name pr e (nothing_done (Inr 0) pr e2)"
| failed: "w_now (cl_world cl) e = (started, e1) \<Longrightarrow> cl_get_policy cl name e1 = (Inl err, e2) \<Longrightarrow>
    \<not> err_not_found err \<Longrightarrow> reconcile cfg cl name pr e (nothing_done (Inl err) pr e2)"
| early: "w_now (cl_world cl) e = (started, e1) \<Longrightarrow> cl_get_policy cl name e1 = (Inr obj, e2) \<Longrightarrow>
    admit cfg cl obj (first_visit obj pr e2) = Inl v \<Longrightarrow>
    reconcile cfg cl name pr e (leave cl obj (lim_interval (run_limits_of cfg (timing (po_spec obj)))) None v)"
| ran: "w_now (cl_world cl) e = (started, e1) \<Longrightarrow> cl_get_policy cl name e1 = (Inr obj, e2) \<Longrightarrow>
    admit cfg cl obj (first_visit obj pr e2) = Inr ad \<Longrightarrow> prepare cfg cl obj ad = (li, ctx, st0) \<Longrightarrow>
    pool_outcome ctx (sn_candidates (ls_selection li)) (run_workers cfg obj) st0 st \<Longrightarrow>
    mset aggs = mset (rs_aggs st) \<Longrightarrow> finish_run cfg cl obj started li st aggs real unix = (sm, v) \<Longrightarrow>
    reconcile cfg cl name pr e (leave cl obj (sm_requeue sm) (Some sm) v)"

inductive_cases reconcileE: "reconcile cfg cl name pr e oc"

end
