(* ===== verification/WorkerSerial.thy ===== *)
theory WorkerSerial
  imports WorkerPool Examples
begin

text \<open>
  The pool with a single worker is the sequential program: it handles the candidates one
  after the other with \<open>processOne\<close>. This is the specification that the interleaved pool
  refines when \<open>maxConcurrentPods\<close> is 1, and it shows that cutting \<open>processOne\<close> into segments
  changes nothing. Also what a cancelled run does: nothing more.
\<close>

section \<open>Running to the end\<close>

lemma advance_rank: "rank (fst ((advance ctx p ^^ n) x)) \<le> max 1 (rank (fst x) - n)"
proof (induction n)
  case 0
  then show ?case by simp
next
  case (Suc n)
  obtain ph st where x: "(advance ctx p ^^ n) x = (ph, st)" by force
  show ?case
  proof (cases "ph = Finished")
    case True
    with x show ?thesis by simp
  next
    case False
    obtain ph' st' where "advance ctx p (ph, st) = (ph', st')" by force
    with advance_slots(3) [OF this False] Suc.IH x show ?thesis by simp
  qed
qed

lemma rank_1: "rank ph \<le> 1 \<longleftrightarrow> ph = Finished"
  by (cases ph) simp_all

lemma advance_finishes: "fst ((advance ctx p ^^ 9) (ph, st)) = Finished"
proof -
  have "rank ph \<le> 10" by (cases ph) simp_all
  with advance_rank [of 9 ctx p "(ph, st)"] have "rank (fst ((advance ctx p ^^ 9) (ph, st))) \<le> 1"
    by simp
  then show ?thesis by (simp only: rank_1)
qed

text \<open>The shared state once the worker has finished the pod it is at.\<close>

definition finish :: "('q, 'l, 'e) run_ctx \<Rightarrow> ('q pod \<times> 'q phase) option \<Rightarrow> 'e run_state \<Rightarrow> 'e run_state" where
  "finish ctx w st = (case w of None \<Rightarrow> st | Some (p, ph) \<Rightarrow> snd ((advance ctx p ^^ 9) (ph, st)))"

lemma finish_advance:
  assumes "advance ctx p (ph, st) = (ph', st')"
  shows "finish ctx (Some (p, ph')) st' = finish ctx (Some (p, ph)) st"
proof -
  let ?x = "(advance ctx p ^^ 9) (ph, st)"
  have "(advance ctx p ^^ 9) (ph', st') = (advance ctx p ^^ Suc 9) (ph, st)"
    using assms by (simp only: funpow_Suc_right comp_apply)
  also have "\<dots> = advance ctx p ?x" by (simp only: funpow.simps comp_apply)
  also have "\<dots> = ?x"
    using advance_finishes [of ctx p ph st] by (metis advance.simps(14) prod.collapse)
  finally show ?thesis by (simp add: finish_def)
qed

lemma funpow_advance_Finished: "(advance ctx p ^^ n) (Finished, st) = (Finished, st)"
  by (induction n) simp_all

lemma finish_simps:
  "finish ctx None st = st"
  "finish ctx (Some (p, Finished)) st = st"
  "finish ctx (Some (p, Fresh)) st = processOne ctx p st"
  by (simp_all add: finish_def processOne_def funpow_advance_Finished)

section \<open>Cancelled runs\<close>

lemma processOne_cancelled: "rs_cancelled st \<Longrightarrow> processOne ctx p st = st"
  by (simp add: processOne_def numeral_eq_Suc funpow_Suc_right begin_pod_def del: funpow.simps)

lemma fold_cancelled: "rs_cancelled st \<Longrightarrow> fold (processOne ctx) ps st = st"
  by (induction ps) (simp_all add: processOne_cancelled)

lemma finish_cancelled: "rs_cancelled st \<Longrightarrow> rs_cancelled (finish ctx w st)"
proof -
  have "rs_cancelled (snd x) \<Longrightarrow> rs_cancelled (snd ((advance ctx p ^^ n) x))" for n p x
  proof (induction n)
    case (Suc n)
    then show ?case
      using advance_cancelled [of ctx p "fst ((advance ctx p ^^ n) x)" "snd ((advance ctx p ^^ n) x)"]
      by (metis comp_apply funpow.simps(2) prod.collapse)
  qed simp
  then show "rs_cancelled st \<Longrightarrow> rs_cancelled (finish ctx w st)"
    by (simp add: finish_def split: option.splits prod.splits)
qed

section \<open>One worker\<close>

text \<open>The outcome that the sequential program would have from here on.\<close>

definition serial_outcome :: "('q, 'l, 'e) run_ctx \<Rightarrow> ('q, 'e) pool \<Rightarrow> 'e run_state" where
  "serial_outcome ctx s = fold (processOne ctx) (pl_queue s) (finish ctx (pl_workers s ! 0) (pl_shared s))"

lemma serial_step:
  assumes "pool_step ctx s s'" "length (pl_workers s) = 1"
  shows "serial_outcome ctx s' = serial_outcome ctx s"
  using assms
proof cases
  case (take i p ps)
  with assms(2) show ?thesis by (simp add: serial_outcome_def finish_simps)
next
  case stop
  then have "rs_cancelled (finish ctx (pl_workers s ! 0) (pl_shared s))"
    by (simp add: finish_cancelled)
  with stop show ?thesis by (simp add: serial_outcome_def fold_cancelled)
next
  case (work i p ph ph' st')
  with assms(2) finish_advance [OF work(5)] show ?thesis by (simp add: serial_outcome_def)
next
  case (rest i p)
  with assms(2) show ?thesis by (simp add: serial_outcome_def finish_simps)
qed

lemma serial_steps:
  assumes "pool_steps ctx n s s'" "length (pl_workers s) = 1"
  shows "serial_outcome ctx s' = serial_outcome ctx s \<and> length (pl_workers s') = 1"
  using assms
proof induction
  case (more n s s' s'')
  moreover have "length (pl_workers s'') = length (pl_workers s')"
    using more(2) by cases simp_all
  ultimately show ?case
    using serial_step [OF more(2)] by simp
qed simp

text \<open>
  C14. With one worker every finished run of the pool ends in the state in which the
  sequential program ends that handles the candidates in their order.
\<close>

theorem single_worker_is_sequential:
  assumes "pool_steps ctx n (start_pool cands 1 st0) s" "pool_done s"
  shows "pl_shared s = fold (processOne ctx) cands st0"
proof -
  have len: "length (pl_workers (start_pool cands 1 st0)) = 1"
    by (simp add: start_pool_def)
  have "serial_outcome ctx s = serial_outcome ctx (start_pool cands 1 st0)" "length (pl_workers s) = 1"
    using serial_steps [OF assms(1) len] by simp_all
  with assms(2) show ?thesis
    by (simp add: serial_outcome_def start_pool_def finish_simps pool_done_def list_all_length)
qed

inductive_cases pool_steps_0E: "pool_steps ctx 0 s s'"
inductive_cases pool_steps_SucE: "pool_steps ctx (Suc n) s s'"

text \<open>Such a run exists: the one that never stops early.\<close>

lemma steps_trans: "pool_steps ctx n s s' \<Longrightarrow> pool_steps ctx m s' s'' \<Longrightarrow> pool_steps ctx (n + m) s s''"
  by (induction m arbitrary: s'') (auto elim!: pool_steps_0E pool_steps_SucE intro: pool_steps.more)

lemma work_off:
  "\<exists>n. pool_steps ctx n \<lparr>pl_queue = q, pl_workers = [Some (p, ph)], pl_shared = st\<rparr>
    \<lparr>pl_queue = q, pl_workers = [None], pl_shared = finish ctx (Some (p, ph)) st\<rparr>"
proof (induction "rank ph" arbitrary: ph st rule: less_induct)
  case less
  let ?s = "\<lparr>pl_queue = q, pl_workers = [Some (p, ph)], pl_shared = st\<rparr>"
  show ?case
  proof (cases "ph = Finished")
    case True
    then show ?thesis
      using pool_steps.more [OF pool_steps.none pool_step.rest [of 0 ?s p ctx]] by (auto simp: finish_simps)
  next
    case False
    obtain ph' st' where a: "advance ctx p (ph, st) = (ph', st')" by force
    have "pool_steps ctx 1 ?s \<lparr>pl_queue = q, pl_workers = [Some (p, ph')], pl_shared = st'\<rparr>"
      using pool_steps.more [OF pool_steps.none pool_step.work [of 0 ?s p ph ctx ph' st']] False a by simp
    moreover obtain n where "pool_steps ctx n \<lparr>pl_queue = q, pl_workers = [Some (p, ph')], pl_shared = st'\<rparr>
        \<lparr>pl_queue = q, pl_workers = [None], pl_shared = finish ctx (Some (p, ph)) st\<rparr>"
      using less [OF advance_slots(3) [OF a False], of st'] finish_advance [OF a] by auto
    ultimately show ?thesis
      using steps_trans by blast
  qed
qed

lemma serial_run:
  "\<exists>n. pool_steps ctx n (start_pool cands 1 st) \<lparr>pl_queue = [], pl_workers = [None], pl_shared = fold (processOne ctx) cands st\<rparr>"
proof (induction cands arbitrary: st)
  case Nil
  then show ?case using pool_steps.none [of ctx "start_pool [] 1 st"] by (auto simp: start_pool_def)
next
  case (Cons p ps)
  let ?s = "start_pool (p # ps) 1 st"
  have "pool_steps ctx 1 ?s \<lparr>pl_queue = ps, pl_workers = [Some (p, Fresh)], pl_shared = st\<rparr>"
    using pool_steps.more [OF pool_steps.none pool_step.take [of 0 ?s p ps ctx]] by (simp add: start_pool_def)
  moreover obtain m where "pool_steps ctx m \<lparr>pl_queue = ps, pl_workers = [Some (p, Fresh)], pl_shared = st\<rparr>
      (start_pool ps 1 (processOne ctx p st))"
    using work_off [of ctx ps p Fresh st] by (auto simp: start_pool_def finish_simps)
  moreover obtain k where "pool_steps ctx k (start_pool ps 1 (processOne ctx p st))
      \<lparr>pl_queue = [], pl_workers = [None], pl_shared = fold (processOne ctx) ps (processOne ctx p st)\<rparr>"
    using Cons.IH by blast
  ultimately show ?case
    using steps_trans by (metis (no_types, lifting) comp_apply fold_simps(2))
qed

end
