(* ===== verification/PodStateProps.thy ===== *)
theory PodStateProps
  imports PodState
begin

text \<open>
  What the annotations achieve over several runs: the cooldown after a resize, and the
  stabilisation window as a protocol. A history lists the runs that wanted to resize the
  pod, newest first: the instant, the hash that was computed, and whether the resize was
  allowed.
\<close>

section \<open>Decisions in terms of the annotations\<close>

lemma stabilizationAllows_iff:
  "stabilizationAllows (Some pod) h w now \<longleftrightarrow>
    w \<le> 0 \<or>
    (annotations pod \<noteq> None \<and> anns_get (annotations pod) annotationLastAppliedHash \<noteq> h \<and>
     anns_get (annotations pod) annotationPendingHash = h \<and>
     anns_get (annotations pod) annotationPendingSince \<noteq> '''' \<and>
     (\<exists>ts. parseTime (anns_get (annotations pod) annotationPendingSince) = Some ts \<and> w \<le> time_sub now ts))"
  by (auto simp: stabilizationAllows_def anns_get_def Let_def split: option.splits)

lemma shouldSkipByCooldown_iff:
  "shouldSkipByCooldown (Some pod) cd now \<longleftrightarrow>
    0 < cd \<and> anns_get (annotations pod) annotationLastResizeTime \<noteq> '''' \<and>
    (\<exists>t. parseTime (anns_get (annotations pod) annotationLastResizeTime) = Some t \<and> time_sub now t < cd)"
  by (auto simp: shouldSkipByCooldown_def anns_get_def ann_get_def split: option.splits)

lemma time_sub_window: "0 < w \<Longrightarrow> w \<le> time_sub t u \<Longrightarrow> w \<le> t - u"
  by (auto simp: time_sub_def)

lemma anns_get_applied:
  "anns_get (merge_patch (patch_of (applied_patch loc h t)) a) annotationLastResizeTime = formatTime loc t"
  "anns_get (merge_patch (patch_of (applied_patch loc h t)) a) annotationLastAppliedHash = h"
  "anns_get (merge_patch (patch_of (applied_patch loc h t)) a) annotationPendingHash = ''''"
  by (simp_all add: anns_get_merge applied_patch_def)

text \<open>
  C17. A pod whose annotations were patched after a resize at \<open>t\<close> is skipped by a positive
  cooldown exactly until the cooldown has passed since \<open>t\<close>.
\<close>

theorem cooldown_after_resize:
  assumes "writable loc t" "0 < cd" "in_i64 cd"
    and "annotations pod = merge_patch (patch_of (applied_patch loc h t)) a"
  shows "shouldSkipByCooldown (Some pod) cd now \<longleftrightarrow> now - t < cd"
  using assms(2,3) parse_written [OF assms(1)] formatTime_nonempty [OF assms(1)]
  by (simp add: shouldSkipByCooldown_iff assms(4) anns_get_applied time_sub_less)

text \<open>
  C16. What \<open>formatTime\<close> writes is read back as the same instant, to the nanosecond, in every
  location and for every instant that can be written; two locations never write the same
  text for different instants.
\<close>

theorem time_round_trip:
  assumes "writable loc t"
  shows "parseTime (formatTime loc t) = Some t \<and>
    (\<forall>loc' t'. writable loc' t' \<and> formatTime loc' t' = formatTime loc t \<longrightarrow> t' = t)"
  using parse_written [OF assms] parse_written by (metis option.inject)

section \<open>The stabilisation protocol\<close>

text \<open>The annotations after \<open>ensurePending\<close> has been carried out.\<close>

definition after_pending :: "location \<Rightarrow> string smap option \<Rightarrow> string \<Rightarrow> time \<Rightarrow> string smap option" where
  "after_pending loc a h t =
     (let m = pending_patch loc a h t in if m = [] then a else merge_patch (patch_of m) a)"

text \<open>
  The runs for one pod whose annotations nobody else writes. The patch after a resize may
  fail; the patch of a pending hash does not (a run whose patch fails leaves an older pending
  hash in place).
\<close>

inductive stab_run ::
  "location \<Rightarrow> duration \<Rightarrow> 'q pod \<Rightarrow> (time \<times> string \<times> bool) list \<Rightarrow> string smap option \<Rightarrow> bool"
  for loc w pod where
  start: "stab_run loc w pod [] (annotations pod)"
| wait: "stab_run loc w pod H a \<Longrightarrow> writable loc t \<Longrightarrow> h \<noteq> '''' \<Longrightarrow>
    \<not> stabilizationAllows (Some (pod\<lparr>annotations := a\<rparr>)) h w t \<Longrightarrow>
    stab_run loc w pod ((t, h, False) # H) (after_pending loc a h t)"
| resize: "stab_run loc w pod H a \<Longrightarrow> h \<noteq> '''' \<Longrightarrow>
    stabilizationAllows (Some (pod\<lparr>annotations := a\<rparr>)) h w t \<Longrightarrow>
    a' = a \<or> a' = merge_patch (patch_of (applied_patch loc h t)) a \<Longrightarrow>
    stab_run loc w pod ((t, h, True) # H) a'"

inductive_cases stab_run_ConsE: "stab_run loc w pod (x # H) a"

lemma pending_patch_anns:
  "pending_patch loc a h t =
    (if anns_get a annotationPendingHash \<noteq> h
     then [(annotationPendingHash, h), (annotationPendingSince, formatTime loc t)]
     else if anns_get a annotationPendingSince = '''' then [(annotationPendingSince, formatTime loc t)]
     else [])"
  by (simp add: pending_patch_def anns_get_def)

lemma after_pending_cases:
  "after_pending loc a h t =
    (if anns_get a annotationPendingHash \<noteq> h
     then merge_patch (patch_of [(annotationPendingHash, h), (annotationPendingSince, formatTime loc t)]) a
     else if anns_get a annotationPendingSince = ''''
     then merge_patch (patch_of [(annotationPendingSince, formatTime loc t)]) a
     else a)"
  unfolding after_pending_def pending_patch_anns by simp

lemma after_pending_get:
  shows "anns_get (after_pending loc a h t) annotationPendingHash = h"
    and "anns_get (after_pending loc a h t) annotationPendingSince =
      (if anns_get a annotationPendingHash = h \<and> anns_get a annotationPendingSince \<noteq> ''''
       then anns_get a annotationPendingSince else formatTime loc t)"
    and "anns_get (after_pending loc a h t) annotationLastAppliedHash = anns_get a annotationLastAppliedHash"
  by (simp_all add: after_pending_cases anns_get_merge)

text \<open>
  A pending hash was computed by the run that wrote its instant and by every run since.
\<close>

definition pending_since :: "location \<Rightarrow> (time \<times> string \<times> bool) list \<Rightarrow> string \<Rightarrow> string \<Rightarrow> bool" where
  "pending_since loc H h since \<longleftrightarrow>
     (\<exists>H1 t0 b H2. H = H1 @ (t0, h, b) # H2 \<and> since = formatTime loc t0 \<and> writable loc t0 \<and>
        list_all (\<lambda>(t, h', b). h' = h) H1)"

lemma pending_since_here: "writable loc t \<Longrightarrow> pending_since loc ((t, h, b) # H) h (formatTime loc t)"
  unfolding pending_since_def by (metis append_Nil list.pred_inject(1))

lemma pending_since_Cons: "pending_since loc H h since \<Longrightarrow> pending_since loc ((t, h, b) # H) h since"
  unfolding pending_since_def
proof (elim exE conjE)
  fix H1 t0 b' H2
  assume "H = H1 @ (t0, h, b') # H2" "since = formatTime loc t0" "writable loc t0" "list_all (\<lambda>(t, h', b). h' = h) H1"
  then show "\<exists>H1 t0 b' H2. (t, h, b) # H = H1 @ (t0, h, b') # H2 \<and> since = formatTime loc t0 \<and> writable loc t0 \<and>
      list_all (\<lambda>(t, h', b). h' = h) H1"
    by (intro exI [of _ "(t, h, b) # H1"] exI [of _ t0] exI [of _ b'] exI [of _ H2]) simp
qed

lemma stab_run_pending:
  assumes "stab_run loc w pod H a" "0 < w" "anns_get (annotations pod) annotationPendingHash = ''''"
    and "anns_get a annotationPendingHash \<noteq> ''''" "anns_get a annotationPendingSince \<noteq> ''''"
  shows "pending_since loc H (anns_get a annotationPendingHash) (anns_get a annotationPendingSince)"
  using assms(1,4,5)
proof induction
  case start
  with assms(3) show ?case by simp
next
  case (wait H a t h)
  then show ?case
    by (cases "anns_get a annotationPendingHash = h \<and> anns_get a annotationPendingSince \<noteq> ''''")
      (auto simp: after_pending_get pending_since_here intro: pending_since_Cons)
next
  case (resize H a h t a')
  then have h: "anns_get a annotationPendingHash = h"
    using assms(2) by (simp add: stabilizationAllows_iff)
  with resize show ?case
    by (auto simp: anns_get_applied intro: pending_since_Cons)
qed


text \<open>
  A target that was applied is not applied again, whatever happened to the pod in the
  meantime, unless another target is applied first: with a positive window, if only resizes
  to the last applied hash take place, none takes place.
\<close>

lemma applied_hash_not_reapplied:
  assumes "0 < w" "anns_get (annotations pod) annotationLastAppliedHash = h"
    and "stab_run loc w pod H a" "list_all (\<lambda>(t, h', b). b \<longrightarrow> h' = h) H"
  shows "list_all (\<lambda>(t, h', b). \<not> b) H"
proof -
  have "list_all (\<lambda>(t, h', b). \<not> b) H \<and> anns_get a annotationLastAppliedHash = h"
    using assms(3,4)
  proof induction
    case start
    with assms(2) show ?case by simp
  next
    case (wait H a t h')
    then show ?case by (simp add: after_pending_get)
  next
    case (resize H a h' t a')
    with assms(1) show ?case by (auto simp: stabilizationAllows_iff)
  qed
  then show ?thesis by simp
qed

text \<open>
  An instant that cannot be read is never replaced as long as the target stays the same:
  \<open>ensurePending\<close> looks only whether the text is empty, so the pod is neither resized nor
  given a new instant.
\<close>

lemma unreadable_since_stuck:
  assumes "0 < w" "anns_get (annotations pod) annotationPendingHash = h"
    and "anns_get (annotations pod) annotationPendingSince = s" "s \<noteq> ''''" "parseTime s = None"
  shows "\<not> stabilizationAllows (Some pod) h w now"
    and "after_pending loc (annotations pod) h now = annotations pod"
  using assms by (simp_all add: stabilizationAllows_iff after_pending_cases)

text \<open>Such a text is, for example, a date without a time.\<close>

lemma unreadable_since_example: "parseTime ''2026-01-01'' = None"
  by code_simp

section \<open>Witnesses\<close>

definition ex_location :: location where
  "ex_location = Some (\<lambda>s. 18000)"

lemma ex_range: "writable ex_location 0"
  by (simp add: writable_def offset_at_def ex_location_def)

definition ex_state_pod :: "string smap option \<Rightarrow> int pod" where
  "ex_state_pod a = \<lparr>pod_name = ''web'', pod_namespace = ''default'', pod_uid = ''u'', resource_version = ''1'',
     annotations = a, deletion_timestamp = None, phase = ''Running'', node_name = ''n1'',
     init_containers = [], containers = []\<rparr>"

theorem time_round_trip_witness:
  "parseTime (formatTime ex_location 0) = Some 0 \<and> formatTime ex_location 0 = ''1970-01-01T05:00:00+05:00''"
proof -
  have "formatTime ex_location 0 = ''1970-01-01T05:00:00+05:00''" by code_simp
  with time_round_trip [OF ex_range] show ?thesis by simp
qed

theorem cooldown_after_resize_witness:
  "shouldSkipByCooldown
     (Some (ex_state_pod (merge_patch (patch_of (applied_patch ex_location ''h'' 0)) None))) (10 * minute) (5 * minute)"
  by (subst cooldown_after_resize [OF ex_range]) (simp_all add: ex_state_pod_def in_i64_def)


lemma applied_hash_not_reapplied_witness:
  "list_all (\<lambda>(t, h', b). \<not> b) [(0 :: time, ''h'', False)]"
proof (rule applied_hash_not_reapplied)
  let ?p = "ex_state_pod (Some [(annotationLastAppliedHash, ''h'')])"
  show "anns_get (annotations ?p) annotationLastAppliedHash = ''h''"
    by (simp add: ex_state_pod_def anns_get_def ann_get_def)
  then show "stab_run ex_location minute ?p [(0, ''h'', False)] (after_pending ex_location (annotations ?p) ''h'' 0)"
    by (intro stab_run.wait stab_run.start) (simp_all add: ex_range stabilizationAllows_iff)
qed simp_all

end
