(* ===== verification/WorkerExamples.thy ===== *)
theory WorkerExamples
  imports WorkerSerial PodStateProps
begin

text \<open>
  A run for the witnesses: one candidate, a cluster that answers every call with success, no
  stabilisation window, one worker, a budget of 100m and two slots.
\<close>

definition ex_run_timing :: "int timing_spec" where
  "ex_run_timing = ex_timing\<lparr>stabilization_window := 0, max_concurrent_pods := 1, max_total_cpu_increase := Some (milli 100)\<rparr>"

definition ex_run_spec :: "(int, unit) policy_spec" where
  "ex_run_spec = (ex_spec False ex_bounds)\<lparr>timing := ex_run_timing\<rparr>"

definition ex_world :: "(int, nat) world" where
  "ex_world = \<lparr>w_now = (\<lambda>e. (0, e)), w_update_resize = (\<lambda>ns name d e. (Inr d, Suc e)),
     w_get_fresh = (\<lambda>ns name e. (Inl (plain_error ''gone''), e)),
     w_patch_pod = (\<lambda>ns name m e. (None, Suc e))\<rparr>"

definition ex_candidate :: "int pod" where
  "ex_candidate = ex_pod [ex_app (milli 100) (mebi 128), ex_side]"

definition ex_cap :: capability where
  "ex_cap = \<lparr>cap_state = SupportSupported, cap_reason = ''Discovered'', cap_message = '''', cap_checked = 0\<rparr>"

definition ex_ctx :: "(int, unit, nat) run_ctx" where
  "ex_ctx = \<lparr>rc_q = nano_ops, rc_world = ex_world, rc_location = ex_location, rc_policy = ''p'',
     rc_generation = 1, rc_spec = ex_run_spec, rc_cap = ex_cap,
     rc_metrics = MetricsListed (\<lambda>k. if k = (''ns'', ''p'') then Some (ex_metrics (milli 101) (mebi 200)) else None),
     rc_recorder = True, rc_set_condition = (\<lambda>c cs. c # cs)\<rparr>"

definition ex_start :: "nat run_state" where
  "ex_start = \<lparr>rs_slots = 2, rs_budget = newBudgetManager nano_ops ex_run_timing,
     rs_maxpods_skipped = 0, rs_metrics_errors = 0, rs_metrics_not_found = 0, rs_qos_skipped = 0,
     rs_conflict_skipped = 0, rs_no_change = 0, rs_pending = 0, rs_budget_skipped = 0,
     rs_apply_failed = 0, rs_resized = 0, rs_total_resized = 0, rs_bounded = (0, 0, 0, 0),
     rs_metrics_ok = False, rs_metrics_err = '''', rs_aggs = [], rs_cancelled = False,
     rs_fatal = False, rs_stop_all = False, rs_prober = Some (NewProber True True),
     rs_conditions = [], rs_last_cap_check = None, rs_calls = [], rs_events = [], rs_env = 0\<rparr>"

lemma ex_ctx_fields [simp]:
  "rc_q ex_ctx = nano_ops" "rc_world ex_ctx = ex_world" "rc_location ex_ctx = ex_location"
  "rc_spec ex_ctx = ex_run_spec" "rc_cap ex_ctx = ex_cap" "cap_state ex_cap = SupportSupported"
  "rc_metrics ex_ctx =
    MetricsListed (\<lambda>k. if k = (''ns'', ''p'') then Some (ex_metrics (milli 101) (mebi 200)) else None)"
  "stabilization_window (timing ex_run_spec) = 0"
  by (simp_all add: ex_ctx_def ex_cap_def ex_run_spec_def ex_run_timing_def)

lemma ex_world_fields [simp]:
  "w_now ex_world e = (0, e)" "w_update_resize ex_world ns name d e = (Inr d, Suc e)"
  "w_patch_pod ex_world ns name m e = (None, Suc e)"
  by (simp_all add: ex_world_def)

lemma ex_candidate_fields [simp]: "pod_name ex_candidate = ''p''" "pod_namespace ex_candidate = ''ns''"
  by (simp_all add: ex_candidate_def ex_pod_def)

lemma ex_result_fields [simp]:
  "changed ex_result" "desired ex_result = Some ex_desired"
  "res_delta ex_result = \<lparr>cpu_request_milli = 50, memory_request_byte = 134217728\<rparr>"
  by (simp_all add: ex_result_def)

lemma ex_run_compute:
  "ComputeDesired nano_ops (Some ex_candidate) (Some (ex_metrics (milli 101) (mebi 200))) ex_run_spec = (ex_result, None)"
  by (simp add: ex_candidate_def ex_run_spec_def compute_simps ex_simps ex_desired_def ex_result_def)

lemma ex_budget: "newBudgetManager nano_ops ex_run_timing =
    \<lparr>bm_committed = zero_delta, bm_reserved = zero_delta, bm_max_cpu = 100, bm_max_mem = 0\<rparr>"
  by (simp add: newBudgetManager_def ex_run_timing_def ex_timing_def milli_def ceil_div_def i64_def)

text \<open>The states after each of the first segments.\<close>

definition ex_st1 :: "nat run_state" where "ex_st1 = ex_start\<lparr>rs_slots := 1\<rparr>"

definition ex_st2 :: "nat run_state" where
  "ex_st2 = note_result ex_ctx ex_candidate ex_result (ex_st1\<lparr>rs_metrics_ok := True\<rparr>)"

definition ex_st3 :: "nat run_state" where
  "ex_st3 = ex_st2\<lparr>rs_budget := (rs_budget ex_start)\<lparr>bm_reserved := res_delta ex_result\<rparr>\<rparr>"

definition ex_st4 :: "nat run_state" where
  "ex_st4 = (count_api_call ex_ctx ''update_resize_apply'' ex_st3)\<lparr>rs_env := 1\<rparr>"

lemma ex_fresh: "counted ex_start = 0" "rs_aggs ex_start = []" "rs_slots ex_start = 2"
  "rs_budget ex_start = newBudgetManager nano_ops ex_run_timing"
  by (simp_all add: ex_start_def counted_def)

lemma ex_env: "rs_env ex_st2 = 0" "rs_env ex_st3 = 0" "ex_st2\<lparr>rs_env := 0\<rparr> = ex_st2"
  "rs_budget ex_st2 = newBudgetManager nano_ops ex_run_timing"
proof -
  show env: "rs_env ex_st2 = 0" by (simp add: ex_st2_def ex_st1_def ex_start_def)
  then show "rs_env ex_st3 = 0" by (simp add: ex_st3_def)
  from env show "ex_st2\<lparr>rs_env := 0\<rparr> = ex_st2" by (metis run_state.surjective run_state.update_convs(26))
  show "rs_budget ex_st2 = newBudgetManager nano_ops ex_run_timing"
    by (simp add: ex_st2_def ex_st1_def ex_fresh)
qed

lemma ex_segments:
  "advance ex_ctx ex_candidate (Fresh, ex_start) = (Slotted, ex_st1)"
  "advance ex_ctx ex_candidate (Slotted, ex_st1) = (Computed ex_result, ex_st2)"
  "advance ex_ctx ex_candidate (Computed ex_result, ex_st2) = (Decided ex_result 0, ex_st2)"
  "advance ex_ctx ex_candidate (Decided ex_result 0, ex_st2) = (Reserved ex_result 0, ex_st3)"
  "advance ex_ctx ex_candidate (Reserved ex_result 0, ex_st3) = (Applied ex_result 0, ex_st4)"
proof -
  show "advance ex_ctx ex_candidate (Fresh, ex_start) = (Slotted, ex_st1)"
    by (simp add: begin_pod_def ex_start_def ex_st1_def take_slot_def numeral_eq_Suc)
  show "advance ex_ctx ex_candidate (Slotted, ex_st1) = (Computed ex_result, ex_st2)"
    by (simp add: evaluate_pod_def act_on_result_def getPodMetrics_def ex_run_compute ex_st2_def)
  show "advance ex_ctx ex_candidate (Computed ex_result, ex_st2) = (Decided ex_result 0, ex_st2)"
    by (simp add: check_stable_def stabilizationAllows_def ex_env)
  show "advance ex_ctx ex_candidate (Decided ex_result 0, ex_st2) = (Reserved ex_result 0, ex_st3)"
    by (simp add: reserve_budget_def ex_st3_def ex_fresh ex_env ex_budget tryReserveBudget_def zero_delta_def
        delta_add_def i64_small)
  have "rs_prober ex_st3 = Some (NewProber True True)"
    by (simp add: ex_st3_def ex_st2_def ex_st1_def ex_start_def)
  then show "advance ex_ctx ex_candidate (Reserved ex_result 0, ex_st3) = (Applied ex_result 0, ex_st4)"
    by (simp add: apply_resize_def ex_st4_def count_api_call_def UpdateResize_def NewProber_def ex_env Let_def)
qed

lemma ex_processed:
  "rs_resized (processOne ex_ctx ex_candidate ex_start) = 1"
  "rs_slots (processOne ex_ctx ex_candidate ex_start) = 1"
  "cpu_request_milli (committedDelta (rs_budget (processOne ex_ctx ex_candidate ex_start))) = 50"
proof -
  obtain st5 where c: "commit_resize ex_ctx ex_candidate ex_result 0 ex_st4 = (Committed ex_result 0, st5)"
    by (simp add: commit_resize_def)
  have "fst (annotate_pod ex_ctx ex_candidate ex_result 0 st5) = Finished"
    by (simp add: annotate_pod_def Let_def split: prod.split)
  then obtain st6 where d: "annotate_pod ex_ctx ex_candidate ex_result 0 st5 = (Finished, st6)"
    by (metis prod.collapse)
  have one: "processOne ex_ctx ex_candidate ex_start = st6"
    by (simp add: processOne_def numeral_eq_Suc ex_segments [unfolded advance.simps] c d)
  have same: "rs_resized st6 = rs_resized st5" "rs_slots st6 = rs_slots st5" "rs_budget st6 = rs_budget st5"
    using d by (auto simp: annotate_pod_def count_api_call_def Let_def split: prod.splits)
  have st4: "rs_slots ex_st4 = 1" "rs_resized ex_st4 = 0"
    "rs_budget ex_st4 = (newBudgetManager nano_ops ex_run_timing)\<lparr>bm_reserved := res_delta ex_result\<rparr>"
    by (simp_all add: ex_st4_def ex_st3_def ex_st2_def ex_st1_def ex_start_def count_api_call_def)
  have st5: "rs_slots st5 = 1" "rs_resized st5 = 1"
    "rs_budget st5 = commitBudget (res_delta ex_result) (rs_budget ex_st4)"
    using c st4 by (auto simp: commit_resize_def keep_slot_def)
  show "rs_resized (processOne ex_ctx ex_candidate ex_start) = 1"
    "rs_slots (processOne ex_ctx ex_candidate ex_start) = 1"
    "cpu_request_milli (committedDelta (rs_budget (processOne ex_ctx ex_candidate ex_start))) = 50"
    unfolding one same using st4 st5
    by (simp_all add: committedDelta_def commitBudget_def delta_add_def ex_budget zero_delta_def i64_small)
qed

text \<open>The finished run of the pool with one worker.\<close>

definition ex_final :: "(int, nat) pool" where
  "ex_final = \<lparr>pl_queue = [], pl_workers = [None], pl_shared = processOne ex_ctx ex_candidate ex_start\<rparr>"

lemma ex_run: "\<exists>n. pool_steps ex_ctx n (start_pool [ex_candidate] 1 ex_start) ex_final"
  using serial_run [of ex_ctx "[ex_candidate]" ex_start] by (simp add: ex_final_def)

lemma ex_final_done: "pool_done ex_final"
  by (simp add: pool_done_def ex_final_def)

end
