(* ===== verification/WorkerProps.thy ===== *)
theory WorkerProps
  imports WorkerExamples
begin

text \<open>
  What holds of every run of the worker pool, whatever the interleaving of its workers and
  the answers of the cluster.
\<close>

section \<open>Balances\<close>

definition pool_measure :: "('q, 'e) pool \<Rightarrow> nat" where
  "pool_measure s = 11 * length (pl_queue s) + per_worker rank (pl_workers s)"

lemma pool_step_balance:
  assumes "pool_step ctx s s'"
  shows "rs_slots (pl_shared s') + per_worker holds_slot (pl_workers s') + rs_resized (pl_shared s') =
      rs_slots (pl_shared s) + per_worker holds_slot (pl_workers s) + rs_resized (pl_shared s) \<and>
    counted (pl_shared s') + per_worker active (pl_workers s') + length (pl_queue s') \<le>
      counted (pl_shared s) + per_worker active (pl_workers s) + length (pl_queue s) \<and>
    pool_measure s' < pool_measure s \<and>
    length (pl_workers s') = length (pl_workers s)"
  using assms
proof cases
  case (take i p ps)
  with per_worker_update [OF take(2), of holds_slot "Some (p, Fresh)"]
    per_worker_update [OF take(2), of active "Some (p, Fresh)"]
    per_worker_update [OF take(2), of rank "Some (p, Fresh)"]
  show ?thesis by (simp add: pool_measure_def)
next
  case stop
  then show ?thesis by (simp add: pool_measure_def)
next
  case (work i p ph ph' st')
  with per_worker_update [OF work(2), of holds_slot "Some (p, ph')"]
    per_worker_update [OF work(2), of active "Some (p, ph')"]
    per_worker_update [OF work(2), of rank "Some (p, ph')"]
    advance_slots [OF work(5,4)]
  show ?thesis by (simp add: pool_measure_def)
next
  case (rest i p)
  with per_worker_update [OF rest(2), of holds_slot None]
    per_worker_update [OF rest(2), of active None]
    per_worker_update [OF rest(2), of rank None]
  show ?thesis by (simp add: pool_measure_def)
qed

lemma pool_steps_balance:
  assumes "pool_steps ctx n s s'"
  shows "rs_slots (pl_shared s') + per_worker holds_slot (pl_workers s') + rs_resized (pl_shared s') =
      rs_slots (pl_shared s) + per_worker holds_slot (pl_workers s) + rs_resized (pl_shared s) \<and>
    counted (pl_shared s') + per_worker active (pl_workers s') + length (pl_queue s') \<le>
      counted (pl_shared s) + per_worker active (pl_workers s) + length (pl_queue s) \<and>
    n + pool_measure s' \<le> pool_measure s \<and>
    length (pl_workers s') = length (pl_workers s)"
  using assms
proof induction
  case (more n s s' s'')
  with pool_step_balance [OF more(2)] show ?case by simp
qed simp

section \<open>Reservations\<close>

definition fresh_run :: "'e run_state \<Rightarrow> bool" where
  "fresh_run st \<longleftrightarrow> counted st = 0 \<and> rs_aggs st = []"

text \<open>The budget of a run follows the rules of a reservation pool.\<close>

definition reservations ::
  "(delta \<Rightarrow> bool) \<Rightarrow> budget \<Rightarrow> delta multiset \<Rightarrow> 'e run_state \<Rightarrow> bool" where
  "reservations ok b0 live st \<longleftrightarrow>
     (\<exists>used. pool_run ok tryReserveBudget releaseBudget commitBudget b0 live used (rs_budget st) \<and>
        aggs_match (rs_aggs st) used \<and> size used = rs_resized st)"

lemma reservations_same:
  "rs_budget st' = rs_budget st \<Longrightarrow> rs_aggs st' = rs_aggs st \<Longrightarrow> rs_resized st' = rs_resized st \<Longrightarrow>
    reservations ok b0 live st' = reservations ok b0 live st"
  by (simp add: reservations_def)

lemma advance_reservations:
  assumes "advance ctx p (ph, st) = (ph', st')" "reservations ok b0 (live_delta ph + L) st"
    and "\<And>res. wanted ctx p res \<Longrightarrow> ok (res_delta res)" "justified ctx p ph" "ph \<noteq> Finished"
  shows "reservations ok b0 (live_delta ph' + L) st'"
proof -
  have moves: "pools_move p (ph, st) (ph', st')"
    using advance_moves [OF assms(1,5)] by simp
  obtain used where used:
    "pool_run ok tryReserveBudget releaseBudget commitBudget b0 (live_delta ph + L) used (rs_budget st)"
    "aggs_match (rs_aggs st) used" "size used = rs_resized st"
    using assms(2) by (auto simp: reservations_def)
  from moves consider
      (same) "rs_budget st' = rs_budget st" "live_delta ph' = live_delta ph" "rs_resized st' = rs_resized st"
        "rs_aggs st' = rs_aggs st"
    | (reserved) res t where "ph = Decided res t" "ph' = Reserved res t" "rs_resized st' = rs_resized st"
        "rs_aggs st' = rs_aggs st" "tryReserveBudget (res_delta res) (rs_budget st) = Some (rs_budget st')"
    | (released) res where "ph = Releasing res" "ph' = Leaving" "rs_resized st' = rs_resized st"
        "rs_aggs st' = rs_aggs st" "rs_budget st' = releaseBudget (res_delta res) (rs_budget st)"
    | (committed) res t where "ph = Applied res t" "ph' = Committed res t" "rs_resized st' = Suc (rs_resized st)"
        "rs_aggs st' = add_agg (pod_namespace p) (res_delta res) (rs_aggs st)"
        "rs_budget st' = commitBudget (res_delta res) (rs_budget st)"
    by (auto simp: pools_move_def Let_def)
  then show ?thesis
  proof cases
    case same
    with assms(2) reservations_same [of st' st] show ?thesis by simp
  next
    case reserved
    with assms(3,4) have "ok (res_delta res)" by simp
    with used reserved show ?thesis
      unfolding reservations_def by (intro exI [of _ used]) (auto intro: pool_run.reserve)
  next
    case released
    with used show ?thesis
      unfolding reservations_def by (intro exI [of _ used]) (auto intro: pool_run.give_back)
  next
    case committed
    with used show ?thesis
      unfolding reservations_def
      by (intro exI [of _ "add_mset (res_delta res) used"]) (auto intro: pool_run.use_up aggs_match_add)
  qed
qed

lemma per_worker_split:
  assumes "i < length ws"
  obtains L where "\<And>w. per_worker f (ws[i := w]) = (case w of None \<Rightarrow> 0 | Some (p, ph) \<Rightarrow> f ph) + L"
proof
  fix w
  have "ws[i := w] = take i ws @ w # drop (Suc i) ws"
    using assms by (rule upd_conv_take_nth_drop)
  then show "per_worker f (ws[i := w]) = (case w of None \<Rightarrow> 0 | Some (p, ph) \<Rightarrow> f ph) +
      (per_worker f (take i ws) + per_worker f (drop (Suc i) ws))"
    by (simp add: per_worker_def ac_simps)
qed

lemma pool_justified:
  assumes "pool_steps ctx n (start_pool cands k st0) s"
  shows "set (pl_queue s) \<subseteq> set cands \<and> list_all (worker_all (\<lambda>p ph. p \<in> set cands \<and> justified ctx p ph)) (pl_workers s)"
proof -
  have "True \<and> justified ctx p ph'" if "justified ctx p ph" "advance ctx p (ph, st) = (ph', st')" for p ph st ph' st'
    using advance_justified [OF that(2,1)] by simp
  with pool_invariant [OF assms, of "\<lambda>st. True" "justified ctx"] show ?thesis by simp
qed

lemma pool_reservations:
  assumes "pool_steps ctx n (start_pool cands k st0) s" "fresh_run st0"
    and "\<And>p res. p \<in> set cands \<Longrightarrow> wanted ctx p res \<Longrightarrow> ok (res_delta res)"
  shows "reservations ok (rs_budget st0) (per_worker live_delta (pl_workers s)) (pl_shared s)"
  using assms(1)
proof (induction n "start_pool cands k st0" s)
  case none
  have "pool_run ok tryReserveBudget releaseBudget commitBudget (rs_budget st0) {#} {#} (rs_budget st0)"
    by (rule pool_run.start)
  moreover have "aggs_match (rs_aggs st0) {#}" "rs_resized st0 = 0"
    using assms(2) by (simp_all add: fresh_run_def aggs_match_def counted_def)
  ultimately show ?case
    by (auto simp: start_pool_def reservations_def)
next
  case (more n s s')
  have unchanged: "per_worker live_delta ((pl_workers s)[i := w']) = per_worker live_delta (pl_workers s)"
    if "i < length (pl_workers s)" "(case w' of None \<Rightarrow> {#} | Some (p, ph) \<Rightarrow> live_delta ph) = {#}"
      "(case pl_workers s ! i of None \<Rightarrow> {#} | Some (p, ph) \<Rightarrow> live_delta ph) = {#}" for i w'
    using per_worker_update [OF that(1), of live_delta w'] that(2,3) by (simp split: option.splits)
  from more(3) show ?case
  proof cases
    case (take i p ps)
    with more(2) unchanged [of i "Some (p, Fresh)"] show ?thesis by simp
  next
    case stop
    with more(2) show ?thesis by simp
  next
    case (work i p ph ph' st')
    then obtain L where L: "\<And>w. per_worker live_delta ((pl_workers s)[i := w]) =
        (case w of None \<Rightarrow> 0 | Some (p, ph) \<Rightarrow> live_delta ph) + L"
      using per_worker_split [of i "pl_workers s" live_delta] by blast
    have "worker_all (\<lambda>p ph. p \<in> set cands \<and> justified ctx p ph) (pl_workers s ! i)"
      using pool_justified [OF more(1)] work(2) by (simp add: list_all_length)
    then have w: "p \<in> set cands" "justified ctx p ph"
      using work(3) by simp_all
    have "reservations ok (rs_budget st0) (live_delta ph + L) (pl_shared s)"
      using more(2) L [of "Some (p, ph)"] work(3) by (metis (no_types, lifting) case_prod_conv list_update_id option.simps(5))
    from advance_reservations [OF work(5) this assms(3) w(2) work(4)] w(1) show ?thesis
      using work L [of "Some (p, ph')"] by simp
  next
    case (rest i p)
    with more(2) unchanged [of i None] show ?thesis by simp
  qed
qed

section \<open>Properties\<close>

text \<open>
  C7. Safety of the limits of a run, at every moment: at most \<open>maxPods\<close> pods are resized;
  every candidate is counted at most once; the slots that are missing are those of the pods
  in work and of the resized ones.
\<close>

theorem run_within_max_pods:
  assumes "pool_steps ctx n (start_pool cands k st0) s" "counted st0 = 0" "rs_slots st0 = maxPods"
  shows "rs_resized (pl_shared s) \<le> maxPods \<and>
    counted (pl_shared s) + length (pl_queue s) \<le> length cands \<and>
    rs_slots (pl_shared s) + per_worker holds_slot (pl_workers s) + rs_resized (pl_shared s) = maxPods"
proof -
  have "rs_resized st0 = 0"
    using assms(2) by (simp add: counted_def)
  with pool_steps_balance [OF assms(1)] assms(2,3) show ?thesis
    by (simp add: start_pool_def)
qed

lemma pool_progress:
  assumes "length (pl_workers s) = k" "0 < k"
  shows "pool_done s \<or> (\<exists>s'. pool_step ctx s s')"
proof (cases "\<exists>i p ph. i < length (pl_workers s) \<and> pl_workers s ! i = Some (p, ph)")
  case True
  then obtain i p ph where w: "i < length (pl_workers s)" "pl_workers s ! i = Some (p, ph)" by blast
  show ?thesis
  proof (cases "ph = Finished")
    case True
    with w pool_step.rest [of i s p ctx] show ?thesis by blast
  next
    case False
    obtain ph' st' where "advance ctx p (ph, pl_shared s) = (ph', st')" by force
    with w False pool_step.work [of i s p ph ctx] show ?thesis by blast
  qed
next
  case False
  then have idle: "\<forall>i < length (pl_workers s). pl_workers s ! i = None"
    by (metis option.exhaust surj_pair)
  show ?thesis
  proof (cases "pl_queue s")
    case Nil
    with idle show ?thesis by (simp add: pool_done_def list_all_length)
  next
    case (Cons p ps)
    with idle assms pool_step.take [of 0 s p ps ctx] show ?thesis by auto
  qed
qed

text \<open>
  C20. Termination: a run of the pool has at most eleven steps per candidate, so every run
  ends; and it cannot get stuck: with at least one worker, some step is possible until
  every candidate is handled and every worker is idle.
\<close>

theorem pool_terminates:
  assumes "pool_steps ctx n (start_pool cands k st0) s" "0 < k"
  shows "n \<le> 11 * length cands \<and> (pool_done s \<or> (\<exists>s'. pool_step ctx s s'))"
  using pool_steps_balance [OF assms(1)] pool_progress [of s k ctx] assms(2)
  by (simp add: start_pool_def pool_measure_def)

text \<open>
  C24. When the pool is done nothing is held any more: all slots but those of the resized
  pods are free, nothing is reserved of the budget, and the aggregates per namespace add up
  to the number of resized pods and (in \<open>int64\<close>) to the committed delta.
\<close>

theorem pool_done_holds_nothing:
  assumes "pool_steps ctx n (start_pool cands k st0) s" "fresh_run st0" "pool_done s"
    and "rs_budget st0 = newBudgetManager Q tm"
  shows "rs_slots (pl_shared s) + rs_resized (pl_shared s) = rs_slots st0 \<and>
    bm_reserved (rs_budget (pl_shared s)) = zero_delta \<and>
    sum_list (map (\<lambda>(ns, a). agg_resized a) (rs_aggs (pl_shared s))) = rs_resized (pl_shared s) \<and>
    cpu_request_milli (committedDelta (rs_budget (pl_shared s))) =
      i64 (sum_list (map (\<lambda>(ns, a). agg_cpu a) (rs_aggs (pl_shared s)))) \<and>
    memory_request_byte (committedDelta (rs_budget (pl_shared s))) =
      i64 (sum_list (map (\<lambda>(ns, a). agg_mem a) (rs_aggs (pl_shared s))))"
proof -
  have "rs_resized st0 = 0"
    using assms(2) by (simp add: fresh_run_def counted_def)
  with pool_steps_balance [OF assms(1)] per_worker_done [OF assms(3), of holds_slot]
  have slots: "rs_slots (pl_shared s) + rs_resized (pl_shared s) = rs_slots st0"
    by (simp add: start_pool_def)
  obtain used where
    run: "pool_run (\<lambda>d. True) tryReserveBudget releaseBudget commitBudget (newBudgetManager Q tm) {#} used
        (rs_budget (pl_shared s))"
    and aggs: "aggs_match (rs_aggs (pl_shared s)) used" "size used = rs_resized (pl_shared s)"
    using pool_reservations [OF assms(1,2), of "\<lambda>d. True"] per_worker_done [OF assms(3), of live_delta] assms(4)
    by (auto simp: reservations_def)
  have "bm_reserved (rs_budget (pl_shared s)) = zero_delta"
    using committed_reserved_sums [OF run] nonzero_delta [of "bm_reserved (rs_budget (pl_shared s))"]
    by (simp add: i64_small)
  with committed_reserved_sums [OF run] aggs slots show ?thesis
    by (simp add: aggs_match_def)
qed


text \<open>
  C25. While the capability is not known to be supported nothing is resized: no worker gets
  past the apply, and the number of resized pods stays what it was.
\<close>

theorem no_resize_without_support:
  assumes "pool_steps ctx n (start_pool cands k st0) s" "cap_state (rc_cap ctx) \<noteq> SupportSupported"
  shows "rs_resized (pl_shared s) = rs_resized st0"
proof -
  let ?W = "\<lambda>p ph. case ph of Applied res t \<Rightarrow> False | Committed res t \<Rightarrow> False | Conflicted res t \<Rightarrow> False
    | Retrying res t fresh \<Rightarrow> False | Refused res err \<Rightarrow> False | _ \<Rightarrow> True"
  have "rs_resized st' = rs_resized st \<and> ?W p ph'"
    if "advance ctx p (ph, st) = (ph', st')" "?W p ph" "ph \<noteq> Finished" for p ph st ph' st'
  proof -
    have "rs_resized st' = rs_resized st"
      using advance_moves [OF that(1,3)] that(2) by (auto simp: pools_move_def Let_def)
    moreover have "?W p ph'"
    proof (cases ph)
      case Slotted
      with that(1) have "evaluate_pod ctx p st = (ph', st')" by simp
      then show ?thesis by (cases rule: evaluate_pod_cases) simp_all
    qed (use that assms(2) in \<open>auto simp: pool_segments call_segments Let_def split: segment_splits\<close>)
    ultimately show ?thesis by simp
  qed
  then show ?thesis
    using pool_invariant [OF assms(1), of "\<lambda>st. rs_resized st = rs_resized st0" ?W] by auto
qed

text \<open>
  What a fatal error of the resize call leaves behind: the run is cancelled, no namespace is
  processed further, and the prober remembers that resizing is not supported.
\<close>

definition fatal_handled :: "'e run_state \<Rightarrow> bool" where
  "fatal_handled st \<longleftrightarrow>
     (rs_fatal st \<longrightarrow> rs_cancelled st \<and> rs_stop_all st \<and>
        (case rs_prober st of None \<Rightarrow> True
         | Some pr \<Rightarrow> cap_state (cache pr) = SupportUnsupported \<and> cap_reason (cache pr) = ''ApplyFailed''))"

lemma fatal_mark: "fatal_handled st \<Longrightarrow> fatal_handled (mark_fatal ctx err st)"
  by (auto simp: fatal_handled_def mark_fatal_def Mark_def Let_def split: prod.splits option.splits)

lemma fatal_fail: "fatal_handled st \<Longrightarrow> fatal_handled (fail_resize ctx err st)"
proof -
  have "fatal_handled (st\<lparr>rs_apply_failed := Suc (rs_apply_failed st)\<rparr>)" if "fatal_handled st"
    using that by (simp add: fatal_handled_def)
  then show "fatal_handled st \<Longrightarrow> fatal_handled (fail_resize ctx err st)"
    by (simp add: fail_resize_def Let_def fatal_mark split: resize_error.splits)
qed

lemma advance_fatal:
  assumes "advance ctx p (ph, st) = (ph', st')" "fatal_handled st"
  shows "fatal_handled st'"
  using assms(1)
proof (cases rule: advance_control)
  case refused
  with assms(2) show ?thesis by (simp add: fatal_fail)
qed (use assms(2) in \<open>auto simp: fatal_handled_def control_def\<close>)

lemma fatal_handled_run:
  assumes "pool_steps ctx n (start_pool cands k st0) s" "\<not> rs_fatal st0"
  shows "fatal_handled (pl_shared s)"
proof -
  have "fatal_handled st0"
    using assms(2) by (simp add: fatal_handled_def)
  then show ?thesis
    using pool_invariant [OF assms(1), of fatal_handled "\<lambda>p ph. True"] advance_fatal by blast
qed


section \<open>Witnesses\<close>

theorem run_within_max_pods_witness: "rs_resized (pl_shared ex_final) \<le> 2"
  using ex_run run_within_max_pods [of ex_ctx _ "[ex_candidate]" 1 ex_start ex_final 2] ex_fresh by blast

theorem pool_terminates_witness: "\<exists>n. pool_steps ex_ctx n (start_pool [ex_candidate] 1 ex_start) ex_final \<and> n \<le> 11"
  using ex_run pool_terminates [of ex_ctx _ "[ex_candidate]" 1 ex_start ex_final] by auto

lemma ex_fresh_run: "fresh_run ex_start"
  by (simp add: fresh_run_def ex_fresh)

theorem pool_done_holds_nothing_witness:
  "rs_slots (pl_shared ex_final) + rs_resized (pl_shared ex_final) = 2 \<and>
   bm_reserved (rs_budget (pl_shared ex_final)) = zero_delta"
  using ex_run pool_done_holds_nothing [OF _ ex_fresh_run ex_final_done ex_fresh(4)] ex_fresh(3) by metis


theorem single_worker_is_sequential_witness:
  "pl_shared ex_final = fold (processOne ex_ctx) [ex_candidate] ex_start"
  using ex_run single_worker_is_sequential [OF _ ex_final_done] by metis

definition ex_unknown_ctx :: "(int, unit, nat) run_ctx" where
  "ex_unknown_ctx = ex_ctx\<lparr>rc_cap := ex_cap\<lparr>cap_state := SupportUnknown\<rparr>\<rparr>"

theorem no_resize_without_support_witness:
  "rs_resized (processOne ex_unknown_ctx ex_candidate ex_start) = 0"
proof -
  obtain n where "pool_steps ex_unknown_ctx n (start_pool [ex_candidate] 1 ex_start)
      \<lparr>pl_queue = [], pl_workers = [None], pl_shared = processOne ex_unknown_ctx ex_candidate ex_start\<rparr>"
    using serial_run [of ex_unknown_ctx "[ex_candidate]" ex_start] by auto
  from no_resize_without_support [OF this] show ?thesis
    by (simp add: ex_unknown_ctx_def ex_start_def)
qed


text \<open>The same run with an API server that does not know the subresource.\<close>

definition ex_refused :: api_error where
  "ex_refused = \<lparr>err_text = ''no'', err_status = None, err_method_not_supported = True,
     err_forbidden = False, err_conflict = False, err_not_found = False\<rparr>"

definition ex_fatal_ctx :: "(int, unit, nat) run_ctx" where
  "ex_fatal_ctx = ex_ctx\<lparr>rc_world := ex_world\<lparr>w_update_resize := (\<lambda>ns name d e. (Inl ex_refused, Suc e))\<rparr>\<rparr>"

lemma ex_fatal_fields:
  "rc_q ex_fatal_ctx = nano_ops" "rc_location ex_fatal_ctx = ex_location"
  "rc_spec ex_fatal_ctx = ex_run_spec" "rc_cap ex_fatal_ctx = ex_cap" "rc_policy ex_fatal_ctx = rc_policy ex_ctx"
  "rc_metrics ex_fatal_ctx = rc_metrics ex_ctx"
  "w_now (rc_world ex_fatal_ctx) e = (0, e)"
  "w_update_resize (rc_world ex_fatal_ctx) ns name d e = (Inl ex_refused, Suc e)"
  by (simp_all add: ex_fatal_ctx_def)

lemma ex_fatal_apply:
  "apply_resize ex_fatal_ctx ex_candidate ex_result 0 ex_st3 = (Refused ex_result (UnsupportedError ex_refused), ex_st4)"
proof -
  have "rs_prober ex_st3 = Some (NewProber True True)"
    by (simp add: ex_st3_def ex_st2_def ex_st1_def ex_start_def)
  then show ?thesis
    by (simp add: apply_resize_def ex_st4_def count_api_call_def UpdateResize_def NewProber_def Let_def ex_fatal_fields
        isUnsupportedResizeErr.simps(2) ex_refused_def resize_conflict_def ex_env)
qed

lemma ex_fatal_outcome:
  "rs_fatal (processOne ex_fatal_ctx ex_candidate ex_start) \<and>
    (\<exists>p. rs_prober (processOne ex_fatal_ctx ex_candidate ex_start) = Some p \<and> cap_checked (cache p) = 0)"
proof -
  let ?st = "fail_resize ex_fatal_ctx (UnsupportedError ex_refused) ex_st4"
  have "evaluate_pod ex_fatal_ctx ex_candidate ex_st1 = evaluate_pod ex_ctx ex_candidate ex_st1"
    by (simp add: evaluate_pod_def getPodMetrics_def ex_run_compute ex_fatal_fields note_result_def Let_def split: prod.splits)
  then have eval: "evaluate_pod ex_fatal_ctx ex_candidate ex_st1 = (Computed ex_result, ex_st2)"
    using ex_segments(2) by simp
  have stable: "check_stable ex_fatal_ctx ex_candidate ex_result ex_st2 = (Decided ex_result 0, ex_st2)"
    by (simp add: check_stable_def stabilizationAllows_def ex_fatal_fields ex_env)
  have "processOne ex_fatal_ctx ex_candidate ex_start = give_slot (give_budget ex_result ?st)"
    using ex_segments(1,4) by (simp add: processOne_def numeral_eq_Suc eval stable ex_fatal_apply)
  moreover have "rs_fatal ex_st4 = False" "rs_prober ex_st4 = Some (NewProber True True)"
    by (simp_all add: ex_st4_def ex_st3_def ex_st2_def ex_st1_def ex_start_def count_api_call_def)
  ultimately show ?thesis
    by (simp add: give_slot_def give_budget_def fail_resize_def mark_fatal_def Mark_def ex_fatal_fields NewProber_def Let_def)
qed

lemmas ex_fatal_run = ex_fatal_outcome [THEN conjunct1]
lemmas ex_fatal_prober = ex_fatal_outcome [THEN conjunct2]


end
