(* ===== verification/ReconcileLemmas.thy ===== *)
theory ReconcileLemmas
  imports Reconcile WorkerProps ObservabilityProps "HOL-Library.Sublist"
begin

text \<open>
  Facts about the parts of \<open>Reconcile\<close>: every run of the pool can be completed, what the
  checks let through, what the selection of the candidates keeps, and what the library's
  \<open>SetStatusCondition\<close> is relied on for.
\<close>

section \<open>Completing a run\<close>

lemma pool_completes:
  assumes "pool_steps ctx n (start_pool cands k st) s" "0 < k"
  shows "\<exists>m s'. pool_steps ctx m s s' \<and> pool_done s'"
  using assms(1)
proof (induction "11 * length cands - n" arbitrary: n s rule: less_induct)
  case less
  have bound: "n + pool_measure s \<le> 11 * length cands" "length (pl_workers s) = k"
    using pool_steps_balance [OF less(2)] by (simp_all add: start_pool_def pool_measure_def)
  show ?case
  proof (cases "pool_done s")
    case True
    then show ?thesis using pool_steps.none by blast
  next
    case False
    then obtain s1 where s1: "pool_step ctx s s1"
      using pool_progress [of s k ctx] bound(2) assms(2) by auto
    from pool_steps.more [OF less(2) s1] have next_step: "pool_steps ctx (Suc n) (start_pool cands k st) s1" .
    then have "Suc n \<le> 11 * length cands"
      using pool_steps_balance [OF next_step] by (simp add: start_pool_def pool_measure_def)
    then have "11 * length cands - Suc n < 11 * length cands - n" by simp
    from less(1) [OF this next_step] obtain m s' where "pool_steps ctx m s1 s'" "pool_done s'" by blast
    moreover have "pool_steps ctx 1 s s1"
      using pool_steps.more [OF pool_steps.none s1] by simp
    ultimately show ?thesis
      using steps_trans by blast
  qed
qed

lemma pool_outcome_exists: "\<exists>st'. pool_outcome ctx cands workers st st'"
proof (cases "\<not> rs_stop_all st \<and> cands \<noteq> [] \<and> 0 < workers")
  case True
  then have "0 < nat workers" by simp
  from pool_completes [OF pool_steps.none this] True show ?thesis
    unfolding pool_outcome_def by auto
next
  case False
  then show ?thesis unfolding pool_outcome_def by auto
qed

text \<open>What holds of every run of the pool and of a run without one holds of its outcome.\<close>

lemma pool_outcomeE:
  assumes "pool_outcome ctx cands workers st st'"
  obtains (idle) "st' = st"
  | (pool) n s where "pool_steps ctx n (start_pool cands (nat workers) st) s" "pool_done s" "pl_shared s = st'"
      "\<not> rs_stop_all st"
  using assms by (auto simp: pool_outcome_def split: if_splits)

section \<open>The checks\<close>

lemma setCond_fields [simp]:
  "vs_prober (setCond cfg cl obj ty st reason msg v) = vs_prober v"
  "vs_calls (setCond cfg cl obj ty st reason msg v) = vs_calls v"
  "vs_events (setCond cfg cl obj ty st reason msg v) = vs_events v"
  "vs_cap_check (setCond cfg cl obj ty st reason msg v) = vs_cap_check v"
  by (simp_all add: setCond_def split: prod.splits)

lemma ask_prober_cap: "ask_prober cl ttl now pr e = (cap, pr', e') \<Longrightarrow>
    Supported ttl now (fst (cl_discover cl e)) pr = (cap, pr')"
  by (auto simp: ask_prober_def Let_def split: prod.splits)

lemma admit_Inr:
  "admit cfg cl obj v = Inr ad \<longleftrightarrow>
    (\<exists>v1 cap v2 sel ls. check_enabled cfg cl obj v = Inr v1 \<and> check_support cfg cl obj v1 = Inr (cap, v2) \<and>
      check_namespaces cfg cl obj v2 = Inr sel \<and> check_pod_selector cfg cl obj v2 = Inr ls \<and>
      ad = \<lparr>ad_cap = cap, ad_namespaces = sel, ad_pods = ls, ad_visit = v2\<rparr>)"
  by (auto simp: admit_def split: sum.splits prod.splits)

text \<open>What a policy must be for its pods to be looked at.\<close>

definition runnable :: "('q, 'l, 's, 'r) reconciler \<Rightarrow> ('q, 'l) policy_object \<Rightarrow> bool" where
  "runnable cfg obj \<longleftrightarrow>
     (let ns = ns_selector (po_spec obj)
      in enabled (po_spec obj) \<and>
         (\<exists>sel. Compile (rq_regexps cfg) (match_type ns) (sel_include ns) (sel_exclude ns) = Inr sel) \<and>
         (sel_include ns \<noteq> [] \<or> pod_selector (po_spec obj) \<noteq> None) \<and>
         (\<forall>l. pod_selector (po_spec obj) = Some l \<longrightarrow> (\<exists>s. rq_label_selector cfg l = Inr s)))"

lemma check_enabled_split:
  "check_enabled cfg cl obj v = Inr v1 \<longleftrightarrow>
    enabled (po_spec obj) \<and> v1 = setCond cfg cl obj conditionActive ConditionTrue ''Enabled'' ''policy is enabled'' v"
  by (auto simp: check_enabled_def)

lemma check_support_split:
  "check_support cfg cl obj v = Inr (cap, w) \<longleftrightarrow>
    query_support cfg cl obj v = (cap, w) \<and> cap_state cap \<noteq> SupportUnsupported"
  by (auto simp: check_support_def Let_def split: prod.splits if_splits)

lemma check_namespaces_split:
  "check_namespaces cfg cl obj v = Inr sel \<longleftrightarrow>
    Compile (rq_regexps cfg) (match_type (ns_selector (po_spec obj))) (sel_include (ns_selector (po_spec obj)))
      (sel_exclude (ns_selector (po_spec obj))) = Inr sel \<and>
    (sel_include (ns_selector (po_spec obj)) \<noteq> [] \<or> pod_selector (po_spec obj) \<noteq> None)"
  by (auto simp: check_namespaces_def Let_def split: sum.splits)

lemma check_pod_selector_split:
  "check_pod_selector cfg cl obj v = Inr ls \<longleftrightarrow>
    (case pod_selector (po_spec obj) of None \<Rightarrow> ls = None
     | Some l \<Rightarrow> (\<exists>s. rq_label_selector cfg l = Inr s \<and> ls = Some s))"
  by (auto simp: check_pod_selector_def split: option.splits sum.splits)

lemmas check_splits = check_enabled_split check_support_split check_namespaces_split check_pod_selector_split

lemma admit_iff:
  "(\<exists>ad. admit cfg cl obj v = Inr ad) \<longleftrightarrow>
    runnable cfg obj \<and>
    cap_state (fst (query_support cfg cl obj
      (setCond cfg cl obj conditionActive ConditionTrue ''Enabled'' ''policy is enabled'' v))) \<noteq> SupportUnsupported"
  unfolding admit_Inr check_splits runnable_def Let_def
  by (cases "query_support cfg cl obj
      (setCond cfg cl obj conditionActive ConditionTrue ''Enabled'' ''policy is enabled'' v)";
      cases "pod_selector (po_spec obj)") auto

lemma admit_fields:
  assumes "admit cfg cl obj v = Inr ad"
  shows "Compile (rq_regexps cfg) (match_type (ns_selector (po_spec obj))) (sel_include (ns_selector (po_spec obj)))
      (sel_exclude (ns_selector (po_spec obj))) = Inr (ad_namespaces ad)"
    and "cap_state (ad_cap ad) \<noteq> SupportUnsupported"
    and "runnable cfg obj"
  using assms admit_iff [of cfg cl obj v] unfolding admit_Inr check_splits by auto


section \<open>The selection\<close>

lemma select_pods_facts:
  assumes "select_pods cfg w sel cd pods e = (sn, e')"
  shows "subseq (sn_candidates sn) pods \<and>
    (\<forall>p \<in> set (sn_candidates sn). Match (rq_regexps cfg) sel (pod_namespace p) \<and> isEligiblePod (Some p) \<and>
      (\<exists>now. \<not> shouldSkipByCooldown (Some p) cd now)) \<and>
    sn_matched sn = length (filter (\<lambda>p. Match (rq_regexps cfg) sel (pod_namespace p)) pods) \<and>
    sn_eligible sn =
      length (filter (\<lambda>p. Match (rq_regexps cfg) sel (pod_namespace p) \<and> isEligiblePod (Some p)) pods) \<and>
    sn_cooldown sn + length (sn_candidates sn) = sn_eligible sn"
  using assms
proof (induction pods arbitrary: sn e' rule: rev_induct)
  case Nil
  then show ?case by (auto simp: select_pods_def no_selection_def)
next
  case (snoc p pods)
  obtain sn0 e0 where before: "select_pods cfg w sel cd pods e = (sn0, e0)" by force
  then have "select_pod cfg w sel cd p (sn0, e0) = (sn, e')"
    using snoc.prems by (simp add: select_pods_def)
  with snoc.IH [OF before] show ?case
    by (auto simp: select_pod_def Let_def intro: list_emb_append_mono subseq_rev_drop_many
        split: if_splits prod.splits)
qed

lemma count_namespaces_card:
  "count_namespaces E sel pods seen = card ({ns \<in> pod_namespace ` set pods. Match E sel ns} - seen)"
proof (induction pods arbitrary: seen)
  case (Cons p ps)
  let ?S = "{ns \<in> pod_namespace ` set ps. Match E sel ns}"
  have eq: "{ns \<in> pod_namespace ` set (p # ps). Match E sel ns} - seen =
      (if Match E sel (pod_namespace p) \<and> pod_namespace p \<notin> seen
       then insert (pod_namespace p) (?S - insert (pod_namespace p) seen) else ?S - seen)"
    by auto
  show ?case
    unfolding eq by (auto simp: Cons.IH)
qed simp

lemma listing_fields:
  assumes "list_candidates cfg cl obj ad = li"
    and "cl_list_pods cl (ad_pods ad) (vs_env (ad_visit ad)) = ((err, pods), e1)"
    and "select_pods cfg (cl_world cl) (ad_namespaces ad) (cooldown (timing (po_spec obj))) pods e1 = (sn, e2)"
  shows "ls_failed li \<longleftrightarrow> err \<noteq> None"
    and "ls_listed li = (if err = None then length pods else 0)"
    and "ls_namespaces li = (if err = None then count_namespaces (rq_regexps cfg) (ad_namespaces ad) pods {} else sn_matched sn)"
    and "ls_selection li = sn"
    and "vs_calls (ls_visit li) = vs_calls (ad_visit ad) @ IncAPICall (po_name obj) ''list_pods_clusterwide''"
    and "vs_prober (ls_visit li) = vs_prober (ad_visit ad)"
    and "vs_events (ls_visit li) = vs_events (ad_visit ad)"
    and "vs_env (ls_visit li) = e2"
  using assms(1) by (simp_all add: list_candidates_def assms(2,3) Let_def flip: assms(1))

section \<open>What a segment reports\<close>

definition pod_event :: "('q, 'l, 'e) run_ctx \<Rightarrow> 'q pod \<Rightarrow> event \<Rightarrow> bool" where
  "pod_event ctx p ev \<longleftrightarrow> rc_recorder ctx \<and> (\<exists>d. ev = resized_event (rc_q ctx) p d)"

definition reports_grow ::
  "('q, 'l, 'e) run_ctx \<Rightarrow> 'q pod \<Rightarrow> 'e run_state \<Rightarrow> 'e run_state \<Rightarrow> bool" where
  "reports_grow ctx p st st' \<longleftrightarrow>
     (\<exists>cs. rs_calls st' = rs_calls st @ cs \<and> list_all call_accepted cs) \<and>
     (\<exists>evs. rs_events st' = rs_events st @ evs \<and> list_all (pod_event ctx p) evs) \<and>
     (rs_aggs st' = rs_aggs st \<or> (\<exists>d. rs_aggs st' = add_agg (pod_namespace p) d (rs_aggs st)))"

lemma reports_same:
  assumes "rs_calls st' = rs_calls st" "rs_events st' = rs_events st" "rs_aggs st' = rs_aggs st"
  shows "reports_grow ctx p st st'"
  using assms by (simp add: reports_grow_def)

lemma reports_calls:
  assumes "rs_calls st' = rs_calls st @ cs" "list_all call_accepted cs" "rs_events st' = rs_events st"
    "rs_aggs st' = rs_aggs st"
  shows "reports_grow ctx p st st'"
  using assms by (simp add: reports_grow_def)

lemma reports_note:
  assumes "rs_calls st' = rs_calls (note_result ctx p res st)" "rs_events st' = rs_events st"
    "rs_aggs st' = rs_aggs st"
  shows "reports_grow ctx p st st'"
  using assms
  by (intro reports_calls) (simp add: note_result_def Let_def split: prod.splits, simp_all add: accepted_calls)

lemma reports_trans:
  assumes "reports_grow ctx p st st1" "rs_calls st' = rs_calls st1" "rs_events st' = rs_events st1"
    "rs_aggs st' = rs_aggs st1"
  shows "reports_grow ctx p st st'"
  using assms by (simp add: reports_grow_def)

lemma evaluate_reports:
  assumes "evaluate_pod ctx p st = (ph', st')"
  shows "reports_grow ctx p st st'"
  using assms
proof (cases rule: evaluate_pod_cases)
  case (unchanged pm res)
  then show ?thesis
    by (intro reports_trans [OF reports_note [of "note_result ctx p res (st\<lparr>rs_metrics_ok := True\<rparr>)"]])
      (simp_all add: note_result_def Let_def split: prod.splits)
next
  case (target pm res)
  then show ?thesis
    by (intro reports_trans [OF reports_note [of "note_result ctx p res (st\<lparr>rs_metrics_ok := True\<rparr>)"]])
      (simp_all add: note_result_def Let_def split: prod.splits)
qed (simp_all add: reports_same)

lemma reports_mark:
  assumes "reports_grow ctx p st st1"
  shows "reports_grow ctx p st (mark_fatal ctx err st1)"
  using assms
  by (auto simp: reports_grow_def mark_fatal_def accepted_calls Let_def split: prod.splits)

lemma reports_fail:
  assumes "reports_grow ctx p st st1"
  shows "reports_grow ctx p st (fail_resize ctx err st1)"
proof -
  have "reports_grow ctx p st (st1\<lparr>rs_apply_failed := Suc (rs_apply_failed st1)\<rparr>)"
    by (rule reports_trans [OF assms]) simp_all
  then show ?thesis
    by (simp add: fail_resize_def Let_def reports_mark split: resize_error.splits)
qed

lemma apply_reports:
  assumes "apply_resize ctx p res t st = (ph', st')"
  shows "reports_grow ctx p st st'"
proof -
  have "reports_grow ctx p st (count_api_call ctx c st\<lparr>rs_env := e\<rparr>)" for c e
    by (rule reports_calls) (simp add: count_api_call_def, simp_all add: count_api_call_def accepted_calls)
  with assms show ?thesis
    by (auto simp: apply_resize_def Let_def reports_same split: segment_splits)
qed

lemma advance_reports:
  assumes "advance ctx p (ph, st) = (ph', st')"
  shows "reports_grow ctx p st st'"
proof (cases ph)
  case Slotted
  with assms evaluate_reports show ?thesis by simp
next
  case (Reserved res t)
  with assms apply_reports show ?thesis by simp
next
  case (Refused res err)
  have "reports_grow ctx p st st" by (rule reports_same) simp_all
  with assms Refused show ?thesis by (auto intro: reports_fail)
next
  case (Applied res t)
  with assms show ?thesis
    by (auto simp: commit_resize_def reports_grow_def)
next
  case (Committed res t)
  with assms show ?thesis
    by (auto simp: annotate_pod_def count_api_call_def reports_grow_def pod_event_def accepted_calls Let_def
        split: prod.splits)
qed (use assms in \<open>auto simp: pool_segments call_segments Let_def intro!: reports_same split: segment_splits\<close>)

section \<open>What a run finds of the metrics\<close>

definition metrics_seen :: "'e run_state \<Rightarrow> bool \<times> nat \<times> nat \<times> string" where
  "metrics_seen st = (rs_metrics_ok st, rs_metrics_errors st, rs_metrics_not_found st, rs_metrics_err st)"

definition metrics_sound :: "('q, 'l, 'e) run_ctx \<Rightarrow> 'q pod list \<Rightarrow> 'e run_state \<Rightarrow> bool" where
  "metrics_sound ctx cands st \<longleftrightarrow>
     (let answer = (\<lambda>p. getPodMetrics (rc_metrics ctx) (pod_namespace p) (pod_name p))
      in (rs_metrics_ok st \<longrightarrow> (\<exists>p \<in> set cands. \<exists>pm. answer p = Inr (Some pm))) \<and>
         (0 < rs_metrics_errors st \<longrightarrow> rc_metrics ctx = MetricsFailed (rs_metrics_err st)) \<and>
         (rs_metrics_errors st = 0 \<longrightarrow> rs_metrics_err st = '''') \<and>
         (0 < rs_metrics_not_found st \<longrightarrow> (\<exists>p \<in> set cands. answer p = Inr None)))"

lemma metrics_sound_cong: "metrics_seen st' = metrics_seen st \<Longrightarrow> metrics_sound ctx cands st \<Longrightarrow> metrics_sound ctx cands st'"
  by (simp add: metrics_sound_def metrics_seen_def Let_def)

lemma seen_give [simp]: "metrics_seen (give_slot st) = metrics_seen st"
  by (simp add: metrics_seen_def give_slot_def)

lemma seen_fail [simp]: "metrics_seen (fail_resize ctx err st) = metrics_seen st"
  by (simp add: metrics_seen_def fail_resize_def mark_fatal_def Let_def split: resize_error.splits prod.splits)

lemma seen_note [simp]: "metrics_seen (note_result ctx p res st) = metrics_seen st"
  by (simp add: note_result_def metrics_seen_def Let_def split: prod.splits)

lemma advance_seen:
  assumes "advance ctx p (ph, st) = (ph', st')" "ph \<noteq> Slotted"
  shows "metrics_seen st' = metrics_seen st"
proof (cases ph)
  case (Refused res err)
  with assms show ?thesis by auto
qed (use assms in \<open>auto simp: metrics_seen_def pool_segments call_segments Let_def split: segment_splits\<close>)

lemma evaluate_metrics:
  assumes "evaluate_pod ctx p st = (ph', st')" "metrics_sound ctx cands st" "p \<in> set cands"
  shows "metrics_sound ctx cands st'"
proof -
  have ok: "metrics_sound ctx cands (st\<lparr>rs_metrics_ok := True\<rparr>)"
    if "getPodMetrics (rc_metrics ctx) (pod_namespace p) (pod_name p) = Inr (Some pm)" for pm
    using assms(2,3) that by (auto simp: metrics_sound_def Let_def)
  from assms(1) show ?thesis
  proof (cases rule: evaluate_pod_cases)
    case (metrics_error err)
    with assms(2) show ?thesis by (auto simp: metrics_sound_def Let_def)
  next
    case not_found
    with assms(2,3) show ?thesis by (auto simp: metrics_sound_def Let_def)
  next
    case (qos pm)
    then have "metrics_seen st' = metrics_seen (st\<lparr>rs_metrics_ok := True\<rparr>)" by (simp add: metrics_seen_def)
    from metrics_sound_cong [OF this ok [OF qos(1)]] show ?thesis .
  next
    case (error pm)
    with ok show ?thesis by simp
  next
    case (unchanged pm res)
    then have "metrics_seen st' = metrics_seen (note_result ctx p res (st\<lparr>rs_metrics_ok := True\<rparr>))"
      by (simp add: metrics_seen_def)
    then have "metrics_seen st' = metrics_seen (st\<lparr>rs_metrics_ok := True\<rparr>)" by simp
    from metrics_sound_cong [OF this ok [OF unchanged(1)]] show ?thesis .
  next
    case (target pm res)
    then have "metrics_seen st' = metrics_seen (st\<lparr>rs_metrics_ok := True\<rparr>)" by simp
    from metrics_sound_cong [OF this ok [OF target(1)]] show ?thesis .
  qed
qed

lemma advance_metrics:
  assumes "advance ctx p (ph, st) = (ph', st')" "metrics_sound ctx cands st" "p \<in> set cands"
  shows "metrics_sound ctx cands st'"
proof (cases "ph = Slotted")
  case True
  with assms evaluate_metrics [of ctx p st ph' st' cands] show ?thesis by simp
next
  case False
  show ?thesis by (rule metrics_sound_cong [OF advance_seen [OF assms(1) False] assms(2)])
qed

section \<open>Invariants of a whole run\<close>

lemma outcome_invariant:
  assumes "pool_outcome ctx cands workers st st'" "I st"
    and "\<And>p ph s ph' s'. p \<in> set cands \<Longrightarrow> I s \<Longrightarrow> ph \<noteq> Finished \<Longrightarrow> advance ctx p (ph, s) = (ph', s') \<Longrightarrow> I s'"
  shows "I st'"
  using assms(1)
proof (cases rule: pool_outcomeE)
  case idle
  with assms(2) show ?thesis by simp
next
  case (pool n s)
  have "I (pl_shared s)"
    using pool_invariant [OF pool(1), of I "\<lambda>p ph. True"] assms(2,3) by blast
  with pool(3) show ?thesis by simp
qed

definition aggs_in_range :: "ns_agg smap \<Rightarrow> bool" where
  "aggs_in_range m \<longleftrightarrow> list_all (\<lambda>(ns, a). in_i64 (agg_cpu a) \<and> in_i64 (agg_mem a)) m"

lemma aggs_in_range_add: "aggs_in_range m \<Longrightarrow> aggs_in_range (add_agg ns d m)"
proof -
  have "set (AList.update k v m) \<subseteq> insert (k, v) (set m)" for k and v :: ns_agg
    by (induction m) auto
  then show "aggs_in_range m \<Longrightarrow> aggs_in_range (add_agg ns d m)"
    by (fastforce simp: aggs_in_range_def add_agg_def list_all_iff Let_def)
qed

text \<open>The calls of the workers are accepted, their events are about candidates.\<close>

definition reports_ok :: "('q, 'l, 'e) run_ctx \<Rightarrow> 'q pod list \<Rightarrow> event list \<Rightarrow> 'e run_state \<Rightarrow> bool" where
  "reports_ok ctx cands evs0 st \<longleftrightarrow>
     list_all call_accepted (rs_calls st) \<and> aggs_in_range (rs_aggs st) \<and>
     (\<exists>evs. rs_events st = evs0 @ evs \<and> list_all (\<lambda>ev. \<exists>p \<in> set cands. pod_event ctx p ev) evs)"

lemma reports_ok_grow:
  assumes "reports_ok ctx cands evs0 st" "reports_grow ctx p st st'" "p \<in> set cands"
  shows "reports_ok ctx cands evs0 st'"
proof -
  obtain evs evs1 cs where
    old: "rs_events st = evs0 @ evs" "list_all (\<lambda>ev. \<exists>p \<in> set cands. pod_event ctx p ev) evs"
      "list_all call_accepted (rs_calls st)" "aggs_in_range (rs_aggs st)"
    and new: "rs_events st' = rs_events st @ evs1" "list_all (pod_event ctx p) evs1"
      "rs_calls st' = rs_calls st @ cs" "list_all call_accepted cs"
      "rs_aggs st' = rs_aggs st \<or> (\<exists>d. rs_aggs st' = add_agg (pod_namespace p) d (rs_aggs st))"
    using assms(1,2) by (auto simp: reports_ok_def reports_grow_def)
  have "list_all (\<lambda>ev. \<exists>p \<in> set cands. pod_event ctx p ev) evs1"
    using new(2) assms(3) by (auto simp: list_all_iff)
  with old new show ?thesis
    unfolding reports_ok_def by (intro conjI exI [of _ "evs @ evs1"]) (auto simp: aggs_in_range_add)
qed

lemma run_reports:
  assumes "pool_outcome ctx cands workers st st'" "list_all call_accepted (rs_calls st)" "rs_aggs st = []"
  shows "reports_ok ctx cands (rs_events st) st'"
  using assms(1)
proof (rule outcome_invariant)
  show "reports_ok ctx cands (rs_events st) st"
    using assms(2,3) by (simp add: reports_ok_def aggs_in_range_def)
qed (rule reports_ok_grow [OF _ advance_reports])

lemma run_metrics:
  assumes "pool_outcome ctx cands workers st st'" "rs_metrics_errors st = 0" "rs_metrics_not_found st = 0"
    "\<not> rs_metrics_ok st" "rs_metrics_err st = ''''"
  shows "metrics_sound ctx cands st'"
  using assms(1)
proof (rule outcome_invariant)
  show "metrics_sound ctx cands st"
    using assms(2-5) by (simp add: metrics_sound_def Let_def)
qed (rule advance_metrics)

lemma prepareE:
  assumes "prepare cfg cl obj ad = (li, ctx, st0)"
  obtains ans v where "li = list_candidates cfg cl obj ad" "collect_metrics cfg cl obj (ad_pods ad) li = (ans, v)"
    "ctx = run_context cfg cl obj (ad_cap ad) ans"
    "st0 = start_run (rq_quantities cfg) (timing (po_spec obj))
      (lim_max_pods (run_limits_of cfg (timing (po_spec obj)))) (ls_failed li) v"
  using assms by (auto simp: prepare_def Let_def split: prod.splits)

lemma start_run_fresh: "fresh_run (start_run Q tm m f v)" "counted (start_run Q tm m f v) = 0"
  by (simp_all add: start_run_def fresh_run_def counted_def)

end
