(* ===== verification/ReconcileExamples.thy ===== *)
theory ReconcileExamples
  imports ReconcileLemmas
begin

text \<open>
  A policy and a cluster for the witnesses: one running pod with metrics, discovery that
  knows \<open>pods/resize\<close>, and a cluster that answers every call with success.
\<close>

definition ex_status :: policy_status where
  "ex_status = \<lparr>st_conditions = [], st_observed_generation = 0, st_last_run = None, st_last_cap_check = None\<rparr>"

definition ex_policy :: "(int, unit) policy_object" where
  "ex_policy = \<lparr>po_name = ''p'', po_generation = 1, po_spec = ex_run_spec, po_status = ex_status\<rparr>"

text \<open>Conditions by type, the newest in place of the old one.\<close>

definition put_condition :: "condition \<Rightarrow> condition list \<Rightarrow> condition list" where
  "put_condition c cs = c # filter (\<lambda>d. cond_type d \<noteq> cond_type c) cs"

definition ex_cfg :: "(int, unit, unit, string) reconciler" where
  "ex_cfg = \<lparr>rq_quantities = nano_ops, rq_regexps = ex_regexp, rq_label_selector = Inr, rq_label_string = (\<lambda>s. ''''),
     rq_location = ex_location, rq_set_condition = put_condition, rq_recorder = True,
     rq_metrics_timeout = 0, rq_resize_timeout = 0, rq_patch_timeout = 0\<rparr>"

definition ex_cluster :: "(int, unit, unit, nat) cluster" where
  "ex_cluster = \<lparr>cl_world = ex_world,
     cl_get_policy = (\<lambda>name e. (Inr ex_policy, e)),
     cl_discover = (\<lambda>e. (Inr [\<lparr>res_name = ''pods/resize'', res_verbs = [''update'']\<rparr>], e)),
     cl_list_pods = (\<lambda>s e. ((None, [ex_candidate]), e)),
     cl_list_metrics = Some (\<lambda>ns l e. (Inr [ex_metrics (milli 101) (mebi 200)], e)),
     cl_patch_status = (\<lambda>name old new e. (None, e))\<rparr>"

definition ex_prober :: prober where "ex_prober = NewProber True True"

lemma ex_policy_fields [simp]:
  "po_name ex_policy = ''p''" "po_generation ex_policy = 1" "po_spec ex_policy = ex_run_spec"
  "po_status ex_policy = ex_status"
  by (simp_all add: ex_policy_def)

lemma ex_cfg_fields [simp]:
  "rq_quantities ex_cfg = nano_ops" "rq_regexps ex_cfg = ex_regexp" "rq_location ex_cfg = ex_location"
  "rq_set_condition ex_cfg = put_condition" "rq_recorder ex_cfg" "rq_label_selector ex_cfg l = Inr l"
  by (simp_all add: ex_cfg_def)

lemma ex_cluster_fields [simp]:
  "cl_world ex_cluster = ex_world" "cl_get_policy ex_cluster name e = (Inr ex_policy, e)"
  "cl_discover ex_cluster e = (Inr [\<lparr>res_name = ''pods/resize'', res_verbs = [''update'']\<rparr>], e)"
  "cl_list_pods ex_cluster s e = ((None, [ex_candidate]), e)"
  "cl_patch_status ex_cluster name old new e = (None, e)"
  by (simp_all add: ex_cluster_def)

lemma ex_run_spec_fields [simp]:
  "enabled ex_run_spec" "pod_selector ex_run_spec = None"
  "ns_selector ex_run_spec = \<lparr>match_type = ''Glob'', sel_include = [''*''], sel_exclude = []\<rparr>"
  "interval (timing ex_run_spec) = minute" "max_pods_per_run (timing ex_run_spec) = 20"
  "max_concurrent_pods (timing ex_run_spec) = 1" "cooldown (timing ex_run_spec) = 10 * minute"
  "capability_check_interval (timing ex_run_spec) = hour"
  by (simp_all add: ex_run_spec_def ex_spec_def ex_run_timing_def ex_timing_def)

lemma ex_compile: "Compile ex_regexp ''Glob'' [''*''] [] =
    Inr \<lparr>sel_match_type = ''Glob'', include_ms = [GlobMatcher ''*''], exclude_ms = []\<rparr>"
  by (simp add: Compile_def default_include_def compileMatchers_def)

lemma ex_runnable: "runnable ex_cfg ex_policy"
  by (simp add: runnable_def ex_compile)

lemma ex_admitted: "\<exists>ad. admit ex_cfg ex_cluster ex_policy (first_visit ex_policy (Some ex_prober) 0) = Inr ad"
  unfolding admit_iff
  by (simp add: ex_runnable query_support_def first_visit_def setCond_def ask_prober_def ex_prober_def NewProber_def
      Supported_def time_is_zero_def Let_def)

lemma ex_ran: "\<exists>oc sm. reconcile ex_cfg ex_cluster ''p'' (Some ex_prober) 0 oc \<and> oc_summary oc = Some sm"
proof -
  obtain ad where ad: "admit ex_cfg ex_cluster ex_policy (first_visit ex_policy (Some ex_prober) 0) = Inr ad"
    using ex_admitted by blast
  obtain li ctx st0 where p: "prepare ex_cfg ex_cluster ex_policy ad = (li, ctx, st0)"
    using prod_cases3 by blast
  obtain st where st: "pool_outcome ctx (sn_candidates (ls_selection li)) (run_workers ex_cfg ex_policy) st0 st"
    using pool_outcome_exists by blast
  obtain sm v where f: "finish_run ex_cfg ex_cluster ex_policy 0 li st (rs_aggs st) 0 0 = (sm, v)" by force
  have "reconcile ex_cfg ex_cluster ''p'' (Some ex_prober) 0 (leave ex_cluster ex_policy (sm_requeue sm) (Some sm) v)"
    by (rule reconcile.ran [OF _ _ ad p st refl f]) simp_all
  then show ?thesis
    by (intro exI [of _ "leave ex_cluster ex_policy (sm_requeue sm) (Some sm) v"] exI [of _ sm] conjI)
      (simp_all add: leave_def Let_def split: prod.splits)
qed

end
