(* ===== verification/ReconcileProps.thy ===== *)
theory ReconcileProps
  imports ReconcileExamples
begin

text \<open>
  What holds of every run of \<open>Reconcile\<close>: that it returns, when it comes again, which pods it
  looks at and touches, what it reports, and what a run leaves for the next one.
\<close>

section \<open>Returning\<close>

lemma reconcile_exists: "\<exists>oc. reconcile cfg cl name pr e oc"
proof -
  obtain started e1 where now: "w_now (cl_world cl) e = (started, e1)" by force
  obtain r e2 where got: "cl_get_policy cl name e1 = (r, e2)" by force
  show ?thesis
  proof (cases r)
    case (Inl err)
    with now got show ?thesis
      using reconcile.missing [of cl e started e1 name err e2 cfg pr] reconcile.failed [of cl e started e1 name err e2 cfg pr]
      by blast
  next
    case (Inr obj)
    show ?thesis
    proof (cases "admit cfg cl obj (first_visit obj pr e2)")
      case (Inl v)
      from reconcile.early [OF now got [unfolded Inr] this] show ?thesis by blast
    next
      case admitted: (Inr ad)
      obtain li ctx st0 where p: "prepare cfg cl obj ad = (li, ctx, st0)" using prod_cases3 by blast
      obtain st where st: "pool_outcome ctx (sn_candidates (ls_selection li)) (run_workers cfg obj) st0 st"
        using pool_outcome_exists by blast
      obtain sm v where f: "finish_run cfg cl obj started li st (rs_aggs st) 0 0 = (sm, v)" by force
      from reconcile.ran [OF now got [unfolded Inr] admitted p st refl f] show ?thesis by blast
    qed
  qed
qed

text \<open>
  C19. \<open>Reconcile\<close> always returns: whatever the cluster answers, there is an outcome, with a
  pool of any size (all runs of which end), and it is an error only if the policy object
  could not be read for another reason than that it is gone.
\<close>

theorem reconcile_returns:
  "(\<exists>oc. reconcile cfg cl name pr e oc) \<and>
   (\<forall>oc err. reconcile cfg cl name pr e oc \<and> oc_result oc = Inl err \<longrightarrow>
      \<not> err_not_found err \<and> fst (cl_get_policy cl name (snd (w_now (cl_world cl) e))) = Inl err)"
  using reconcile_exists
  by (auto elim!: reconcileE simp: nothing_done_def leave_def Let_def split: prod.splits)

text \<open>The delay after a run.\<close>

lemma interval_pos: "0 < lim_interval (run_limits_of cfg tm)"
  by (simp add: run_limits_of_def or_default_def)

lemma requeue_after_bounds: "0 < iv \<Longrightarrow> 0 \<le> requeue_after iv d \<and> requeue_after iv d \<le> iv"
  by (simp add: requeue_after_def)

lemma finish_requeue:
  assumes "finish_run cfg cl obj started li st aggs real unix = (sm, v)"
  shows "sm_requeue sm = requeue_after (lim_interval (run_limits_of cfg (timing (po_spec obj))))
    (time_sub (fst (w_now (cl_world cl) (rs_env st))) started)"
  using assms by (auto simp: finish_run_def summary_of_def visit_of_def Let_def split: prod.splits)

lemma leave_fields [simp]:
  "oc_result (leave cl obj d sm v) = Inr d" "oc_summary (leave cl obj d sm v) = sm"
  "oc_prober (leave cl obj d sm v) = vs_prober v" "oc_calls (leave cl obj d sm v) = vs_calls v"
  "oc_events (leave cl obj d sm v) = vs_events v"
  "oc_status (leave cl obj d sm v) = Some (reported obj v (fst (w_now (cl_world cl) (vs_env v))))"
  by (simp_all add: leave_def Let_def split: prod.splits)

lemma nothing_done_fields [simp]:
  "oc_result (nothing_done r pr e) = r" "oc_summary (nothing_done r pr e) = None"
  "oc_status (nothing_done r pr e) = None" "oc_prober (nothing_done r pr e) = pr"
  "oc_calls (nothing_done r pr e) = []" "oc_events (nothing_done r pr e) = []"
  by (simp_all add: nothing_done_def)


text \<open>
  C35. A run that lasted at least as long as the interval asks for no further run: its delay
  is 0, which the controller takes for none. A run that took less asks for the rest of the
  interval.
\<close>

theorem slow_run_not_requeued:
  assumes "finish_run cfg cl obj started li st aggs real unix = (sm, v)"
    and "w_now (cl_world cl) (rs_env st) = (now, e)" "started \<le> now"
    and "lim_interval (run_limits_of cfg (timing (po_spec obj))) < 2 ^ 63"
  shows "sm_requeue sm = max 0 (lim_interval (run_limits_of cfg (timing (po_spec obj))) - (now - started)) \<and>
    (sm_requeue sm = 0 \<longleftrightarrow> lim_interval (run_limits_of cfg (timing (po_spec obj))) \<le> now - started)"
  using finish_requeue [OF assms(1)] assms(2-4) interval_pos [of cfg "timing (po_spec obj)"]
  by (auto simp: requeue_after_def time_sub_def)


section \<open>Ending early\<close>

text \<open>Clusters that answer alike about policies, discovery and the clock.\<close>

definition same_control :: "('q, 'l, 's, 'e) cluster \<Rightarrow> ('q, 'l, 's, 'e) cluster \<Rightarrow> bool" where
  "same_control cl cl' \<longleftrightarrow>
     w_now (cl_world cl') = w_now (cl_world cl) \<and> cl_get_policy cl' = cl_get_policy cl \<and>
     cl_discover cl' = cl_discover cl \<and> cl_patch_status cl' = cl_patch_status cl"

lemma same_control_admit:
  assumes "same_control cl cl'"
  shows "admit cfg cl' obj v = admit cfg cl obj v"
proof -
  have "setCond cfg cl' obj ty st r m w = setCond cfg cl obj ty st r m w" for ty st r m w
    using assms by (simp add: setCond_def same_control_def)
  then have cond: "setCond cfg cl' obj = setCond cfg cl obj" by (intro ext)
  have "ask_prober cl' = ask_prober cl"
    using assms by (intro ext) (simp add: ask_prober_def same_control_def)
  then have "query_support cfg cl' obj w = query_support cfg cl obj w" for w
    using assms by (simp add: query_support_def same_control_def cond Let_def split: option.split)
  then have "check_enabled cfg cl' obj = check_enabled cfg cl obj" "check_support cfg cl' obj = check_support cfg cl obj"
    "check_namespaces cfg cl' obj = check_namespaces cfg cl obj"
    "check_pod_selector cfg cl' obj = check_pod_selector cfg cl obj"
    by (auto simp: fun_eq_iff check_enabled_def check_support_def check_namespaces_def check_pod_selector_def
        cond Let_def split: option.split sum.split)
  then show ?thesis unfolding admit_def by (simp only:)
qed

lemma same_control_leave: "same_control cl cl' \<Longrightarrow> leave cl' obj d sm v = leave cl obj d sm v"
  by (simp add: leave_def same_control_def)

text \<open>
  C12. A run without a summary does not depend on what the cluster says of pods, metrics,
  resizes and patches: it has the same outcome in every cluster that answers alike about
  policies, discovery and the clock. So it neither reads nor changes any pod; and a policy
  that is disabled, unsafe or wrong, or whose resizes are known to be unsupported, has only
  such runs.
\<close>

theorem early_exit_touches_no_pods:
  assumes "reconcile cfg cl name pr e oc" "same_control cl cl'"
  shows "(oc_summary oc = None \<longrightarrow> reconcile cfg cl' name pr e oc) \<and>
    (\<forall>obj e2. cl_get_policy cl name (snd (w_now (cl_world cl) e)) = (Inr obj, e2) \<and> \<not> runnable cfg obj \<longrightarrow>
      oc_summary oc = None)"
  using assms(1)
proof cases
  case (missing started e1 err e2)
  with assms(2) reconcile.missing [of cl' e started e1 name err e2 cfg pr] show ?thesis
    by (simp add: same_control_def)
next
  case (failed started e1 err e2)
  with assms(2) reconcile.failed [of cl' e started e1 name err e2 cfg pr] show ?thesis
    by (simp add: same_control_def)
next
  case (early started e1 obj e2 v)
  with assms(2) reconcile.early [of cl' e started e1 name obj e2 cfg pr v] same_control_admit [OF assms(2), of cfg obj]
    same_control_leave [OF assms(2), of obj] show ?thesis
    by (simp add: same_control_def)
next
  case (ran started e1 obj e2 ad li ctx st0 st aggs real unix sm v)
  with admit_fields(3) [OF ran(4)] show ?thesis by simp
qed

section \<open>Remembering that resizing is not supported\<close>

lemma query_fresh:
  assumes "cap_fresh (lim_cap_ttl (run_limits_of cfg (timing (po_spec obj)))) (fst (w_now (cl_world cl) (vs_env v)))
      (cap_checked (cache p))" "vs_prober v = Some p"
  shows "fst (query_support cfg cl obj v) = cache p" "vs_prober (snd (query_support cfg cl obj v)) = Some p"
proof -
  have "Mark (cache p) p = p" by (simp add: Mark_def)
  with prober_cache.marked [OF assms(1), of _ p]
  have same: "Supported (lim_cap_ttl (run_limits_of cfg (timing (po_spec obj)))) (fst (w_now (cl_world cl) (vs_env v))) d p =
      (cache p, p)" for d
    by metis
  show "fst (query_support cfg cl obj v) = cache p" "vs_prober (snd (query_support cfg cl obj v)) = Some p"
    using assms(2) same by (auto simp: query_support_def ask_prober_def Let_def split: prod.splits)
qed

text \<open>
  C9. A run whose resize call was refused for good keeps the operator off for the time to
  live of the capability: after any run of the pool that met such an error, a run of
  \<open>Reconcile\<close> with the prober it left, at instants at which its mark is still fresh, ends
  early, without a look at the pods, and leaves the mark as it is.
\<close>

theorem fatal_error_backs_off:
  assumes "pool_steps ctx n (start_pool cands k st0) s" "\<not> rs_fatal st0" "rs_fatal (pl_shared s)"
    and "rs_prober (pl_shared s) = Some p"
    and "reconcile cfg cl name (Some p) e oc"
    and "cl_get_policy cl name (snd (w_now (cl_world cl) e)) = (Inr obj, e2)"
    and "\<And>x. cap_fresh (lim_cap_ttl (run_limits_of cfg (timing (po_spec obj)))) (fst (w_now (cl_world cl) x))
      (cap_checked (cache p))"
  shows "oc_summary oc = None \<and> oc_prober oc = Some p \<and> cap_reason (cache p) = ''ApplyFailed''"
proof -
  have mark: "cap_state (cache p) = SupportUnsupported" "cap_reason (cache p) = ''ApplyFailed''"
    using fatal_handled_run [OF assms(1,2)] assms(3,4) by (simp_all add: fatal_handled_def)
  let ?v = "setCond cfg cl obj conditionActive ConditionTrue ''Enabled'' ''policy is enabled'' (first_visit obj (Some p) e2)"
  have v: "vs_prober ?v = Some p" by (simp add: first_visit_def)
  note q = query_fresh [OF assms(7) v]
  have no: "admit cfg cl obj (first_visit obj (Some p) e2) \<noteq> Inr ad" for ad
    using admit_iff [of cfg cl obj "first_visit obj (Some p) e2"] q(1) mark(1) by auto
  have kept: "vs_prober w = Some p" if "admit cfg cl obj (first_visit obj (Some p) e2) = Inl w" for w
    using that q mark(1)
    by (auto simp: admit_def check_enabled_def check_support_def first_visit_def Let_def split: if_splits prod.splits)
  from assms(5) show ?thesis
    by cases (use assms(6) no kept mark(2) in simp_all)
qed

section \<open>The candidates\<close>


section \<open>What a run reports\<close>

lemma ranE:
  assumes "reconcile cfg cl name pr e oc" "oc_summary oc = Some sm"
  obtains started e1 obj e2 ad li ctx st0 st aggs real unix v where
    "w_now (cl_world cl) e = (started, e1)" "cl_get_policy cl name e1 = (Inr obj, e2)"
    "admit cfg cl obj (first_visit obj pr e2) = Inr ad" "prepare cfg cl obj ad = (li, ctx, st0)"
    "pool_outcome ctx (sn_candidates (ls_selection li)) (run_workers cfg obj) st0 st"
    "mset aggs = mset (rs_aggs st)" "finish_run cfg cl obj started li st aggs real unix = (sm, v)"
    "oc = leave cl obj (sm_requeue sm) (Some sm) v"
  using assms by cases auto

lemma finish_summary:
  "finish_run cfg cl obj started li st aggs real unix = (sm, v) \<Longrightarrow>
    sm_stats sm = stats_of li st \<and> sm_namespaces sm = ls_namespaces li \<and> sm_bounded sm = rs_bounded st"
  by (auto simp: finish_run_def summary_of_def Let_def split: prod.splits)

text \<open>The pods a summary accounts for, beside those in their cooldown.\<close>

definition accounted :: "run_stats \<Rightarrow> nat" where
  "accounted s = PodsMaxPodsSkipped s + PodsMetricsErrorsOther s + PodsMetricsNotFound s + PodsQoSSkipped s +
     PodsConflictSkipped s + PodsNoChange s + PodsPendingStabilization s + PodsBudgetSkipped s +
     PodsApplyFailed s + PodsResized s"

lemma outcome_counts:
  assumes "pool_outcome ctx cands workers st st'" "counted st = 0"
  shows "counted st' \<le> length cands \<and> rs_resized st' \<le> rs_slots st"
  using assms(1)
proof (cases rule: pool_outcomeE)
  case idle
  with assms(2) show ?thesis by (simp add: counted_def)
next
  case (pool n s)
  have "rs_resized st = 0" using assms(2) by (simp add: counted_def)
  with pool_steps_balance [OF pool(1)] pool(3) assms(2) show ?thesis
    by (simp add: start_pool_def)
qed

text \<open>
  C33. The numbers of a summary fit together: no eligible pod is counted under two headings,
  and at most \<open>maxPodsPerRun\<close> pods (20 if it is not positive) were resized, with any number
  of workers and any answers of the cluster.
\<close>

theorem summary_adds_up:
  assumes "reconcile cfg cl name pr e oc" "oc_summary oc = Some sm"
    and "cl_get_policy cl name (snd (w_now (cl_world cl) e)) = (Inr obj, e2)"
  shows "PodsSkippedCooldown (sm_stats sm) + accounted (sm_stats sm) \<le> PodsEligible (sm_stats sm) \<and>
    int (PodsResized (sm_stats sm)) \<le> or_default (max_pods_per_run (timing (po_spec obj))) 20"
  using assms(1,2)
proof (rule ranE)
  fix started e1 obj' e2' ad li ctx st0 st aggs real unix v
  assume now: "w_now (cl_world cl) e = (started, e1)" and got: "cl_get_policy cl name e1 = (Inr obj', e2')"
    and prep: "prepare cfg cl obj' ad = (li, ctx, st0)"
    and pool: "pool_outcome ctx (sn_candidates (ls_selection li)) (run_workers cfg obj') st0 st"
    and fin: "finish_run cfg cl obj' started li st aggs real unix = (sm, v)"
  have obj: "obj' = obj" using assms(3) now got by simp
  obtain ans w where li: "li = list_candidates cfg cl obj' ad"
    and st0: "st0 = start_run (rq_quantities cfg) (timing (po_spec obj'))
      (lim_max_pods (run_limits_of cfg (timing (po_spec obj')))) (ls_failed li) w"
    using prepareE [OF prep] by metis
  obtain err pods e3 where l: "cl_list_pods cl (ad_pods ad) (vs_env (ad_visit ad)) = ((err, pods), e3)"
    by (metis surj_pair)
  obtain sn e4 where sn: "select_pods cfg (cl_world cl) (ad_namespaces ad) (cooldown (timing (po_spec obj'))) pods e3 = (sn, e4)"
    by force
  note sel = listing_fields(4) [OF li [symmetric] l sn]
  have "counted st0 = 0" by (simp add: st0 start_run_fresh)
  from outcome_counts [OF pool this] select_pods_facts [OF sn] show ?thesis
    by (simp add: sel finish_summary [OF fin] stats_of_def accounted_def counted_def st0 start_run_def run_limits_of_def
        obj or_default_def le_nat_iff split: if_splits)
qed

lemma metrics_failed_no_resize:
  assumes "pool_outcome ctx cands workers st st'" "rc_metrics ctx = MetricsFailed err"
  shows "rs_resized st' = rs_resized st"
  using assms(1)
proof (cases rule: pool_outcomeE)
  case (pool n s)
  let ?W = "\<lambda>p ph. ph \<in> {Fresh, Slotted, Leaving, Finished}"
  have "rs_resized s' = rs_resized st \<and> ?W p ph'"
    if "rs_resized s0 = rs_resized st" "?W p ph" "ph \<noteq> Finished" "advance ctx p (ph, s0) = (ph', s')" for p ph s0 ph' s'
  proof -
    have "rs_resized s' = rs_resized s0"
      using advance_moves [OF that(4,3)] that(2) by (auto simp: pools_move_def)
    moreover have "?W p ph'"
    proof (cases ph)
      case Slotted
      with that(4) have "evaluate_pod ctx p s0 = (ph', s')" by simp
      then show ?thesis
        by (cases rule: evaluate_pod_cases) (simp_all add: getPodMetrics_def assms(2))
    qed (use that in \<open>auto simp: begin_pod_def split: segment_splits\<close>)
    ultimately show ?thesis using that(1) by simp
  qed
  then have "rs_resized (pl_shared s) = rs_resized st"
    using pool_invariant [OF pool(1), of "\<lambda>s. rs_resized s = rs_resized st" ?W] by blast
  with pool(3) show ?thesis by simp
qed simp


text \<open>
  When the pods cannot be listed, the run does nothing else, yet says nothing of it: the
  number of listed pods is 0 and the metrics condition reads that there are no eligible pods
  (so long as the failed list leaves no items), as after a run that found none.
\<close>

lemma failed_list_reported_as_empty:
  assumes "prepare cfg cl obj ad = (li, ctx, st0)"
    and "cl_list_pods cl (ad_pods ad) (vs_env (ad_visit ad)) = ((Some err, []), e1)"
    and "pool_outcome ctx (sn_candidates (ls_selection li)) (run_workers cfg obj) st0 st"
  shows "rs_stop_all st \<and> PodsListed (stats_of li st) = 0 \<and> accounted (stats_of li st) = 0 \<and>
    metrics_verdict st = (ConditionUnknown, ''NoEligiblePods'', ''no eligible pods to query metrics'')"
proof -
  obtain w where li: "li = list_candidates cfg cl obj ad"
    and st0: "st0 = start_run (rq_quantities cfg) (timing (po_spec obj))
      (lim_max_pods (run_limits_of cfg (timing (po_spec obj)))) (ls_failed li) w"
    using prepareE [OF assms(1)] by metis
  have sn: "select_pods cfg (cl_world cl) (ad_namespaces ad) (cooldown (timing (po_spec obj))) [] e1 = (no_selection, e1)"
    by (simp add: select_pods_def)
  note fields = listing_fields [OF li [symmetric] assms(2) sn]
  have "st = st0"
    using assms(3) by (simp add: pool_outcome_def fields(4) no_selection_def)
  then show ?thesis
    by (simp add: st0 start_run_def fields stats_of_def accounted_def metrics_verdict_def)
qed

section \<open>Events and metrics\<close>

lemma query_reports:
  fixes v :: "'e visit"
  shows "vs_events (snd (query_support cfg cl obj v)) = vs_events v"
    and "list_all call_accepted (vs_calls v) \<Longrightarrow> list_all call_accepted (vs_calls (snd (query_support cfg cl obj v)))"
  by (auto simp: query_support_def accepted_calls Let_def split: option.splits prod.splits)

lemma admit_visit:
  assumes "admit cfg cl obj v = Inr ad"
  shows "vs_events (ad_visit ad) = vs_events v"
    and "list_all call_accepted (vs_calls v) \<Longrightarrow> list_all call_accepted (vs_calls (ad_visit ad))"
proof -
  let ?v = "setCond cfg cl obj conditionActive ConditionTrue ''Enabled'' ''policy is enabled'' v"
  have "ad_visit ad = snd (query_support cfg cl obj ?v)"
    using assms unfolding admit_Inr check_splits by auto
  with query_reports [where cfg = cfg and cl = cl and obj = obj and v = ?v] show "vs_events (ad_visit ad) = vs_events v"
    "list_all call_accepted (vs_calls v) \<Longrightarrow> list_all call_accepted (vs_calls (ad_visit ad))"
    by simp_all
qed

lemma admit_calls:
  assumes "admit cfg cl obj v = Inl w" "list_all call_accepted (vs_calls v)"
  shows "list_all call_accepted (vs_calls w)"
  using assms
  by (auto simp: admit_def check_enabled_def check_support_def check_namespaces_def check_pod_selector_def
      query_support_def accepted_calls Let_def split: if_splits option.splits sum.splits prod.splits)

lemma prepare_reports:
  assumes "prepare cfg cl obj ad = (li, ctx, st0)" "admit cfg cl obj (first_visit obj pr e) = Inr ad"
  shows "rs_events st0 = []" "list_all call_accepted (rs_calls st0)" "rs_aggs st0 = []"
proof -
  obtain ans v where li: "li = list_candidates cfg cl obj ad"
    and cm: "collect_metrics cfg cl obj (ad_pods ad) li = (ans, v)"
    and st0: "st0 = start_run (rq_quantities cfg) (timing (po_spec obj))
      (lim_max_pods (run_limits_of cfg (timing (po_spec obj)))) (ls_failed li) v"
    using prepareE [OF assms(1)] by metis
  have "vs_events (ls_visit li) = vs_events (ad_visit ad)"
    "vs_calls (ls_visit li) = vs_calls (ad_visit ad) @ IncAPICall (po_name obj) ''list_pods_clusterwide''"
    unfolding li by (simp_all add: list_candidates_def Let_def split: prod.splits)
  then have "vs_events v = vs_events (ad_visit ad) \<and>
      (list_all call_accepted (vs_calls (ad_visit ad)) \<longrightarrow> list_all call_accepted (vs_calls v))"
    using cm by (auto simp: collect_metrics_def accepted_calls Let_def split: if_splits prod.splits)
  with admit_visit [OF assms(2)] show "rs_events st0 = []" "list_all call_accepted (rs_calls st0)" "rs_aggs st0 = []"
    by (simp_all add: st0 start_run_def first_visit_def accepted_calls)
qed


lemma i64_minus_cases: "in_i64 d \<Longrightarrow> d < 0 \<Longrightarrow> 0 \<le> i64 (- d) \<or> i64 (- d) = - 9223372036854775808"
  using i64_minus_nonneg [of d] by (cases "d = - 9223372036854775808") (simp add: i64_def, simp)

text \<open>Accepted, or an addition of the least \<open>int64\<close> to a counter.\<close>

definition accepted_or_least :: "metric_call \<Rightarrow> bool" where
  "accepted_or_least c \<longleftrightarrow> call_accepted c \<or>
     (\<exists>m ls. c = AddTo m ls (- 9223372036854775808) \<and> length ls = length (metric_labels m) \<and>
       m \<in> {DeltaCPURequestMilliByNamespaceTotal, DeltaCPURequestMilliTotal,
         DeltaMemoryRequestBytesByNamespaceTotal, DeltaMemoryRequestBytesTotal})"

lemma accepted_or_least: "list_all call_accepted cs \<Longrightarrow> list_all accepted_or_least cs"
  by (auto simp: accepted_or_least_def list_all_iff)

lemma namespace_calls:
  assumes "in_i64 d" "in_i64 m"
  shows "list_all accepted_or_least (ObserveNamespace pol ns n d m)"
proof -
  have "list_all accepted_or_least (add_pos PodsResizedByNamespaceTotal [pol', ns'] n)" for pol' ns'
    by (rule accepted_or_least) simp
  then show ?thesis
    using i64_minus_cases [OF assms(1)] i64_minus_cases [OF assms(2)]
    by (auto simp: ObserveNamespace_def AddDeltaTotalsNamespace_def accepted_or_least_def Let_def)
qed

text \<open>
  C36. Every metric call of a run suits its metric: right kind, as many label values as the
  metric has labels, and no negative amount added to a counter; except that a namespace whose
  requests fell by exactly \<open>2\<^sup>63\<close> adds the least \<open>int64\<close>, its own negative, to the totals.
\<close>

theorem reconcile_calls_typed:
  assumes "reconcile cfg cl name pr e oc"
  shows "list_all accepted_or_least (oc_calls oc)"
  using assms
proof cases
  case (early started e1 obj e2 v)
  then show ?thesis
    using accepted_or_least [OF admit_calls [OF early(4)]] by (simp add: first_visit_def accepted_calls)
next
  case (ran started e1 obj e2 ad li ctx st0 st aggs real unix sm v)
  note start = prepare_reports [OF ran(5,4)]
  have st: "list_all call_accepted (rs_calls st)" "aggs_in_range (rs_aggs st)"
    using run_reports [OF ran(6) start(2,3)] by (simp_all add: reports_ok_def)
  have "set aggs = set (rs_aggs st)"
    using ran(7) by (rule mset_eq_setD)
  with st(2) have range: "list_all (\<lambda>(ns, a). in_i64 (agg_cpu a) \<and> in_i64 (agg_mem a)) aggs"
    by (simp add: aggs_in_range_def list_all_iff)
  have "vs_calls v = rs_calls st @ ObserveRun (po_name obj) real unix (stats_of li st) @
      concat (map (\<lambda>(ns, a). ObserveNamespace (po_name obj) ns (agg_resized a) (agg_cpu a) (agg_mem a)) aggs)"
    using ran(8) by (auto simp: finish_run_def visit_of_def Let_def split: prod.splits)
  moreover have "list_all accepted_or_least
      (concat (map (\<lambda>(ns, a). ObserveNamespace (po_name obj) ns (agg_resized a) (agg_cpu a) (agg_mem a)) aggs))"
    using range by (induction aggs) (auto simp: namespace_calls)
  ultimately show ?thesis
    using ran(1) accepted_or_least [OF st(1)] accepted_or_least [OF accepted_calls(2)] by simp
qed simp_all

section \<open>The status\<close>

definition condition_of :: "string \<Rightarrow> condition list \<Rightarrow> condition option" where
  "condition_of ty cs = find (\<lambda>c. cond_type c = ty) cs"

text \<open>
  What the code relies on of \<open>meta.SetStatusCondition\<close>: the condition of that type is the
  given one, but for the instant of its last change, and the others stay.
\<close>

definition set_condition_ok :: "(condition \<Rightarrow> condition list \<Rightarrow> condition list) \<Rightarrow> bool" where
  "set_condition_ok f \<longleftrightarrow> (\<forall>c cs.
     (\<exists>t. condition_of (cond_type c) (f c cs) = Some (c\<lparr>cond_transition := t\<rparr>)) \<and>
     (\<forall>ty. ty \<noteq> cond_type c \<longrightarrow> condition_of ty (f c cs) = condition_of ty cs))"

definition reads_as ::
  "('q, 'l) policy_object \<Rightarrow> string \<Rightarrow> condition_status \<Rightarrow> condition list \<Rightarrow> bool" where
  "reads_as obj ty status cs \<longleftrightarrow>
     (\<exists>c. condition_of ty cs = Some c \<and> cond_status c = status \<and> cond_generation c = po_generation obj)"

lemma reads_as_unique: "reads_as obj ty status cs \<Longrightarrow> reads_as obj ty status' cs \<Longrightarrow> status' = status"
  by (auto simp: reads_as_def)

lemma setCond_reads:
  assumes "set_condition_ok (rq_set_condition cfg)"
  shows "reads_as obj ty status (vs_conditions (setCond cfg cl obj ty status reason msg v))"
    and "ty' \<noteq> ty \<Longrightarrow> reads_as obj ty' s (vs_conditions (setCond cfg cl obj ty status reason msg v)) =
      reads_as obj ty' s (vs_conditions v)"
proof -
  obtain now e where now: "w_now (cl_world cl) (vs_env v) = (now, e)" by force
  let ?c = "\<lparr>cond_type = ty, cond_status = status, cond_reason = reason, cond_message = msg,
    cond_generation = po_generation obj, cond_transition = now\<rparr>"
  have cs: "vs_conditions (setCond cfg cl obj ty status reason msg v) = rq_set_condition cfg ?c (vs_conditions v)"
    by (simp add: setCond_def now)
  obtain t where "condition_of (cond_type ?c) (rq_set_condition cfg ?c (vs_conditions v)) = Some (?c\<lparr>cond_transition := t\<rparr>)"
    using assms unfolding set_condition_ok_def by blast
  then show "reads_as obj ty status (vs_conditions (setCond cfg cl obj ty status reason msg v))"
    unfolding cs by (simp add: reads_as_def)
  have "condition_of ty' (rq_set_condition cfg ?c (vs_conditions v)) = condition_of ty' (vs_conditions v)" if "ty' \<noteq> ty"
    using assms that unfolding set_condition_ok_def by (metis condition.select_convs(1))
  then show "ty' \<noteq> ty \<Longrightarrow> reads_as obj ty' s (vs_conditions (setCond cfg cl obj ty status reason msg v)) =
      reads_as obj ty' s (vs_conditions v)"
    unfolding cs by (simp add: reads_as_def)
qed

lemma mark_conditions:
  "rs_conditions (mark_fatal ctx err st) = rs_conditions st \<or>
    (\<exists>c. cond_type c = conditionInPlaceResizeSupport \<and>
      rs_conditions (mark_fatal ctx err st) = rc_set_condition ctx c (rs_conditions st))"
proof (cases "rs_fatal st")
  case True
  then show ?thesis by (simp add: mark_fatal_def)
next
  case False
  obtain checked e1 now e2 where "w_now (rc_world ctx) (rs_env st) = (checked, e1)" "w_now (rc_world ctx) e1 = (now, e2)"
    by (metis surj_pair)
  with False show ?thesis
    by (intro disjI2 exI [of _ "\<lparr>cond_type = conditionInPlaceResizeSupport, cond_status = ConditionFalse,
        cond_reason = ''ApplyFailed'', cond_message = resize_error_text err, cond_generation = rc_generation ctx,
        cond_transition = now\<rparr>"]) (simp add: mark_fatal_def Let_def)
qed

lemma fail_conditions:
  "rs_conditions (fail_resize ctx err st) = rs_conditions st \<or>
    (\<exists>c. cond_type c = conditionInPlaceResizeSupport \<and>
      rs_conditions (fail_resize ctx err st) = rc_set_condition ctx c (rs_conditions st))"
  using mark_conditions [of ctx err "st\<lparr>rs_apply_failed := Suc (rs_apply_failed st)\<rparr>"]
  by (cases err) (simp_all add: fail_resize_def Let_def)

lemma advance_conditions:
  assumes "advance ctx p (ph, st) = (ph', st')"
  shows "rs_conditions st' = rs_conditions st \<or>
    (\<exists>c. cond_type c = conditionInPlaceResizeSupport \<and> rs_conditions st' = rc_set_condition ctx c (rs_conditions st))"
  using assms
proof (cases rule: advance_control)
  case (refused res err)
  with fail_conditions [of ctx err st] show ?thesis by simp
qed (simp_all add: control_def)

lemma advance_active:
  assumes "advance ctx p (ph, st) = (ph', st')" "set_condition_ok (rc_set_condition ctx)"
    and "reads_as obj conditionActive s (rs_conditions st)"
  shows "reads_as obj conditionActive s (rs_conditions st')"
  using advance_conditions [OF assms(1)]
proof
  assume "\<exists>c. cond_type c = conditionInPlaceResizeSupport \<and> rs_conditions st' = rc_set_condition ctx c (rs_conditions st)"
  then obtain c where c: "cond_type c = conditionInPlaceResizeSupport"
    "rs_conditions st' = rc_set_condition ctx c (rs_conditions st)" by blast
  then have "condition_of conditionActive (rs_conditions st') = condition_of conditionActive (rs_conditions st)"
    using assms(2) unfolding set_condition_ok_def by simp
  with assms(3) show ?thesis by (simp add: reads_as_def)
qed (use assms(3) in simp)

lemma query_active:
  assumes "set_condition_ok (rq_set_condition cfg)"
  shows "reads_as obj conditionActive s (vs_conditions (snd (query_support cfg cl obj v))) =
    reads_as obj conditionActive s (vs_conditions v)"
  by (simp add: query_support_def Let_def setCond_reads(2) [OF assms] split: option.split prod.split)

lemma admit_active:
  assumes "set_condition_ok (rq_set_condition cfg)"
  shows "case admit cfg cl obj v of
      Inl w \<Rightarrow> \<exists>s. reads_as obj conditionActive s (vs_conditions w) \<and>
        (s = ConditionTrue \<or> s = ConditionFalse \<and> \<not> runnable cfg obj)
    | Inr ad \<Rightarrow> reads_as obj conditionActive ConditionTrue (vs_conditions (ad_visit ad))"
proof (cases "enabled (po_spec obj)")
  case False
  have "reads_as obj conditionActive ConditionFalse
      (vs_conditions (setCond cfg cl obj conditionActive ConditionFalse ''Disabled'' ''policy is disabled'' v))"
    by (rule setCond_reads(1) [OF assms])
  with False show ?thesis
    by (auto simp: admit_def check_enabled_def runnable_def Let_def)
next
  case True
  let ?v = "setCond cfg cl obj conditionActive ConditionTrue ''Enabled'' ''policy is enabled'' v"
  obtain cap w where q: "query_support cfg cl obj ?v = (cap, w)" by force
  have w: "reads_as obj conditionActive ConditionTrue (vs_conditions w)"
    using query_active [OF assms, where obj = obj and s = ConditionTrue and cl = cl and v = ?v] q
    by (simp add: setCond_reads(1) [OF assms])
  show ?thesis
  proof (cases "cap_state cap = SupportUnsupported")
    case True
    with \<open>enabled (po_spec obj)\<close> q w show ?thesis
      by (auto simp: admit_def check_enabled_def check_support_def)
  next
    case supported: False
    have "\<not> runnable cfg obj" if "check_namespaces cfg cl obj w = Inl w'" for w'
      using that by (auto simp: check_namespaces_def runnable_def Let_def split: sum.splits if_splits)
    moreover have "\<not> runnable cfg obj" if "check_pod_selector cfg cl obj w = Inl w'" for w'
      using that by (auto simp: check_pod_selector_def runnable_def Let_def split: sum.splits option.splits)
    moreover have "reads_as obj conditionActive ConditionFalse (vs_conditions w')"
      if "check_namespaces cfg cl obj w = Inl w' \<or> check_pod_selector cfg cl obj w = Inl w'" for w'
      using that
      by (auto simp: check_namespaces_def check_pod_selector_def setCond_reads(1) [OF assms] Let_def
          split: sum.splits option.splits if_splits)
    moreover have "admit cfg cl obj v = (case check_namespaces cfg cl obj w of Inl x \<Rightarrow> Inl x
        | Inr sel \<Rightarrow> (case check_pod_selector cfg cl obj w of Inl x \<Rightarrow> Inl x
          | Inr ls \<Rightarrow> Inr \<lparr>ad_cap = cap, ad_namespaces = sel, ad_pods = ls, ad_visit = w\<rparr>))"
      using True q supported by (simp add: admit_def check_enabled_def check_support_def)
    ultimately show ?thesis
      using w by (auto split: sum.splits)
  qed
qed

text \<open>
  C23. Every run of a policy that was read writes its status: for the generation it has read,
  with the instant of the run and a condition \<open>Active\<close>, which is false only for a policy that
  cannot run as it is (disabled, a bad or unsafe selector) and true whenever the pods were
  looked at.
\<close>

theorem status_says_why:
  assumes "reconcile cfg cl name pr e oc" "set_condition_ok (rq_set_condition cfg)"
    and "cl_get_policy cl name (snd (w_now (cl_world cl) e)) = (Inr obj, e2)"
  shows "\<exists>s active. oc_status oc = Some s \<and> st_observed_generation s = po_generation obj \<and> st_last_run s \<noteq> None \<and>
    reads_as obj conditionActive active (st_conditions s) \<and>
    (active = ConditionTrue \<or> active = ConditionFalse \<and> \<not> runnable cfg obj \<and> oc_summary oc = None)"
  using assms(1)
proof cases
  case (early started e1 obj' e2' v)
  with assms(3) admit_active [OF assms(2), where cl = cl and obj = obj and v = "first_visit obj pr e2"] show ?thesis
    by (auto simp: reported_def)
next
  case (ran started e1 obj' e2' ad li ctx st0 st aggs real unix sm v)
  have same: "obj' = obj" "e2' = e2" using assms(3) ran(2,3) by simp_all
  have "reads_as obj conditionActive ConditionTrue (vs_conditions (ad_visit ad))"
    using admit_active [OF assms(2), where cl = cl and obj = obj and v = "first_visit obj pr e2"] ran(4) same by simp
  moreover obtain ans w where pre: "li = list_candidates cfg cl obj' ad"
    "collect_metrics cfg cl obj' (ad_pods ad) li = (ans, w)" "ctx = run_context cfg cl obj' (ad_cap ad) ans"
    "st0 = start_run (rq_quantities cfg) (timing (po_spec obj'))
      (lim_max_pods (run_limits_of cfg (timing (po_spec obj')))) (ls_failed li) w"
    using prepareE [OF ran(5)] by metis
  moreover have "vs_conditions w = vs_conditions (ad_visit ad)"
    using pre(1,2) by (auto simp: collect_metrics_def list_candidates_def Let_def split: if_splits prod.splits)
  ultimately have start: "reads_as obj conditionActive ConditionTrue (rs_conditions st0)"
    by (simp add: start_run_def)
  have "set_condition_ok (rc_set_condition ctx)"
    using assms(2) pre(3) by (simp add: run_context_def)
  then have "reads_as obj conditionActive ConditionTrue (rs_conditions st)"
    using outcome_invariant [OF ran(6), of "\<lambda>st. reads_as obj conditionActive ConditionTrue (rs_conditions st)"]
      start advance_active by blast
  then have "reads_as obj conditionActive ConditionTrue (vs_conditions v)"
    using ran(8) unfolding same
    by (auto simp: finish_run_def visit_of_def setCond_reads(2) [OF assms(2)] Let_def split: prod.splits)
  with ran(1) same show ?thesis
    by (auto simp: reported_def)
qed (use assms(3) in simp_all)

section \<open>Witnesses\<close>

theorem reconcile_returns_witness: "\<exists>oc. reconcile ex_cfg ex_cluster ''p'' (Some ex_prober) 0 oc"
  using reconcile_returns [of ex_cfg ex_cluster "''p''" "Some ex_prober" 0] by blast

lemma ex_got: "cl_get_policy ex_cluster ''p'' (snd (w_now (cl_world ex_cluster) 0)) = (Inr ex_policy, 0)"
  by simp


text \<open>A run of ninety seconds with an interval of a minute.\<close>

definition ex_slow_cluster :: "(int, unit, unit, nat) cluster" where
  "ex_slow_cluster = ex_cluster\<lparr>cl_world := ex_world\<lparr>w_now := (\<lambda>e. (90 * second, e))\<rparr>\<rparr>"

definition ex_empty_listing :: "(int, nat) listing" where
  "ex_empty_listing = \<lparr>ls_failed = False, ls_listed = 0, ls_namespaces = 0, ls_selection = no_selection,
     ls_visit = first_visit ex_policy None 0\<rparr>"

theorem slow_run_not_requeued_witness:
  "sm_requeue (fst (finish_run ex_cfg ex_slow_cluster ex_policy 0 ex_empty_listing ex_start [] 0 0)) = 0"
proof -
  obtain sm v where f: "finish_run ex_cfg ex_slow_cluster ex_policy 0 ex_empty_listing ex_start [] 0 0 = (sm, v)"
    by force
  have "w_now (cl_world ex_slow_cluster) (rs_env ex_start) = (90 * second, rs_env ex_start)"
    by (simp add: ex_slow_cluster_def)
  from slow_run_not_requeued [OF f this] f show ?thesis
    by (simp add: run_limits_of_def or_default_def)
qed

text \<open>The same policy, disabled, in a cluster that has no pods and in one that has.\<close>

definition ex_off_cluster :: "(int, unit, unit, nat) cluster" where
  "ex_off_cluster = ex_cluster\<lparr>cl_get_policy :=
     (\<lambda>name e. (Inr (ex_policy\<lparr>po_spec := ex_run_spec\<lparr>enabled := False\<rparr>\<rparr>), e))\<rparr>"

definition ex_off_empty :: "(int, unit, unit, nat) cluster" where
  "ex_off_empty = ex_off_cluster\<lparr>cl_list_pods := (\<lambda>s e. ((None, []), e))\<rparr>"

theorem early_exit_touches_no_pods_witness:
  "\<exists>oc. reconcile ex_cfg ex_off_cluster ''p'' (Some ex_prober) 0 oc \<and>
     reconcile ex_cfg ex_off_empty ''p'' (Some ex_prober) 0 oc"
proof -
  let ?obj = "ex_policy\<lparr>po_spec := ex_run_spec\<lparr>enabled := False\<rparr>\<rparr>"
  have same: "same_control ex_off_cluster ex_off_empty"
    by (simp add: same_control_def ex_off_empty_def)
  have got: "cl_get_policy ex_off_cluster ''p'' 0 = (Inr ?obj, 0)" "w_now (cl_world ex_off_cluster) 0 = (0, 0)"
    by (simp_all add: ex_off_cluster_def)
  obtain v where "admit ex_cfg ex_off_cluster ?obj (first_visit ?obj (Some ex_prober) 0) = Inl v"
    by (simp add: admit_def check_enabled_def)
  from reconcile.early [OF got(2,1) this]
  obtain oc where oc: "reconcile ex_cfg ex_off_cluster ''p'' (Some ex_prober) 0 oc" by blast
  have "\<not> runnable ex_cfg ?obj" by (simp add: runnable_def)
  with early_exit_touches_no_pods [OF oc same] oc got show ?thesis by auto
qed

theorem fatal_error_backs_off_witness:
  "\<exists>oc p. rs_prober (processOne ex_fatal_ctx ex_candidate ex_start) = Some p \<and>
     reconcile ex_cfg ex_cluster ''p'' (Some p) 0 oc \<and> oc_summary oc = None"
proof -
  let ?st = "processOne ex_fatal_ctx ex_candidate ex_start"
  obtain n where run: "pool_steps ex_fatal_ctx n (start_pool [ex_candidate] 1 ex_start)
      \<lparr>pl_queue = [], pl_workers = [None], pl_shared = ?st\<rparr>"
    using serial_run [of ex_fatal_ctx "[ex_candidate]" ex_start] by auto
  obtain p where p: "rs_prober ?st = Some p" "cap_checked (cache p) = 0"
    using ex_fatal_prober by blast
  obtain oc where oc: "reconcile ex_cfg ex_cluster ''p'' (Some p) 0 oc"
    using reconcile_exists [of ex_cfg ex_cluster "''p''" "Some p" 0] by blast
  have "oc_summary oc = None"
    using fatal_error_backs_off [OF run _ _ _ oc ex_got] ex_fatal_run p
    by (simp add: ex_start_def cap_fresh_def run_limits_of_def or_default_def time_is_zero_def zero_time_def time_sub_def)
  with oc p show ?thesis by blast
qed

lemma ex_listed: "cl_list_pods ex_cluster s e = ((None, [ex_candidate]), e)"
  by simp


theorem summary_adds_up_witness:
  "\<exists>oc sm. reconcile ex_cfg ex_cluster ''p'' (Some ex_prober) 0 oc \<and> oc_summary oc = Some sm \<and>
     PodsResized (sm_stats sm) \<le> 20"
  using ex_ran summary_adds_up [OF _ _ ex_got] by (fastforce simp: or_default_def)

lemma ex_prepared:
  assumes "same_control ex_cluster cl"
  obtains ad li ctx st0 st where "admit ex_cfg cl ex_policy (first_visit ex_policy (Some ex_prober) 0) = Inr ad"
    "prepare ex_cfg cl ex_policy ad = (li, ctx, st0)"
    "pool_outcome ctx (sn_candidates (ls_selection li)) (run_workers ex_cfg ex_policy) st0 st"
proof -
  obtain ad where "admit ex_cfg cl ex_policy (first_visit ex_policy (Some ex_prober) 0) = Inr ad"
    using ex_admitted same_control_admit [OF assms, of ex_cfg ex_policy] by metis
  moreover obtain li ctx st0 where "prepare ex_cfg cl ex_policy ad = (li, ctx, st0)" using prod_cases3 by blast
  ultimately show thesis
    using pool_outcome_exists [of ctx "sn_candidates (ls_selection li)" "run_workers ex_cfg ex_policy" st0] that by blast
qed


text \<open>The cluster whose list of pods fails.\<close>

definition ex_blind_cluster :: "(int, unit, unit, nat) cluster" where
  "ex_blind_cluster = ex_cluster\<lparr>cl_list_pods := (\<lambda>s e. ((Some ''denied'', []), e))\<rparr>"

lemma failed_list_reported_as_empty_witness:
  "\<exists>st :: nat run_state. rs_stop_all st \<and> fst (snd (metrics_verdict st)) = ''NoEligiblePods''"
proof -
  have "same_control ex_cluster ex_blind_cluster" by (simp add: same_control_def ex_blind_cluster_def)
  then obtain ad li ctx st0 st where p: "prepare ex_cfg ex_blind_cluster ex_policy ad = (li, ctx, st0)"
    "pool_outcome ctx (sn_candidates (ls_selection li)) (run_workers ex_cfg ex_policy) st0 st"
    using ex_prepared by metis
  have "cl_list_pods ex_blind_cluster (ad_pods ad) (vs_env (ad_visit ad)) = ((Some ''denied'', []), vs_env (ad_visit ad))"
    by (simp add: ex_blind_cluster_def)
  from failed_list_reported_as_empty [OF p(1) this p(2)] show ?thesis by force
qed


theorem reconcile_calls_typed_witness:
  "\<exists>oc sm. reconcile ex_cfg ex_cluster ''p'' (Some ex_prober) 0 oc \<and> oc_summary oc = Some sm \<and>
     list_all accepted_or_least (oc_calls oc)"
  using ex_ran reconcile_calls_typed [of ex_cfg ex_cluster "''p''" "Some ex_prober" 0] by blast

lemma put_condition_ok: "set_condition_ok put_condition"
proof -
  have "find (\<lambda>d. cond_type d = ty) (filter (\<lambda>d. cond_type d \<noteq> ty') cs) = find (\<lambda>d. cond_type d = ty) cs"
    if "ty \<noteq> ty'" for ty ty' and cs :: "condition list"
    using that by (induction cs) auto
  moreover have "\<exists>t. c = c\<lparr>cond_transition := t\<rparr>" for c :: condition
    by (rule exI [of _ "cond_transition c"]) simp
  ultimately show ?thesis
    by (simp add: set_condition_ok_def condition_of_def put_condition_def)
qed

theorem status_says_why_witness:
  "\<exists>oc s. reconcile ex_cfg ex_cluster ''p'' (Some ex_prober) 0 oc \<and> oc_status oc = Some s \<and>
     st_observed_generation s = 1 \<and> reads_as ex_policy conditionActive ConditionTrue (st_conditions s)"
proof -
  obtain oc sm where oc: "reconcile ex_cfg ex_cluster ''p'' (Some ex_prober) 0 oc" "oc_summary oc = Some sm"
    using ex_ran by blast
  have "set_condition_ok (rq_set_condition ex_cfg)" by (simp add: put_condition_ok)
  from status_says_why [OF oc(1) this ex_got] oc show ?thesis by auto
qed

end
