(* ===== verification/SteadyCalls.thy ===== *)
theory SteadyCalls
  imports ReconcileProps
begin

text \<open>
  What the calls of a run of \<open>Reconcile\<close> do to the world, apart from those of the workers: a
  relation \<open>S\<close> that is reflexive and transitive and that contains the effect of each such call
  contains the effect of every part of the handler. \<open>RunEffects\<close> and \<open>ResizeCalls\<close> use it, each
  with its own \<open>S\<close>.
\<close>

section \<open>Steady calls\<close>

definition steady :: "('e \<Rightarrow> 'e \<Rightarrow> bool) \<Rightarrow> ('q, 'l, 's, 'e) cluster \<Rightarrow> bool" where
  "steady S cl \<longleftrightarrow>
     reflp S \<and> transp S \<and>
     (\<forall>e t e'. w_now (cl_world cl) e = (t, e') \<longrightarrow> S e e') \<and>
     (\<forall>name e r e'. cl_get_policy cl name e = (r, e') \<longrightarrow> S e e') \<and>
     (\<forall>e r e'. cl_discover cl e = (r, e') \<longrightarrow> S e e') \<and>
     (\<forall>s e r e'. cl_list_pods cl s e = (r, e') \<longrightarrow> S e e') \<and>
     (\<forall>list ns l e r e'. cl_list_metrics cl = Some list \<longrightarrow> list ns l e = (r, e') \<longrightarrow> S e e') \<and>
     (\<forall>name old new e r e'. cl_patch_status cl name old new e = (r, e') \<longrightarrow> S e e')"

lemma steady_refl: "steady S cl \<Longrightarrow> S e e"
  by (simp add: steady_def reflpD)

lemma steady_trans: "steady S cl \<Longrightarrow> S e e1 \<Longrightarrow> S e1 e2 \<Longrightarrow> S e e2"
  unfolding steady_def by (metis transpE)

lemma steadyD:
  assumes "steady S cl"
  shows "w_now (cl_world cl) e = (t, e') \<Longrightarrow> S e e'"
    and "cl_get_policy cl name e = (pol, e') \<Longrightarrow> S e e'"
    and "cl_discover cl e = (d, e') \<Longrightarrow> S e e'"
    and "cl_list_pods cl s e = (pods, e') \<Longrightarrow> S e e'"
    and "cl_list_metrics cl = Some list \<Longrightarrow> list ns l e = (m, e') \<Longrightarrow> S e e'"
    and "cl_patch_status cl name old new e = (err, e') \<Longrightarrow> S e e'"
  using assms by (cases pods; auto simp: steady_def)+

lemmas steady_now = steadyD(1)

lemma steady_policy:
  "steady S cl \<Longrightarrow> w_now (cl_world cl) e = (t, e1) \<Longrightarrow> cl_get_policy cl name e1 = (r, e2) \<Longrightarrow> S e e2"
  using steady_trans [of S cl e e1 e2] steadyD(1,2) [of S cl] by simp

section \<open>The rest of a run\<close>

lemma setCond_steady:
  assumes "steady S cl"
  shows "S (vs_env v) (vs_env (setCond cfg cl obj ty status reason msg v))"
  using steady_now [OF assms] by (auto simp: setCond_def split: prod.splits)

lemma query_steady:
  assumes "steady S cl"
  shows "S (vs_env v) (vs_env (snd (query_support cfg cl obj v)))"
proof (cases "vs_prober v")
  case None
  then show ?thesis using steady_refl [OF assms] by (simp add: query_support_def)
next
  case (Some pr)
  obtain now e1 where now: "w_now (cl_world cl) (vs_env v) = (now, e1)" by force
  obtain cap pr' e2 where ask: "ask_prober cl (lim_cap_ttl (run_limits_of cfg (timing (po_spec obj)))) now pr e1 = (cap, pr', e2)"
    using prod_cases3 by blast
  have "S e1 e2"
    using ask steady_refl [OF assms] steadyD(3) [OF assms]
    by (auto simp: ask_prober_def Let_def split: prod.splits if_splits)
  with steady_now [OF assms now] have q: "S (vs_env v) e2" by (rule steady_trans [OF assms])
  show ?thesis
    unfolding query_support_def using Some now ask
    by (auto intro!: steady_trans [OF assms q] steady_trans [OF assms _ setCond_steady [OF assms]] steady_refl [OF assms])
qed

lemma check_steady:
  assumes "steady S cl"
  shows "check_enabled cfg cl obj v = Inl w \<or> check_enabled cfg cl obj v = Inr w \<Longrightarrow> S (vs_env v) (vs_env w)"
    and "check_support cfg cl obj v = Inl w \<or> check_support cfg cl obj v = Inr (cap, w) \<Longrightarrow> S (vs_env v) (vs_env w)"
    and "check_namespaces cfg cl obj v = Inl w \<Longrightarrow> S (vs_env v) (vs_env w)"
    and "check_pod_selector cfg cl obj v = Inl w \<Longrightarrow> S (vs_env v) (vs_env w)"
proof -
  note c = setCond_steady [OF assms]
  show "check_enabled cfg cl obj v = Inl w \<or> check_enabled cfg cl obj v = Inr w \<Longrightarrow> S (vs_env v) (vs_env w)"
    using c by (auto simp: check_enabled_def split: if_splits)
  show "check_support cfg cl obj v = Inl w \<or> check_support cfg cl obj v = Inr (cap, w) \<Longrightarrow> S (vs_env v) (vs_env w)"
    using query_steady [OF assms, of v cfg obj] by (auto simp: check_support_def Let_def split: prod.splits if_splits)
  show "check_namespaces cfg cl obj v = Inl w \<Longrightarrow> S (vs_env v) (vs_env w)"
    using c by (auto simp: check_namespaces_def Let_def split: sum.splits if_splits)
  show "check_pod_selector cfg cl obj v = Inl w \<Longrightarrow> S (vs_env v) (vs_env w)"
    using c by (auto simp: check_pod_selector_def split: option.splits sum.splits)
qed

lemma admit_steady:
  assumes "steady S cl"
  shows "S (vs_env v) (vs_env (case admit cfg cl obj v of Inl w \<Rightarrow> w | Inr ad \<Rightarrow> ad_visit ad))"
proof (cases "check_enabled cfg cl obj v")
  case (Inl w)
  then show ?thesis using check_steady(1) [OF assms, of cfg obj v w] by (simp add: admit_def)
next
  case enabled: (Inr v1)
  note q1 = check_steady(1) [OF assms, of cfg obj v v1, OF disjI2, OF enabled]
  show ?thesis
  proof (cases "check_support cfg cl obj v1")
    case (Inl w)
    then show ?thesis
      using enabled steady_trans [OF assms q1 check_steady(2) [OF assms, of cfg obj v1 w]] by (simp add: admit_def)
  next
    case (Inr x)
    obtain cap v2 where x: "x = (cap, v2)" by force
    note q2 = steady_trans [OF assms q1 check_steady(2) [OF assms, of cfg obj v1 v2 cap, OF disjI2, OF Inr [unfolded x]]]
    show ?thesis
      using enabled Inr x q2 steady_trans [OF assms q2 check_steady(3) [OF assms]] steady_trans [OF assms q2 check_steady(4) [OF assms]]
      by (auto simp: admit_def split: sum.splits)
  qed
qed

lemma select_pods_steady:
  assumes "steady S cl" "select_pods cfg (cl_world cl) sel cd pods e = (sn, e')"
  shows "S e e'"
  using assms(2)
proof (induction pods arbitrary: sn e' rule: rev_induct)
  case Nil
  then show ?case using steady_refl [OF assms(1)] by (simp add: select_pods_def)
next
  case (snoc p pods)
  obtain sn0 e0 where before: "select_pods cfg (cl_world cl) sel cd pods e = (sn0, e0)" by force
  then have "select_pod cfg (cl_world cl) sel cd p (sn0, e0) = (sn, e')"
    using snoc.prems by (simp add: select_pods_def)
  moreover obtain now e1 where now: "w_now (cl_world cl) e0 = (now, e1)" by force
  ultimately have "e' = e0 \<or> e' = e1"
    by (auto simp: select_pod_def Let_def split: if_splits)
  with steady_trans [OF assms(1) snoc.IH [OF before] steady_now [OF assms(1) now]] snoc.IH [OF before]
  show ?case by blast
qed

text \<open>Up to the pool: what was listed, and that the candidates are selected from it.\<close>

lemma prepare_steady:
  assumes "steady S cl" "admit cfg cl obj v = Inr ad" "prepare cfg cl obj ad = (li, ctx, st0)"
  obtains err pods e1 sn e2 ans where "S (vs_env v) (vs_env (ad_visit ad))"
    "cl_list_pods cl (ad_pods ad) (vs_env (ad_visit ad)) = ((err, pods), e1)"
    "select_pods cfg (cl_world cl) (ad_namespaces ad) (cooldown (timing (po_spec obj))) pods e1 = (sn, e2)"
    "ls_selection li = sn" "S e2 (rs_env st0)" "S (vs_env v) (rs_env st0)"
    "ctx = run_context cfg cl obj (ad_cap ad) ans"
proof -
  obtain ans u where pre: "li = list_candidates cfg cl obj ad" "collect_metrics cfg cl obj (ad_pods ad) li = (ans, u)"
    "ctx = run_context cfg cl obj (ad_cap ad) ans"
    "st0 = start_run (rq_quantities cfg) (timing (po_spec obj))
      (lim_max_pods (run_limits_of cfg (timing (po_spec obj)))) (ls_failed li) u"
    using prepareE [OF assms(3)] by metis
  obtain err pods e1 where l: "cl_list_pods cl (ad_pods ad) (vs_env (ad_visit ad)) = ((err, pods), e1)"
    by (metis surj_pair)
  obtain sn e2 where sn: "select_pods cfg (cl_world cl) (ad_namespaces ad) (cooldown (timing (po_spec obj))) pods e1 = (sn, e2)"
    by force
  note li = listing_fields [OF pre(1) [symmetric] l sn]
  have q1: "S (vs_env v) (vs_env (ad_visit ad))"
    using admit_steady [OF assms(1), of v cfg obj] assms(2) by simp
  have q2: "S (vs_env (ad_visit ad)) e1" using steadyD(4) [OF assms(1) l] .
  have "S e2 (vs_env u)"
    using pre(2) li(8) steady_refl [OF assms(1)] steadyD(5) [OF assms(1)]
    by (auto simp: collect_metrics_def ListPodMetrics_def Let_def split: if_splits option.splits prod.splits)
  then have q3: "S e2 (rs_env st0)" by (simp add: pre(4) start_run_def)
  have "S (vs_env v) (rs_env st0)"
    using steady_trans [OF assms(1)] q1 q2 q3 select_pods_steady [OF assms(1) sn] by meson
  with that q1 q3 l sn li(4) pre(3) show thesis by blast
qed

lemma leave_steady:
  assumes "steady S cl"
  shows "S (vs_env v) (oc_env (leave cl obj d sm v))"
proof -
  obtain now e1 where now: "w_now (cl_world cl) (vs_env v) = (now, e1)" by force
  obtain err e2 where "cl_patch_status cl (po_name obj) (po_status obj) (reported obj v now) e1 = (err, e2)" by force
  then have "S e1 e2" "oc_env (leave cl obj d sm v) = e2"
    using steadyD(6) [OF assms] now by (auto simp: leave_def)
  with steady_now [OF assms now] show ?thesis by (auto intro: steady_trans [OF assms])
qed

lemma finish_steady:
  assumes "steady S cl" "finish_run cfg cl obj started li st aggs real unix = (sm, v)"
  shows "S (rs_env st) (oc_env (leave cl obj d sm' v))" "vs_events v = rs_events st"
proof -
  obtain now e where now: "w_now (cl_world cl) (rs_env st) = (now, e)" by force
  obtain ty s reason msg u where "v = setCond cfg cl obj ty s reason msg u" "vs_env u = e" "vs_events u = rs_events st"
    using assms(2) now by (auto simp: finish_run_def visit_of_def Let_def split: prod.splits)
  then have "S e (vs_env v)" "vs_events v = rs_events st"
    using setCond_steady [OF assms(1), of u] by auto
  moreover note leave_steady [OF assms(1), of v obj d sm']
  ultimately show "S (rs_env st) (oc_env (leave cl obj d sm' v))" "vs_events v = rs_events st"
    using steady_now [OF assms(1) now] by (auto intro: steady_trans [OF assms(1)])
qed

end
