(* ===== verification/StoreExample.thy ===== *)
theory StoreExample
  imports SteadyCalls
begin

text \<open>
  A run of \<open>Reconcile\<close> that resizes a pod, on a cluster that keeps what it is told: for the
  witnesses of \<open>Cooldown\<close>, \<open>Stability\<close> and \<open>ResizeCalls\<close>.
\<close>

definition patched :: "string \<Rightarrow> ann_patch \<Rightarrow> string \<Rightarrow> string" where
  "patched a m old = (case map_of m a of None \<Rightarrow> old | Some v \<Rightarrow> (case v of None \<Rightarrow> '''' | Some s \<Rightarrow> s))"

text \<open>That is what a merge patch does to one annotation.\<close>

lemma patched_merge:
  assumes "distinct (map fst m)"
  shows "anns_get (merge_patch m anns) a = patched a m (anns_get anns a)"
  using assms
proof (induction m arbitrary: anns)
  case Nil
  then show ?case by (simp add: patched_def)
next
  case (Cons kv m)
  obtain k v where kv: "kv = (k, v)" by force
  have "merge_patch (kv # m) anns = merge_patch m (merge_patch [kv] anns)"
    by (simp add: merge_patch_def)
  moreover have "anns_get (merge_patch [kv] anns) a = patched a [kv] (anns_get anns a)"
    by (simp add: kv patched_def merge_patch_def anns_get_def split: option.split) (simp add: ann_get_def)
  moreover have "patched a (kv # m) old = patched a m (patched a [kv] old)" for old
  proof (cases "a = k")
    case True
    with Cons.prems have "map_of m a = None" by (simp add: kv map_of_eq_None_iff)
    then show ?thesis by (simp add: patched_def kv True)
  next
    case False
    then show ?thesis by (simp add: patched_def kv)
  qed
  ultimately show ?case using Cons by simp
qed

section \<open>A worker that resizes\<close>

text \<open>
  A worker whose pod passes every guard resizes it: one slot and the delta are used up,
  the pod is counted, the resize call got the computed pod, the annotations carry the hash
  and the instant at which the target was found stable, and the event is recorded.
\<close>

lemma processOne_resizes:
  assumes "\<not> rs_cancelled st" "rs_slots st = Suc n" "wanted ctx pod res"
    and "w_now (rc_world ctx) (rs_env st) = (t, e1)" "stable ctx pod res t"
    and "tryReserveBudget (res_delta res) (rs_budget st) = Some b"
    and "rs_prober st = Some pr" "cap_state (rc_cap ctx) = SupportSupported"
    and "UpdateResize (w_update_resize (rc_world ctx)) (Some pr) (Some pod) (desired res) e1 = (Inr out, e2)"
    and "w_patch_pod (rc_world ctx) (pod_namespace pod) (pod_name pod)
      (patch_of (applied_patch (rc_location ctx) (hash res) t)) e2 = (err, e3)"
  shows "let st' = processOne ctx pod st
    in rs_slots st' = n \<and> rs_budget st' = commitBudget (res_delta res) b \<and> rs_resized st' = Suc (rs_resized st) \<and>
    rs_aggs st' = add_agg (pod_namespace pod) (res_delta res) (rs_aggs st) \<and> rs_env st' = e3 \<and>
    rs_events st' = rs_events st @ (if rc_recorder ctx then [resized_event (rc_q ctx) pod (res_delta res)] else [])"
proof -
  obtain pm where pm: "getPodMetrics (rc_metrics ctx) (pod_namespace pod) (pod_name pod) = Inr (Some pm)"
    "ComputeDesired (rc_q ctx) (Some pod) (Some pm) (rc_spec ctx) = (res, None)" "changed res"
    "\<not> (cpu_request_milli (res_delta res) = 0 \<and> memory_request_byte (res_delta res) = 0)"
    using assms(3) by (auto simp: wanted_def nonzero_delta)
  define st1 where "st1 = st\<lparr>rs_slots := n\<rparr>"
  define st2 where "st2 = note_result ctx pod res (st1\<lparr>rs_metrics_ok := True\<rparr>)"
  define st3 where "st3 = st2\<lparr>rs_env := e1\<rparr>"
  define st4 where "st4 = st3\<lparr>rs_budget := b\<rparr>"
  define st5 where "st5 = (count_api_call ctx ''update_resize_apply'' st4)\<lparr>rs_env := e2\<rparr>"
  have s1: "advance ctx pod (Fresh, st) = (Slotted, st1)"
    using assms(1,2) by (simp add: begin_pod_def take_slot_def st1_def)
  have s2: "advance ctx pod (Slotted, st1) = (Computed res, st2)"
    using pm by (simp add: evaluate_pod_def act_on_result_def st2_def Let_def)
  have st2: "rs_env st2 = rs_env st" "rs_budget st2 = rs_budget st" "rs_prober st2 = rs_prober st"
    "rs_events st2 = rs_events st" "rs_resized st2 = rs_resized st" "rs_aggs st2 = rs_aggs st" "rs_slots st2 = n"
    by (simp_all add: st2_def st1_def)
  have s3: "advance ctx pod (Computed res, st2) = (Decided res t, st3)"
    using assms(4,5) st2 by (simp add: check_stable_def stable_def st3_def)
  have s4: "advance ctx pod (Decided res t, st3) = (Reserved res t, st4)"
    using assms(6) st2 by (simp add: reserve_budget_def st4_def st3_def)
  have s5: "advance ctx pod (Reserved res t, st4) = (Applied res t, st5)"
    using assms(7-9) st2
    by (simp add: apply_resize_def count_api_call_def st5_def st4_def st3_def Let_def)
  obtain st6 where st6: "commit_resize ctx pod res t st5 = (Committed res t, st6)"
    by (simp add: commit_resize_def)
  have "fst (annotate_pod ctx pod res t st6) = Finished"
    by (simp add: annotate_pod_def Let_def split: prod.split)
  then obtain st7 where st7: "annotate_pod ctx pod res t st6 = (Finished, st7)"
    by (metis prod.collapse)
  have nine: "9 = Suc (Suc (Suc (Suc (Suc (Suc (Suc (Suc (Suc 0))))))))" by simp
  have run: "processOne ctx pod st = st7"
    unfolding processOne_def
    by (simp only: nine funpow_Suc_right funpow_0 comp_apply s1 s2 s3 s4 s5 advance.simps(10,11,14) st6 st7 snd_conv)
  have "rs_slots st6 = n" "rs_budget st6 = commitBudget (res_delta res) b" "rs_resized st6 = Suc (rs_resized st)"
    "rs_aggs st6 = add_agg (pod_namespace pod) (res_delta res) (rs_aggs st)" "rs_env st6 = e2"
    "rs_events st6 = rs_events st"
    using st2 st6 by (auto simp: commit_resize_def count_api_call_def keep_slot_def st5_def st4_def st3_def)
  moreover have "rs_slots st7 = rs_slots st6" "rs_budget st7 = rs_budget st6" "rs_resized st7 = rs_resized st6"
    "rs_aggs st7 = rs_aggs st6"
    "rs_events st7 = rs_events st6 @ (if rc_recorder ctx then [resized_event (rc_q ctx) pod (res_delta res)] else [])"
    using st7 by (auto simp: annotate_pod_def count_api_call_def Let_def split: prod.splits)
  moreover have "rs_env st7 = e3" if "rs_env st6 = e2"
    using st7 that assms(10) by (auto simp: annotate_pod_def patchPodAnnotations_def count_api_call_def Let_def)
  ultimately show ?thesis unfolding run by simp
qed

section \<open>The cluster\<close>

text \<open>
  Its state is the annotations of every pod and the log of the calls of \<open>pods/resize\<close>; its clock
  stands still. It lists one pod, and has two policies: \<open>w\<close> has a stabilisation window.
\<close>

type_synonym ex_store = "(string \<times> string \<Rightarrow> string smap option) \<times> (string \<times> string \<times> int pod) list"

definition ex_store_world :: "(int, ex_store) world" where
  "ex_store_world = \<lparr>w_now = (\<lambda>e. (0, e)), w_update_resize = (\<lambda>ns name d e. (Inr d, (fst e, snd e @ [(ns, name, d)]))),
     w_get_fresh = (\<lambda>ns name e. (Inl (plain_error ''gone''), e)),
     w_patch_pod = (\<lambda>ns name m e. (None, ((fst e)((ns, name) := merge_patch m (fst e (ns, name))), snd e)))\<rparr>"

definition ex_listed_pod :: "ex_store \<Rightarrow> int pod" where
  "ex_listed_pod e = ex_candidate\<lparr>annotations := fst e (''ns'', ''p'')\<rparr>"

definition ex_window_policy :: "(int, unit) policy_object" where
  "ex_window_policy = ex_policy\<lparr>po_name := ''w'', po_spec := ex_run_spec\<lparr>timing := ex_run_timing\<lparr>stabilization_window := minute\<rparr>\<rparr>\<rparr>"

definition ex_store_cluster :: "(int, unit, unit, ex_store) cluster" where
  "ex_store_cluster = \<lparr>cl_world = ex_store_world,
     cl_get_policy = (\<lambda>name e. (Inr (if name = ''w'' then ex_window_policy else ex_policy), e)),
     cl_discover = (\<lambda>e. (Inr [\<lparr>res_name = ''pods/resize'', res_verbs = [''update'']\<rparr>], e)),
     cl_list_pods = (\<lambda>s e. ((None, [ex_listed_pod e]), e)),
     cl_list_metrics = Some (\<lambda>ns l e. (Inr [ex_metrics (milli 101) (mebi 200)], e)),
     cl_patch_status = (\<lambda>name old new e. (None, e))\<rparr>"

lemma ex_store_fields [simp]:
  "cl_world ex_store_cluster = ex_store_world" "cl_get_policy ex_store_cluster name e = (Inr (if name = ''w'' then ex_window_policy else ex_policy), e)"
  "cl_discover ex_store_cluster e = (Inr [\<lparr>res_name = ''pods/resize'', res_verbs = [''update'']\<rparr>], e)"
  "cl_list_pods ex_store_cluster s e = ((None, [ex_listed_pod e]), e)"
  "cl_list_metrics ex_store_cluster = Some (\<lambda>ns l e. (Inr [ex_metrics (milli 101) (mebi 200)], e))"
  "cl_patch_status ex_store_cluster name old new e = (None, e)"
  "w_now ex_store_world e = (0, e)" "w_update_resize ex_store_world ns name d e = (Inr d, (fst e, snd e @ [(ns, name, d)]))"
  "w_patch_pod ex_store_world ns name m e = (None, ((fst e)((ns, name) := merge_patch m (fst e (ns, name))), snd e))"
  by (simp_all add: ex_store_cluster_def ex_store_world_def)

lemma ex_store_steady: "steady (\<lambda>e e'. e' = e) ex_store_cluster"
  by (simp add: steady_def reflp_def transp_def)

definition ex_blank :: ex_store where "ex_blank = (\<lambda>k. None, [])"

lemma ex_blank_log: "snd ex_blank = []"
  by (simp add: ex_blank_def)

lemma ex_store_admitted:
  obtains ad where "admit ex_cfg ex_store_cluster ex_policy (first_visit ex_policy (Some ex_prober) ex_blank) = Inr ad"
    "ad_namespaces ad = \<lparr>sel_match_type = ''Glob'', include_ms = [GlobMatcher ''*''], exclude_ms = []\<rparr>"
    "cap_state (ad_cap ad) = SupportSupported" "ad_pods ad = None" "vs_env (ad_visit ad) = ex_blank"
    "\<exists>pr. vs_prober (ad_visit ad) = Some pr \<and> has_clientset pr"
proof -
  let ?v = "setCond ex_cfg ex_store_cluster ex_policy conditionActive ConditionTrue ''Enabled'' ''policy is enabled''
    (first_visit ex_policy (Some ex_prober) ex_blank)"
  obtain cap v2 where q: "query_support ex_cfg ex_store_cluster ex_policy ?v = (cap, v2)" by force
  then have c: "cap_state cap = SupportSupported" "vs_env v2 = ex_blank"
    "\<exists>pr. vs_prober v2 = Some pr \<and> has_clientset pr"
    by (auto simp: query_support_def first_visit_def setCond_def ask_prober_def ex_prober_def NewProber_def
        Supported_def time_is_zero_def Let_def)
  have "admit ex_cfg ex_store_cluster ex_policy (first_visit ex_policy (Some ex_prober) ex_blank) =
      Inr \<lparr>ad_cap = cap, ad_namespaces = \<lparr>sel_match_type = ''Glob'', include_ms = [GlobMatcher ''*''], exclude_ms = []\<rparr>,
        ad_pods = None, ad_visit = v2\<rparr>"
    using q c by (simp add: admit_def check_enabled_def check_support_def check_namespaces_def check_pod_selector_def ex_compile)
  from that [OF this] c show thesis by simp
qed

lemma ex_match: "Match ex_regexp \<lparr>sel_match_type = ''Glob'', include_ms = [GlobMatcher ''*''], exclude_ms = []\<rparr> ''ns''"
  by code_simp

lemma ex_store_candidates:
  "select_pods ex_cfg ex_store_world \<lparr>sel_match_type = ''Glob'', include_ms = [GlobMatcher ''*''], exclude_ms = []\<rparr>
     600000000000 [ex_candidate] e =
   (\<lparr>sn_matched = 1, sn_eligible = 1, sn_cooldown = 0, sn_candidates = [ex_candidate]\<rparr>, e)"
proof -
  have "isEligiblePod (Some ex_candidate)" "annotations ex_candidate = None"
    by (simp_all add: isEligiblePod_def ex_candidate_def ex_pod_def)
  then show ?thesis
    by (simp add: select_pods_def select_pod_def no_selection_def ex_match shouldSkipByCooldown_def)
qed

lemma ex_store_prepared:
  assumes "admit ex_cfg ex_store_cluster ex_policy (first_visit ex_policy (Some ex_prober) ex_blank) = Inr ad"
    "ad_namespaces ad = \<lparr>sel_match_type = ''Glob'', include_ms = [GlobMatcher ''*''], exclude_ms = []\<rparr>"
    "ad_pods ad = None" "vs_env (ad_visit ad) = ex_blank"
    and "prepare ex_cfg ex_store_cluster ex_policy ad = (li, ctx, st0)"
  shows "sn_candidates (ls_selection li) = [ex_candidate]"
    and "ctx = run_context ex_cfg ex_store_cluster ex_policy (ad_cap ad)
      (MetricsListed (metrics_map [ex_metrics (milli 101) (mebi 200)]))"
    and "\<not> rs_cancelled st0" "\<not> rs_stop_all st0" "rs_slots st0 = 20" "rs_env st0 = ex_blank"
    and "rs_prober st0 = vs_prober (ad_visit ad)" "rs_budget st0 = newBudgetManager nano_ops ex_run_timing"
proof -
  have listed: "ex_listed_pod ex_blank = ex_candidate" by (simp add: ex_listed_pod_def ex_blank_def ex_candidate_def ex_pod_def)
  have tm: "timing ex_run_spec = ex_run_timing" by (simp add: ex_run_spec_def)
  obtain li' where li': "list_candidates ex_cfg ex_store_cluster ex_policy ad = li'"
    "sn_candidates (ls_selection li') = [ex_candidate]" "\<not> ls_failed li'" "vs_env (ls_visit li') = ex_blank"
    "vs_prober (ls_visit li') = vs_prober (ad_visit ad)"
    using assms(2-4) by (simp add: list_candidates_def listed ex_store_candidates Let_def)
  obtain u where u: "collect_metrics ex_cfg ex_store_cluster ex_policy (ad_pods ad) li' =
      (MetricsListed (metrics_map [ex_metrics (milli 101) (mebi 200)]), u)"
    "vs_env u = ex_blank" "vs_prober u = vs_prober (ad_visit ad)"
    using li' assms(3) by (simp add: collect_metrics_def ListPodMetrics_def Let_def)
  have pre: "li = li'" "ctx = run_context ex_cfg ex_store_cluster ex_policy (ad_cap ad)
      (MetricsListed (metrics_map [ex_metrics (milli 101) (mebi 200)]))"
    "st0 = start_run nano_ops ex_run_timing (lim_max_pods (run_limits_of ex_cfg ex_run_timing)) (ls_failed li') u"
    using assms(5) li'(1) u(1) by (auto simp: prepare_def tm Let_def)
  show "sn_candidates (ls_selection li) = [ex_candidate]" using pre(1) li'(2) by simp
  show "ctx = run_context ex_cfg ex_store_cluster ex_policy (ad_cap ad)
      (MetricsListed (metrics_map [ex_metrics (milli 101) (mebi 200)]))" by (rule pre(2))
  have "lim_max_pods (run_limits_of ex_cfg ex_run_timing) = 20"
    by (simp add: run_limits_of_def or_default_def flip: tm)
  with pre(3) li'(3) u show "\<not> rs_cancelled st0" "\<not> rs_stop_all st0" "rs_slots st0 = 20" "rs_env st0 = ex_blank"
    "rs_prober st0 = vs_prober (ad_visit ad)" "rs_budget st0 = newBudgetManager nano_ops ex_run_timing"
    by (simp_all add: start_run_def)
qed

text \<open>The first run resizes the pod.\<close>

lemma ex_store_processed:
  assumes "ctx = run_context ex_cfg ex_store_cluster ex_policy cap
      (MetricsListed (metrics_map [ex_metrics (milli 101) (mebi 200)]))" "cap_state cap = SupportSupported"
    and "\<not> rs_cancelled st" "rs_slots st = 20" "rs_env st = ex_blank" "rs_prober st = Some pr" "has_clientset pr"
    and "rs_budget st = newBudgetManager nano_ops ex_run_timing"
  shows "let st' = processOne ctx ex_candidate st
    in rs_resized st' = Suc (rs_resized st) \<and> (\<exists>ev \<in> set (rs_events st'). ev_reason ev = ''Resized'') \<and>
      snd (rs_env st') = [(''ns'', ''p'', the (desired ex_result))]"
proof -
  have ctx: "rc_q ctx = nano_ops" "rc_world ctx = ex_store_world" "rc_location ctx = ex_location" "rc_spec ctx = ex_run_spec"
    "rc_cap ctx = cap" "rc_recorder ctx"
    "rc_metrics ctx = MetricsListed (metrics_map [ex_metrics (milli 101) (mebi 200)])"
    by (simp_all add: assms(1) run_context_def)
  have "res_delta ex_result \<noteq> zero_delta" by (simp add: nonzero_delta)
  moreover have "metrics_map [ex_metrics (milli 101) (mebi 200)] (''ns'', ''p'') = Some (ex_metrics (milli 101) (mebi 200))"
    by (simp add: metrics_map_def ex_metrics_def)
  ultimately have "wanted ctx ex_candidate ex_result"
    by (simp add: wanted_def ctx getPodMetrics_def ex_run_compute)
  moreover have "stable ctx ex_candidate ex_result 0"
    by (simp add: stable_def ctx stabilizationAllows_def ex_run_spec_def ex_run_timing_def)
  moreover have "tryReserveBudget (res_delta ex_result) (rs_budget st) =
      Some ((rs_budget st)\<lparr>bm_reserved := res_delta ex_result\<rparr>)"
    by (simp add: assms(8) ex_budget tryReserveBudget_def zero_delta_def delta_add_def i64_small)
  ultimately have "let st' = processOne ctx ex_candidate st
    in rs_slots st' = 19 \<and>
      rs_budget st' = commitBudget (res_delta ex_result) ((rs_budget st)\<lparr>bm_reserved := res_delta ex_result\<rparr>) \<and>
      rs_resized st' = Suc (rs_resized st) \<and>
      rs_aggs st' = add_agg (pod_namespace ex_candidate) (res_delta ex_result) (rs_aggs st) \<and>
      rs_env st' = ((fst ex_blank)((''ns'', ''p'') := merge_patch (patch_of (applied_patch ex_location (hash ex_result) 0))
        (fst ex_blank (''ns'', ''p''))), [(''ns'', ''p'', the (desired ex_result))]) \<and>
      rs_events st' = rs_events st @ (if rc_recorder ctx then [resized_event (rc_q ctx) ex_candidate (res_delta ex_result)] else [])"
    by (intro processOne_resizes [where n = 19 and pr = pr and out = ex_desired and ?e1.0 = ex_blank and ?e2.0 = "(fst ex_blank, [(''ns'', ''p'', the (desired ex_result))])"])
      (simp_all add: assms(2-8) ctx UpdateResize_def ex_blank_log)
  then show ?thesis by (simp add: Let_def ctx resized_event_def)
qed

lemma ex_store_run:
  obtains oc ev where "reconcile ex_cfg ex_store_cluster ''p'' (Some ex_prober) ex_blank oc" "ev \<in> set (oc_events oc)"
    "ev_reason ev = ''Resized''" "snd (oc_env oc) = [(''ns'', ''p'', the (desired ex_result))]"
proof -
  obtain ad where ad: "admit ex_cfg ex_store_cluster ex_policy (first_visit ex_policy (Some ex_prober) ex_blank) = Inr ad"
    "ad_namespaces ad = \<lparr>sel_match_type = ''Glob'', include_ms = [GlobMatcher ''*''], exclude_ms = []\<rparr>"
    "cap_state (ad_cap ad) = SupportSupported" "ad_pods ad = None" "vs_env (ad_visit ad) = ex_blank"
    "\<exists>pr. vs_prober (ad_visit ad) = Some pr \<and> has_clientset pr"
    by (rule ex_store_admitted)
  obtain li ctx st0 where p: "prepare ex_cfg ex_store_cluster ex_policy ad = (li, ctx, st0)" using prod_cases3 by blast
  note prep = ex_store_prepared [OF ad(1,2,4,5) p]
  obtain pr where pr: "rs_prober st0 = Some pr" "has_clientset pr" using ad(6) prep(7) by auto
  let ?st = "processOne ctx ex_candidate st0"
  obtain ev where ev: "ev \<in> set (rs_events ?st)" "ev_reason ev = ''Resized''"
    and log: "snd (rs_env ?st) = [(''ns'', ''p'', the (desired ex_result))]"
    using ex_store_processed [OF prep(2) ad(3) prep(3,5,6) pr prep(8)] by (auto simp: Let_def)
  have "run_workers ex_cfg ex_policy = 1"
    by (simp add: run_workers_def concurrent_pods_def run_limits_of_def or_default_def)
  moreover obtain n where "pool_steps ctx n (start_pool [ex_candidate] 1 st0)
      \<lparr>pl_queue = [], pl_workers = [None], pl_shared = ?st\<rparr>"
    using serial_run [of ctx "[ex_candidate]" st0] by auto
  ultimately have pool: "pool_outcome ctx (sn_candidates (ls_selection li)) (run_workers ex_cfg ex_policy) st0 ?st"
    using prep(1,4) by (fastforce simp: pool_outcome_def pool_done_def)
  obtain sm v where f: "finish_run ex_cfg ex_store_cluster ex_policy 0 li ?st (rs_aggs ?st) 0 0 = (sm, v)" by force
  let ?oc = "leave ex_store_cluster ex_policy (sm_requeue sm) (Some sm) v"
  have "reconcile ex_cfg ex_store_cluster ''p'' (Some ex_prober) ex_blank ?oc"
    by (rule reconcile.ran [OF _ _ ad(1) p pool refl f]) simp_all
  moreover have "oc_events ?oc = rs_events ?st"
    using finish_steady(2) [OF ex_store_steady f] by simp
  moreover have "oc_env ?oc = rs_env ?st"
    using finish_steady(1) [OF ex_store_steady f] by simp
  ultimately show thesis
    using that ev log by simp
qed

end
