(* ===== verification/ResizeCalls.thy ===== *)
theory ResizeCalls
  imports StoreExample PolicyProps
begin

text \<open>
  What Reconcile asks of the cluster: every call of \<open>pods/resize\<close> that a run makes, whatever the
  interleaving of its workers and whatever the cluster answers. \<open>L\<close> reads from the state of the
  world the calls that were made so far, as the API server could log them.
\<close>

section \<open>The log\<close>

type_synonym 'q resize_call = "string \<times> string \<times> 'q pod"

definition log_laws :: "('e \<Rightarrow> 'q resize_call list) \<Rightarrow> ('q, 'l, 's, 'e) cluster \<Rightarrow> bool" where
  "log_laws L cl \<longleftrightarrow>
     steady (\<lambda>e e'. L e' = L e) cl \<and>
     (\<forall>ns name e r e'. w_get_fresh (cl_world cl) ns name e = (r, e') \<longrightarrow>
        L e' = L e \<and> (\<forall>p. r = Inr p \<longrightarrow> pod_namespace p = ns \<and> pod_name p = name)) \<and>
     (\<forall>ns name m e r e'. w_patch_pod (cl_world cl) ns name m e = (r, e') \<longrightarrow> L e' = L e) \<and>
     (\<forall>ns name d e r e'. w_update_resize (cl_world cl) ns name d e = (r, e') \<longrightarrow> L e' = L e @ [(ns, name, d)])"

lemma logD:
  assumes "log_laws L cl" "rc_world ctx = cl_world cl"
  shows "w_now (rc_world ctx) e = (t, e') \<Longrightarrow> L e' = L e"
    and "w_get_fresh (rc_world ctx) ns name e = (r, e') \<Longrightarrow> L e' = L e"
    and "w_get_fresh (rc_world ctx) ns name e = (Inr p, e') \<Longrightarrow> pod_namespace p = ns \<and> pod_name p = name"
    and "w_patch_pod (rc_world ctx) ns name m e = (err, e') \<Longrightarrow> L e' = L e"
    and "w_update_resize (rc_world ctx) ns name d e = (r, e') \<Longrightarrow> L e' = L e @ [(ns, name, d)]"
  using assms by (auto simp: log_laws_def dest: steady_now)

section \<open>A worker\<close>

text \<open>The call is for the target of the pod, but for the version and the identity.\<close>

definition asked :: "('q, 'l, 'e) run_ctx \<Rightarrow> 'q pod \<Rightarrow> 'q resize_call \<Rightarrow> bool" where
  "asked ctx p c \<longleftrightarrow>
     (\<exists>res t des rv uid. wanted ctx p res \<and> stable ctx p res t \<and> desired res = Some des \<and>
        c = (pod_namespace p, pod_name p, des\<lparr>resource_version := rv, pod_uid := uid\<rparr>))"

lemma UpdateResize_calls:
  assumes "UpdateResize call pr (Some old) new e = (r, e')"
  shows "e' = e \<or> (\<exists>d r'. new = Some d \<and> call (pod_namespace old) (pod_name old) d e = (r', e'))"
  using assms by (auto simp: UpdateResize_def split: option.splits if_splits prod.splits sum.splits)

text \<open>A worker that will try again has read the pod it asked for.\<close>

definition same_pod :: "'q pod \<Rightarrow> 'q phase \<Rightarrow> bool" where
  "same_pod p ph \<longleftrightarrow>
     (\<forall>res t fresh. ph = Retrying res t fresh \<longrightarrow> pod_namespace fresh = pod_namespace p \<and> pod_name fresh = pod_name p)"

lemma advance_same_pod:
  assumes "advance ctx p (ph, st) = (ph', st')" "log_laws L cl" "rc_world ctx = cl_world cl"
  shows "same_pod p ph'"
proof (cases ph)
  case Slotted
  with assms(1) have "evaluate_pod ctx p st = (ph', st')" by simp
  then show ?thesis by (cases rule: evaluate_pod_cases) (simp_all add: same_pod_def)
next
  case (Conflicted res t)
  with assms(1) logD(3) [OF assms(2,3)] show ?thesis
    by (auto simp: fetch_fresh_def skip_conflict_def same_pod_def split: segment_splits)
qed (use assms(1) in \<open>auto simp: pool_segments call_segments same_pod_def take_slot_def Let_def split: segment_splits\<close>)

lemma advance_logged:
  assumes "advance ctx p (ph, st) = (ph', st')" "log_laws L cl" "rc_world ctx = cl_world cl"
    and "justified ctx p ph" "same_pod p ph"
  shows "L (rs_env st') = L (rs_env st) \<or> (\<exists>c. L (rs_env st') = L (rs_env st) @ [c] \<and> asked ctx p c)"
proof (cases ph)
  case Slotted
  with assms(1) have "evaluate_pod ctx p st = (ph', st')" by simp
  then show ?thesis by (cases rule: evaluate_pod_cases) simp_all
next
  case (Computed res)
  with assms(1) logD(1) [OF assms(2,3)] show ?thesis by (auto simp: check_stable_def split: prod.splits)
next
  case (Waiting res t)
  with assms(1) logD(4) [OF assms(2,3)] show ?thesis
    by (auto simp: note_pending_def ensurePending_def patchPodAnnotations_def Let_def split: prod.splits option.splits if_splits)
next
  case (Reserved res t)
  obtain r e where call: "UpdateResize (w_update_resize (rc_world ctx)) (rs_prober st) (Some p) (desired res) (rs_env st) = (r, e)"
    by force
  have "rs_env st' = rs_env st \<or> rs_env st' = e"
    using assms(1) Reserved call by (auto simp: apply_resize_def count_api_call_def Let_def split: segment_splits)
  moreover have "L e = L (rs_env st) \<or> (\<exists>c. L e = L (rs_env st) @ [c] \<and> asked ctx p c)"
    using UpdateResize_calls [OF call]
  proof (elim disjE exE conjE)
    fix d r' assume d: "desired res = Some d" "w_update_resize (rc_world ctx) (pod_namespace p) (pod_name p) d (rs_env st) = (r', e)"
    have "asked ctx p (pod_namespace p, pod_name p, d\<lparr>resource_version := resource_version d, pod_uid := pod_uid d\<rparr>)"
      unfolding asked_def using assms(4) Reserved d(1)
      by (intro exI [of _ res] exI [of _ t] exI [of _ d] exI [of _ "resource_version d"] exI [of _ "pod_uid d"]) simp
    with logD(5) [OF assms(2,3) d(2)] show ?thesis by auto
  qed simp
  ultimately show ?thesis by auto
next
  case (Conflicted res t)
  with assms(1) logD(2) [OF assms(2,3)] show ?thesis
    by (auto simp: fetch_fresh_def skip_conflict_def split: segment_splits)
next
  case (Retrying res t fresh)
  let ?f = "\<lambda>d. d\<lparr>resource_version := resource_version fresh, pod_uid := pod_uid fresh\<rparr>"
  obtain r e where call: "UpdateResize (w_update_resize (rc_world ctx)) (rs_prober st) (Some fresh)
      (map_option ?f (desired res)) (rs_env st) = (r, e)" by force
  have "rs_env st' = e"
    using assms(1) Retrying call by (auto simp: retry_conflict_def skip_conflict_def Let_def split: segment_splits)
  moreover have "L e = L (rs_env st) \<or> (\<exists>c. L e = L (rs_env st) @ [c] \<and> asked ctx p c)"
    using UpdateResize_calls [OF call]
  proof (elim disjE exE conjE)
    fix d r' assume d: "map_option ?f (desired res) = Some d"
      "w_update_resize (rc_world ctx) (pod_namespace fresh) (pod_name fresh) d (rs_env st) = (r', e)"
    have same: "pod_namespace fresh = pod_namespace p" "pod_name fresh = pod_name p"
      using assms(5) Retrying by (simp_all add: same_pod_def)
    have "asked ctx p (pod_namespace p, pod_name p, d)"
      using assms(4) Retrying d(1) unfolding asked_def by auto
    with logD(5) [OF assms(2,3) d(2)] same show ?thesis by auto
  qed simp
  ultimately show ?thesis by simp
next
  case (Refused res err)
  have "L (rs_env (mark_fatal ctx err s)) = L (rs_env s)" for s
    using logD(1) [OF assms(2,3)] by (auto simp: mark_fatal_def Let_def split: prod.splits)
  with assms(1) Refused show ?thesis by (cases err) (auto simp: fail_resize_def Let_def)
next
  case (Committed res t)
  with assms(1) logD(4) [OF assms(2,3)] show ?thesis
    by (auto simp: annotate_pod_def patchPodAnnotations_def count_api_call_def Let_def split: prod.splits)
qed (use assms(1) in \<open>auto simp: pool_segments split: segment_splits\<close>)

text \<open>
  The second attempt after a conflict takes nothing of the pod it has just read but the version
  and the identity: whatever else changed in the pod, and so caused the conflict, is
  overwritten with a target that was computed before.
\<close>

lemma retry_ignores_changes:
  "retry_conflict ctx res t (fresh\<lparr>containers := cs, init_containers := is, annotations := as\<rparr>) st =
   retry_conflict ctx res t fresh st"
  by (simp add: retry_conflict_def UpdateResize_def Let_def split: option.split)

section \<open>A run\<close>

definition logged ::
  "('e \<Rightarrow> 'q resize_call list) \<Rightarrow> ('q, 'l, 'e) run_ctx \<Rightarrow> 'q pod list \<Rightarrow> 'e \<Rightarrow> 'e run_state \<Rightarrow> bool" where
  "logged L ctx cands e st \<longleftrightarrow>
     (\<exists>new. L (rs_env st) = L e @ new \<and> (\<forall>c \<in> set new. \<exists>p \<in> set cands. asked ctx p c))"

lemma outcome_logged:
  assumes "pool_outcome ctx cands workers st0 st" "log_laws L cl" "rc_world ctx = cl_world cl"
    and "L (rs_env st0) = L e"
  shows "logged L ctx cands e st"
  using assms(1)
proof (cases rule: pool_outcomeE)
  case idle
  with assms(4) show ?thesis by (simp add: logged_def)
next
  case (pool n s)
  have start: "logged L ctx cands e st0" using assms(4) by (simp add: logged_def)
  have step: "logged L ctx cands e s' \<and> justified ctx p ph' \<and> same_pod p ph'"
    if "p \<in> set cands" "logged L ctx cands e s" "justified ctx p ph \<and> same_pod p ph" "advance ctx p (ph, s) = (ph', s')"
    for p ph s ph' s'
  proof -
    note now = that
    have "logged L ctx cands e s'"
    proof -
      obtain new where new: "L (rs_env s) = L e @ new" "\<forall>c \<in> set new. \<exists>p \<in> set cands. asked ctx p c"
        using now(2) unfolding logged_def by blast
      consider "L (rs_env s') = L e @ new" | c where "L (rs_env s') = L e @ (new @ [c])" "asked ctx p c"
        using advance_logged [OF now(4) assms(2,3)] now(3) new(1) by auto
      then show ?thesis
      proof cases
        case 1
        with new(2) show ?thesis unfolding logged_def by blast
      next
        case (2 c)
        with new(2) now(1) show ?thesis
          unfolding logged_def by (intro exI [of _ "new @ [c]"]) auto
      qed
    qed
    with advance_justified [OF that(4)] advance_same_pod [OF that(4) assms(2,3)] that(3) show ?thesis by simp
  qed
  have "logged L ctx cands e (pl_shared s)"
  proof (rule conjunct1 [OF pool_invariant [OF pool(1), of "logged L ctx cands e" "\<lambda>p ph. justified ctx p ph \<and> same_pod p ph"]])
    show "justified ctx p Fresh \<and> same_pod p Fresh" for p by (simp add: same_pod_def)
    show "logged L ctx cands e s' \<and> justified ctx p ph' \<and> same_pod p ph'"
      if "p \<in> set cands" "logged L ctx cands e s" "justified ctx p ph \<and> same_pod p ph" "ph \<noteq> Finished"
        "advance ctx p (ph, s) = (ph', s')" for p ph s ph' s'
      using that(1,2,3,5) by (rule step)
  qed (fact start)
  with pool(3) show ?thesis by simp
qed

text \<open>
  C3. Every call of \<open>pods/resize\<close> that a run makes is for a pod of a list that the cluster gave,
  eligible when it was selected, under its own name; what it sends is what \<open>ComputeDesired\<close>
  gives for that pod and the policy, decided on when the stabilisation window allowed it,
  with at most another version and identity; so it has the QoS class and the init containers
  of the pod and changes nothing but CPU and memory of its containers. This holds whatever
  the interleaving and whatever the answers, conflicts and errors included.
\<close>

theorem resize_calls_are_computed:
  fixes cl :: "('q, 'l, 's, 'e) cluster"
  assumes "log_laws L cl" "reconcile cfg cl name pr e oc"
    and "cl_get_policy cl name (snd (w_now (cl_world cl) e)) = (Inr obj, e0)"
  shows "\<exists>new. L (oc_env oc) = L e @ new \<and>
    (\<forall>(ns, nm, d) \<in> set new. \<exists>p pm res des ls err pods e1 e2 t rv uid.
      cl_list_pods cl ls e1 = ((err, pods), e2) \<and> p \<in> set pods \<and> isEligiblePod (Some p) \<and>
      ns = pod_namespace p \<and> nm = pod_name p \<and>
      ComputeDesired (rq_quantities cfg) (Some p) (Some pm) (po_spec obj) = (res, None) \<and>
      stabilizationAllows (Some p) (hash res) (stabilization_window (timing (po_spec obj))) t \<and>
      desired res = Some des \<and> d = des\<lparr>resource_version := rv, pod_uid := uid\<rparr> \<and>
      podQoSClass (rq_quantities cfg) (Some d) = podQoSClass (rq_quantities cfg) (Some p) \<and>
      init_containers d = init_containers p \<and> list_all2 cpu_memory_only (containers p) (containers d))"
proof -
  have steady: "steady (\<lambda>e e'. L e' = L e) cl" using assms(1) by (simp add: log_laws_def)
  note policy = steady_policy [OF steady]
  show ?thesis
    using assms(2)
  proof cases
    case (missing started e1 err e2)
    with policy show ?thesis by (simp add: nothing_done_def)
  next
    case (failed started e1 err e2)
    with policy show ?thesis by (simp add: nothing_done_def)
  next
    case (early started e1 obj' e2 v)
    have "L (vs_env v) = L e2"
      using admit_steady [OF steady, where v = "first_visit obj' pr e2" and cfg = cfg and obj = obj'] early(4) by (simp add: first_visit_def)
    moreover have "L (oc_env oc) = L (vs_env v)"
      unfolding early(1) by (rule leave_steady [OF steady])
    ultimately show ?thesis using policy [OF early(2,3)] by simp
  next
    case (ran started e1 obj' e2 ad li ctx st0 st aggs real unix sm v)
    have obj: "obj' = obj" using assms(3) ran(2,3) by simp
    obtain err pods e3 sn e4 ans where
      "L (vs_env (ad_visit ad)) = L (vs_env (first_visit obj' pr e2))"
      and list: "cl_list_pods cl (ad_pods ad) (vs_env (ad_visit ad)) = ((err, pods), e3)"
      and sn: "select_pods cfg (cl_world cl) (ad_namespaces ad) (cooldown (timing (po_spec obj'))) pods e3 = (sn, e4)"
      and li: "ls_selection li = sn" and "L (rs_env st0) = L e4" and q: "L (rs_env st0) = L (vs_env (first_visit obj' pr e2))"
      and ctx: "ctx = run_context cfg cl obj' (ad_cap ad) ans"
      by (rule prepare_steady [OF steady ran(4,5)])
    have "L (rs_env st0) = L e" using q policy [OF ran(2,3)] by (simp add: first_visit_def)
    from outcome_logged [OF ran(6) assms(1) _ this] ctx
    obtain new where new: "L (rs_env st) = L e @ new" "\<forall>c \<in> set new. \<exists>p \<in> set (sn_candidates sn). asked ctx p c"
      by (auto simp: logged_def li run_context_def)
    have "L (oc_env oc) = L (rs_env st)"
      using finish_steady(1) [OF steady ran(8), where d = "sm_requeue sm" and sm' = "Some sm"] ran(1) by simp
    moreover have "\<exists>p pm res des ls err pods e1 e2 t rv uid.
        cl_list_pods cl ls e1 = ((err, pods), e2) \<and> p \<in> set pods \<and> isEligiblePod (Some p) \<and>
        ns = pod_namespace p \<and> nm = pod_name p \<and>
        ComputeDesired (rq_quantities cfg) (Some p) (Some pm) (po_spec obj) = (res, None) \<and>
        stabilizationAllows (Some p) (hash res) (stabilization_window (timing (po_spec obj))) t \<and>
        desired res = Some des \<and> d = des\<lparr>resource_version := rv, pod_uid := uid\<rparr> \<and>
        podQoSClass (rq_quantities cfg) (Some d) = podQoSClass (rq_quantities cfg) (Some p) \<and>
        init_containers d = init_containers p \<and> list_all2 cpu_memory_only (containers p) (containers d)"
      if c: "(ns, nm, d) \<in> set new" for ns nm d
    proof -
      obtain p where p: "p \<in> set (sn_candidates sn)" and a: "asked ctx p (ns, nm, d)" using new(2) c by blast
      obtain res t des rv uid where w: "wanted ctx p res" and res: "stable ctx p res t" "desired res = Some des"
          "ns = pod_namespace p" "nm = pod_name p" "d = des\<lparr>resource_version := rv, pod_uid := uid\<rparr>"
        using a unfolding asked_def by blast
      obtain pm where cd: "ComputeDesired (rq_quantities cfg) (Some p) (Some pm) (po_spec obj) = (res, None)"
        using w by (auto simp: wanted_def ctx run_context_def obj)
      have st: "stabilizationAllows (Some p) (hash res) (stabilization_window (timing (po_spec obj))) t"
        using res(1) by (simp add: stable_def ctx run_context_def obj)
      have "podQoSClass (rq_quantities cfg) (Some des) = podQoSClass (rq_quantities cfg) (Some p)"
        using compute_desired_qos [OF cd] res(2) by simp
      moreover have "des = p\<lparr>containers := containers des\<rparr>" "list_all2 cpu_memory_only (containers p) (containers des)"
        using compute_desired_frame [OF cd] res(2) by auto
      then have "init_containers des = init_containers p" by (metis pod.select_convs(9) pod.surjective pod.update_convs(10))
      moreover have "p \<in> set pods" "isEligiblePod (Some p)"
        using select_pods_facts [OF sn] p by (auto elim: list_emb_set)
      ultimately show ?thesis
        using list st res(2-5) cd \<open>list_all2 cpu_memory_only (containers p) (containers des)\<close>
        by (intro exI conjI) (assumption | simp add: podQoSClass.simps)+
    qed
    ultimately show ?thesis using new(1) by auto
  qed
qed

lemma ex_store_log: "log_laws snd ex_store_cluster"
proof -
  have "steady (\<lambda>e e'. snd e' = snd e) ex_store_cluster"
    by (simp add: steady_def reflp_def transp_def)
  moreover have "w_get_fresh ex_store_world ns name e = (Inl (plain_error ''gone''), e)" for ns name e
    by (simp add: ex_store_world_def)
  ultimately show ?thesis by (simp add: log_laws_def)
qed

theorem resize_calls_are_computed_witness:
  "\<exists>oc d. reconcile ex_cfg ex_store_cluster ''p'' (Some ex_prober) ex_blank oc \<and>
     snd (oc_env oc) = [(''ns'', ''p'', d)] \<and> list_all2 cpu_memory_only (containers ex_candidate) (containers d)"
proof -
  obtain oc ev where run: "reconcile ex_cfg ex_store_cluster ''p'' (Some ex_prober) ex_blank oc"
    and log: "snd (oc_env oc) = [(''ns'', ''p'', the (desired ex_result))]"
    using ex_store_run by blast
  have "\<exists>new. snd (oc_env oc) = snd ex_blank @ new \<and> (\<forall>(ns, nm, d) \<in> set new. \<exists>p err pods e1 e2.
      cl_list_pods ex_store_cluster None e1 = ((err, pods), e2) \<and> p \<in> set pods \<and>
      list_all2 cpu_memory_only (containers p) (containers d))"
    using resize_calls_are_computed [OF ex_store_log run, of ex_policy] by fastforce
  then obtain p e where "p = ex_listed_pod e" "list_all2 cpu_memory_only (containers p) (containers (the (desired ex_result)))"
    unfolding log by (auto simp: ex_blank_log)
  then have "list_all2 cpu_memory_only (containers ex_candidate) (containers (the (desired ex_result)))"
    by (simp add: ex_listed_pod_def split: if_splits)
  with run log show ?thesis by blast
qed

end
