(* ===== verification/RunEffects.thy ===== *)
theory RunEffects
  imports StoreExample
begin

text \<open>
  What a run of \<open>Reconcile\<close> does to one annotation \<open>a\<close> of the pods. The cluster is known here
  through \<open>cluster_laws\<close>: \<open>R\<close> reads the annotation of a pod from the state of the world, \<open>T\<close> is a
  time that the clock does not fall behind. Every part of the handler leaves the annotations
  as they are, but for the two patches of a worker. Here \<open>a\<close> is \<open>annotationLastResizeTime\<close>, in
  \<open>Stability\<close> it is \<open>annotationPendingSince\<close>.
\<close>

section \<open>What is relied on of the cluster\<close>

text \<open>A call that leaves the annotation of all pods as it is.\<close>

definition quiet :: "('e \<Rightarrow> 'k \<Rightarrow> string) \<Rightarrow> ('e \<Rightarrow> time) \<Rightarrow> 'e \<Rightarrow> 'e \<Rightarrow> bool" where
  "quiet R T e e' \<longleftrightarrow> R e' = R e \<and> T e \<le> T e'"

definition world_laws ::
  "string \<Rightarrow> ('e \<Rightarrow> string \<times> string \<Rightarrow> string) \<Rightarrow> ('e \<Rightarrow> time) \<Rightarrow> location \<Rightarrow> ('q, 'e) world \<Rightarrow> bool" where
  "world_laws a R T loc w \<longleftrightarrow>
     (\<forall>e t e'. w_now w e = (t, e') \<longrightarrow> quiet R T e e' \<and> T e \<le> t \<and> t \<le> T e' \<and> writable loc t) \<and>
     (\<forall>ns name d e r e'. w_update_resize w ns name d e = (r, e') \<longrightarrow> quiet R T e e') \<and>
     (\<forall>ns name e r e'. w_get_fresh w ns name e = (r, e') \<longrightarrow> quiet R T e e') \<and>
     (\<forall>ns name m e err e'. w_patch_pod w ns name m e = (err, e') \<longrightarrow>
        distinct (map fst m) \<longrightarrow> err = None \<and> T e \<le> T e' \<and> R e' = (R e)((ns, name) := patched a m (R e (ns, name))))"

definition cluster_laws ::
  "string \<Rightarrow> ('e \<Rightarrow> string \<times> string \<Rightarrow> string) \<Rightarrow> ('e \<Rightarrow> time) \<Rightarrow> location \<Rightarrow> ('q, 'l, 's, 'e) cluster \<Rightarrow> bool" where
  "cluster_laws a R T loc cl \<longleftrightarrow>
     world_laws a R T loc (cl_world cl) \<and>
     (\<forall>name e r e'. cl_get_policy cl name e = (r, e') \<longrightarrow> quiet R T e e') \<and>
     (\<forall>e r e'. cl_discover cl e = (r, e') \<longrightarrow> quiet R T e e') \<and>
     (\<forall>s e err pods e'. cl_list_pods cl s e = ((err, pods), e') \<longrightarrow> quiet R T e e' \<and>
        list_all (\<lambda>p. anns_get (annotations p) a = R e' (pod_namespace p, pod_name p)) pods) \<and>
     (\<forall>list ns l e r e'. cl_list_metrics cl = Some list \<longrightarrow> list ns l e = (r, e') \<longrightarrow> quiet R T e e') \<and>
     (\<forall>name old new e r e'. cl_patch_status cl name old new e = (r, e') \<longrightarrow> quiet R T e e')"

lemma quiet_refl [simp]: "quiet R T e e"
  by (simp add: quiet_def)

lemma quiet_trans [trans]: "quiet R T e e1 \<Longrightarrow> quiet R T e1 e2 \<Longrightarrow> quiet R T e e2"
  by (auto simp: quiet_def)

lemma now_quiet:
  assumes "world_laws a R T loc w" "w_now w e = (t, e')"
  shows "quiet R T e e'" "T e \<le> t" "t \<le> T e'" "writable loc t"
  using assms unfolding world_laws_def by blast+

lemma patch_effect:
  assumes "world_laws a R T loc w" "w_patch_pod w ns name m e = (err, e')" "distinct (map fst m)"
  shows "err = None" "T e \<le> T e'" "R e' = (R e)((ns, name) := patched a m (R e (ns, name)))"
  using assms unfolding world_laws_def by blast+

lemma patches_distinct:
  "distinct (map fst (patch_of (applied_patch loc h t)))" "distinct (map fst (patch_of (pending_patch loc anns h t)))"
  by (simp_all add: patch_of_def applied_patch_def pending_patch_def Let_def)

section \<open>A worker\<close>

text \<open>The pod was resized in this run, and its annotation says so.\<close>

definition rests ::
  "('e \<Rightarrow> 'k \<Rightarrow> string) \<Rightarrow> location \<Rightarrow> time \<Rightarrow> 'k \<Rightarrow> 'e \<Rightarrow> bool" where
  "rests R loc t0 k e \<longleftrightarrow> (\<exists>t. t0 \<le> t \<and> writable loc t \<and> R e k = formatTime loc t)"

lemma rests_quiet: "quiet R T e e' \<Longrightarrow> rests R loc t0 k e \<Longrightarrow> rests R loc t0 k e'"
  by (simp add: quiet_def rests_def)

definition resting ::
  "('e \<Rightarrow> string \<times> string \<Rightarrow> string) \<Rightarrow> ('e \<Rightarrow> time) \<Rightarrow> location \<Rightarrow> time \<Rightarrow> 'e run_state \<Rightarrow> bool" where
  "resting R T loc t0 st \<longleftrightarrow>
     t0 \<le> T (rs_env st) \<and> list_all (\<lambda>ev. rests R loc t0 (ev_object ev) (rs_env st)) (rs_events st)"

lemma resting_quiet:
  assumes "resting R T loc t0 st" "quiet R T (rs_env st) (rs_env st')" "rs_events st' = rs_events st"
  shows "resting R T loc t0 st'"
  using assms unfolding resting_def rests_def quiet_def by simp

text \<open>The instant that a worker carries was read in this run.\<close>

definition timely :: "location \<Rightarrow> time \<Rightarrow> 'q phase \<Rightarrow> bool" where
  "timely loc t0 ph \<longleftrightarrow>
     (\<forall>t. (case ph of Waiting res u \<Rightarrow> u = t | Decided res u \<Rightarrow> u = t | Reserved res u \<Rightarrow> u = t
        | Conflicted res u \<Rightarrow> u = t | Retrying res u fresh \<Rightarrow> u = t | Applied res u \<Rightarrow> u = t
        | Committed res u \<Rightarrow> u = t | _ \<Rightarrow> False) \<longrightarrow> t0 \<le> t \<and> writable loc t)"

lemma timely_simps [simp]:
  "timely loc t0 Fresh" "timely loc t0 Slotted" "timely loc t0 (Computed res)"
  "timely loc t0 (Refused res err)" "timely loc t0 (Releasing res)" "timely loc t0 Leaving"
  "timely loc t0 Finished"
  "timely loc t0 (Waiting res t) \<longleftrightarrow> t0 \<le> t \<and> writable loc t"
  "timely loc t0 (Decided res t) \<longleftrightarrow> t0 \<le> t \<and> writable loc t"
  "timely loc t0 (Reserved res t) \<longleftrightarrow> t0 \<le> t \<and> writable loc t"
  "timely loc t0 (Conflicted res t) \<longleftrightarrow> t0 \<le> t \<and> writable loc t"
  "timely loc t0 (Retrying res t fresh) \<longleftrightarrow> t0 \<le> t \<and> writable loc t"
  "timely loc t0 (Applied res t) \<longleftrightarrow> t0 \<le> t \<and> writable loc t"
  "timely loc t0 (Committed res t) \<longleftrightarrow> t0 \<le> t \<and> writable loc t"
  by (simp_all add: timely_def)

lemma update_quiet:
  assumes "world_laws a R T loc w" "UpdateResize (w_update_resize w) p pod d e = (r, e')"
  shows "quiet R T e e'"
proof -
  have q: "quiet R T e (snd (w_update_resize w ns name d e))" for ns name d e
    using assms(1) unfolding world_laws_def by (metis prod.collapse)
  show ?thesis
    using assms(2) q by (auto simp: UpdateResize_def split: option.splits if_splits prod.splits sum.splits)
      (metis snd_conv)+
qed

lemma fail_quiet:
  assumes "world_laws a R T loc (rc_world ctx)"
  shows "quiet R T (rs_env st) (rs_env (fail_resize ctx err st))"
proof -
  have "quiet R T (rs_env s) (rs_env (mark_fatal ctx err s))" for s
    using now_quiet(1) [OF assms] by (auto simp: mark_fatal_def Let_def split: prod.splits intro: quiet_trans)
  from this [of "st\<lparr>rs_apply_failed := Suc (rs_apply_failed st)\<rparr>"] show ?thesis
    by (cases err) (simp_all add: fail_resize_def Let_def)
qed

text \<open>A worker writes annotations only when a target is pending and after a resize.\<close>

lemma advance_writes:
  assumes "advance ctx p (ph, st) = (ph', st')" "world_laws a R T loc (rc_world ctx)"
  obtains (quiet) "quiet R T (rs_env st) (rs_env st')" "rs_events st' = rs_events st"
  | (pending) res t err where "ph = Waiting res t" "ph' = Leaving" "rs_events st' = rs_events st"
      "ensurePending (w_patch_pod (rc_world ctx)) (rc_location ctx) (Some p) (hash res) t (rs_env st) = (err, rs_env st')"
  | (applied) res t err where "ph = Committed res t" "ph' = Finished"
      "w_patch_pod (rc_world ctx) (pod_namespace p) (pod_name p)
        (patch_of (applied_patch (rc_location ctx) (hash res) t)) (rs_env st) = (err, rs_env st')"
      "rs_events st' = rs_events st @ (if rc_recorder ctx then [resized_event (rc_q ctx) p (res_delta res)] else [])"
proof (cases ph)
  case Slotted
  with assms(1) have "evaluate_pod ctx p st = (ph', st')" by simp
  then show thesis
    by (cases rule: evaluate_pod_cases) (use quiet in auto)
next
  case (Computed res)
  then show thesis
    using assms(1) now_quiet(1) [OF assms(2)] quiet by (auto simp: check_stable_def split: prod.splits)
next
  case (Waiting res t)
  then show thesis
    using assms(1) pending by (auto simp: note_pending_def split: prod.splits)
next
  case (Reserved res t)
  then show thesis
    using assms(1) update_quiet [OF assms(2)] quiet
    by (auto simp: apply_resize_def count_api_call_def Let_def split: segment_splits)
next
  case (Conflicted res t)
  then show thesis
    using assms quiet by (auto simp: fetch_fresh_def skip_conflict_def world_laws_def split: segment_splits)
next
  case (Retrying res t fresh)
  then show thesis
    using assms(1) update_quiet [OF assms(2)] quiet
    by (auto simp: retry_conflict_def skip_conflict_def Let_def split: segment_splits)
next
  case (Refused res err)
  then show thesis using assms(1) fail_quiet [OF assms(2)] quiet by auto
next
  case (Committed res t)
  then show thesis
    using assms(1) applied
    by (auto simp: annotate_pod_def patchPodAnnotations_def count_api_call_def Let_def split: prod.splits)
qed (use assms(1) quiet in \<open>auto simp: pool_segments split: segment_splits\<close>)

lemma advance_timely:
  assumes "advance ctx p (ph, st) = (ph', st')" "world_laws a R T loc (rc_world ctx)" "t0 \<le> T (rs_env st)"
    and "timely loc t0 ph"
  shows "timely loc t0 ph'"
proof (cases ph)
  case Slotted
  with assms(1) have "evaluate_pod ctx p st = (ph', st')" by simp
  then show ?thesis by (cases rule: evaluate_pod_cases) simp_all
next
  case (Computed res)
  then show ?thesis
    using assms(1,3) now_quiet(2,4) [OF assms(2), of "rs_env st"]
    by (auto simp: check_stable_def split: prod.splits intro: order_trans)
qed (use assms(1,4) in \<open>auto simp: pool_segments call_segments Let_def split: segment_splits\<close>)

text \<open>What the patch of a pending target does to the annotation.\<close>

lemma pending_effect:
  assumes "world_laws a R T loc w" "ensurePending (w_patch_pod w) loc' (Some p) h t e = (err, e')"
  shows "T e \<le> T e'"
    and "R e' = R e \<or> R e' = (R e)((pod_namespace p, pod_name p) :=
      patched a (patch_of (pending_patch loc' (annotations p) h t)) (R e (pod_namespace p, pod_name p)))"
  using assms(2) patch_effect [OF assms(1) _ patches_distinct(2)]
  by (auto simp: ensurePending_def patchPodAnnotations_def Let_def split: if_splits)

lemma advance_resting:
  assumes "advance ctx p (ph, st) = (ph', st')" "world_laws annotationLastResizeTime R T loc (rc_world ctx)"
    and "rc_location ctx = loc" "resting R T loc t0 st" "timely loc t0 ph"
  shows "resting R T loc t0 st' \<and> timely loc t0 ph'"
proof
  show "timely loc t0 ph'"
    using advance_timely [OF assms(1,2)] assms(4,5) by (simp add: resting_def)
  show "resting R T loc t0 st'"
    using assms(1,2)
  proof (cases rule: advance_writes)
    case quiet
    with assms(4) show ?thesis by (auto intro: resting_quiet)
  next
    case (pending res t err)
    have "patched annotationLastResizeTime (patch_of (pending_patch loc' anns h t)) s = s" for loc' anns h s
      by (simp add: patched_def pending_patch_def patch_of_def Let_def)
    with pending_effect [OF assms(2) pending(4)] have "quiet R T (rs_env st) (rs_env st')"
      by (simp add: quiet_def)
    with pending(3) assms(4) show ?thesis by (auto intro: resting_quiet)
  next
    case (applied res t err)
    let ?k = "(pod_namespace p, pod_name p)"
    have t: "t0 \<le> t" "writable loc t" using assms(5) applied(1) by simp_all
    have "patched annotationLastResizeTime (patch_of (applied_patch loc (hash res) t)) s = formatTime loc t" for s
      using formatTime_nonempty [OF t(2)] by (simp add: patched_def patch_of_def applied_patch_def)
    then have e: "T (rs_env st) \<le> T (rs_env st')" "R (rs_env st') = (R (rs_env st))(?k := formatTime loc t)"
      using patch_effect [OF assms(2) applied(3) patches_distinct(1)] assms(3) by simp_all
    have "rests R loc t0 (ev_object ev) (rs_env st')" if "rests R loc t0 (ev_object ev) (rs_env st)" for ev
      using that t by (auto simp: rests_def e(2))
    moreover have "rests R loc t0 ?k (rs_env st')"
      using t by (auto simp: rests_def e(2))
    moreover have "ev_object (resized_event (rc_q ctx) p (res_delta res)) = ?k"
      by (simp add: resized_event_def)
    ultimately have "\<forall>ev \<in> set (rs_events st'). rests R loc t0 (ev_object ev) (rs_env st')"
      using assms(4) unfolding resting_def list_all_iff applied(4) by (auto split: if_splits)
    with assms(4) e(1) show ?thesis by (simp add: resting_def list_all_iff)
  qed
qed

lemma outcome_resting:
  assumes "pool_outcome ctx cands workers st st'" "world_laws annotationLastResizeTime R T loc (rc_world ctx)" "rc_location ctx = loc"
    and "resting R T loc t0 st"
  shows "resting R T loc t0 st'"
  using assms(1)
proof (cases rule: pool_outcomeE)
  case idle
  with assms(4) show ?thesis by simp
next
  case (pool n s)
  have "resting R T loc t0 (pl_shared s)"
    using pool_invariant [OF pool(1), of "resting R T loc t0" "\<lambda>p. timely loc t0"] assms(4)
      advance_resting [OF _ assms(2,3)] by simp
  with pool(3) show ?thesis by simp
qed

section \<open>The rest of a run\<close>

lemma cluster_steady: "cluster_laws a R T loc cl \<Longrightarrow> steady (quiet R T) cl"
  unfolding steady_def cluster_laws_def world_laws_def
  by (auto simp: reflp_def transp_def intro: quiet_trans)

lemma select_pods_times:
  assumes "world_laws a R T loc w" "select_pods cfg w sel cd pods e = (sn, e')"
  shows "quiet R T e e' \<and> (\<forall>p \<in> set (sn_candidates sn). p \<in> set pods \<and>
    (\<exists>now. now \<le> T e' \<and> \<not> shouldSkipByCooldown (Some p) cd now))"
  using assms(2)
proof (induction pods arbitrary: sn e' rule: rev_induct)
  case Nil
  then show ?case by (auto simp: select_pods_def no_selection_def)
next
  case (snoc p pods)
  obtain sn0 e0 where before: "select_pods cfg w sel cd pods e = (sn0, e0)" by force
  then have this_pod: "select_pod cfg w sel cd p (sn0, e0) = (sn, e')"
    using snoc.prems by (simp add: select_pods_def)
  obtain now e1 where now: "w_now w e0 = (now, e1)" by force
  note q = now_quiet [OF assms(1) now]
  from this_pod now consider (no_call) "e' = e0" "sn_candidates sn = sn_candidates sn0"
    | (skipped) "e' = e1" "sn_candidates sn = sn_candidates sn0"
    | (taken) "e' = e1" "sn_candidates sn = sn_candidates sn0 @ [p]" "\<not> shouldSkipByCooldown (Some p) cd now"
    by (auto simp: select_pod_def Let_def split: if_splits)
  then show ?case
  proof cases
    case no_call
    with snoc.IH [OF before] show ?thesis by auto
  next
    case skipped
    with snoc.IH [OF before] q(1) show ?thesis by (auto simp: quiet_def) (meson order_trans)
  next
    case taken
    with snoc.IH [OF before] q show ?thesis by (auto simp: quiet_def) (meson order_trans)+
  qed
qed

text \<open>Up to the pool: the candidates are listed as the annotations stand.\<close>

lemma prepare_times:
  assumes "cluster_laws a R T loc cl" "admit cfg cl obj v = Inr ad" "prepare cfg cl obj ad = (li, ctx, st0)"
  shows "quiet R T (vs_env v) (rs_env st0)" "rc_world ctx = cl_world cl" "rc_location ctx = rq_location cfg"
    and "\<forall>p \<in> set (sn_candidates (ls_selection li)).
      anns_get (annotations p) a = R (vs_env v) (pod_namespace p, pod_name p) \<and>
      (\<exists>now. now \<le> T (rs_env st0) \<and> \<not> shouldSkipByCooldown (Some p) (cooldown (timing (po_spec obj))) now)"
proof -
  have w: "world_laws a R T loc (cl_world cl)" using assms(1) by (simp add: cluster_laws_def)
  obtain err pods e1 sn e2 ans where q1: "quiet R T (vs_env v) (vs_env (ad_visit ad))"
    and l: "cl_list_pods cl (ad_pods ad) (vs_env (ad_visit ad)) = ((err, pods), e1)"
    and sn: "select_pods cfg (cl_world cl) (ad_namespaces ad) (cooldown (timing (po_spec obj))) pods e1 = (sn, e2)"
    and li: "ls_selection li = sn" and q3: "quiet R T e2 (rs_env st0)" and q: "quiet R T (vs_env v) (rs_env st0)"
    and ctx: "ctx = run_context cfg cl obj (ad_cap ad) ans"
    using prepare_steady [OF cluster_steady [OF assms(1)] assms(2,3)] by blast
  have q2: "quiet R T (vs_env (ad_visit ad)) e1"
    and anns: "list_all (\<lambda>p. anns_get (annotations p) a = R e1 (pod_namespace p, pod_name p)) pods"
    using assms(1) l unfolding cluster_laws_def by blast+
  note times = select_pods_times [OF w sn]
  show "quiet R T (vs_env v) (rs_env st0)" by (rule q)
  show "rc_world ctx = cl_world cl" "rc_location ctx = rq_location cfg" by (simp_all add: ctx run_context_def)
  have "T e2 \<le> T (rs_env st0)" using q3 by (simp add: quiet_def)
  moreover have "R e1 = R (vs_env v)" using q1 q2 by (simp add: quiet_def)
  ultimately have "anns_get (annotations p) a = R (vs_env v) (pod_namespace p, pod_name p) \<and>
      (\<exists>now. now \<le> T (rs_env st0) \<and> \<not> shouldSkipByCooldown (Some p) (cooldown (timing (po_spec obj))) now)"
    if "p \<in> set (sn_candidates sn)" for p
    using times anns that by (auto simp: list_all_iff) (meson order_trans)
  then show "\<forall>p \<in> set (sn_candidates (ls_selection li)).
      anns_get (annotations p) a = R (vs_env v) (pod_namespace p, pod_name p) \<and>
      (\<exists>now. now \<le> T (rs_env st0) \<and> \<not> shouldSkipByCooldown (Some p) (cooldown (timing (po_spec obj))) now)"
    unfolding li by blast
qed

end
