(* ===== verification/Cooldown.thy ===== *)
theory Cooldown
  imports RunEffects
begin

text \<open>
  The cooldown over whole runs of \<open>Reconcile\<close>: a run that records a resize of a pod leaves an
  annotation that keeps every later run from resizing it until the cooldown is over. The
  witness is the cluster of \<open>StoreExample\<close>.
\<close>

section \<open>Two runs\<close>

definition resized_events :: "'e outcome \<Rightarrow> event set" where
  "resized_events oc = {ev \<in> set (oc_events oc). ev_reason ev = ''Resized''}"

text \<open>A run that ends early records no resize.\<close>

lemma early_events:
  assumes "admit cfg cl obj v = Inl w" "vs_events v = []"
  shows "\<forall>ev \<in> set (vs_events w). ev_reason ev \<noteq> ''Resized''"
proof -
  have q: "vs_events (snd (query_support cfg cl obj u)) = vs_events u" for u
    using query_reports [where cfg = cfg and cl = cl and obj = obj and v = u] by simp
  have "check_enabled cfg cl obj v = Inl u \<or> check_enabled cfg cl obj v = Inr u \<Longrightarrow> vs_events u = []" for u
    using assms(2) by (auto simp: check_enabled_def split: if_splits)
  moreover have "check_support cfg cl obj u = Inr (cap, u') \<Longrightarrow> vs_events u' = vs_events u"
    "check_support cfg cl obj u = Inl u' \<Longrightarrow>
      set (vs_events u') \<subseteq> set (vs_events u) \<union> {ev. ev_reason ev = ''ResizeUnsupported''}" for u u' cap
    using q [of u] by (auto simp: check_support_def unsupported_event_def Let_def split: prod.splits if_splits)
  moreover have "check_namespaces cfg cl obj u = Inl u' \<Longrightarrow> vs_events u' = vs_events u"
    "check_pod_selector cfg cl obj u = Inl u' \<Longrightarrow> vs_events u' = vs_events u" for u u'
    by (auto simp: check_namespaces_def check_pod_selector_def Let_def split: sum.splits option.splits if_splits)
  ultimately show ?thesis
    using assms(1) by (fastforce simp: admit_def split: sum.splits prod.splits)
qed

text \<open>What a run leaves behind, and what it asks of a pod.\<close>

lemma reconcile_rests:
  fixes cl :: "('q, 'l, 's, 'e) cluster"
  assumes "reconcile cfg cl name pr e oc" "cluster_laws annotationLastResizeTime R T (rq_location cfg) cl"
  shows "T e \<le> T (oc_env oc)"
    and "ev \<in> resized_events oc \<Longrightarrow> rests R (rq_location cfg) (T e) (ev_object ev) (oc_env oc)"
    and "ev \<in> resized_events oc \<Longrightarrow> cl_get_policy cl name (snd (w_now (cl_world cl) e)) = (Inr obj, e0) \<Longrightarrow>
      \<exists>(p :: 'q pod) now. ev_object ev = (pod_namespace p, pod_name p) \<and>
        anns_get (annotations p) annotationLastResizeTime = R e (ev_object ev) \<and>
        now \<le> T (oc_env oc) \<and> \<not> shouldSkipByCooldown (Some p) (cooldown (timing (po_spec obj))) now"
proof -
  have w: "world_laws annotationLastResizeTime R T (rq_location cfg) (cl_world cl)" using assms(2) by (simp add: cluster_laws_def)
  have policy: "quiet R T e e2" if "w_now (cl_world cl) e = (t, e1)" "cl_get_policy cl name e1 = (r, e2)" for t e1 r e2
    using that assms(2) now_quiet(1) [OF w that(1)] unfolding cluster_laws_def by (meson quiet_trans)
  have "T e \<le> T (oc_env oc) \<and> (ev \<in> resized_events oc \<longrightarrow>
      rests R (rq_location cfg) (T e) (ev_object ev) (oc_env oc) \<and>
      (\<forall>obj e0. cl_get_policy cl name (snd (w_now (cl_world cl) e)) = (Inr obj, e0) \<longrightarrow>
        (\<exists>(p :: 'q pod) now. ev_object ev = (pod_namespace p, pod_name p) \<and>
          anns_get (annotations p) annotationLastResizeTime = R e (ev_object ev) \<and>
          now \<le> T (oc_env oc) \<and> \<not> shouldSkipByCooldown (Some p) (cooldown (timing (po_spec obj))) now)))"
    using assms(1)
  proof cases
    case (missing started e1 err e2)
    with policy show ?thesis by (simp add: nothing_done_def resized_events_def quiet_def)
  next
    case (failed started e1 err e2)
    with policy show ?thesis by (simp add: nothing_done_def resized_events_def quiet_def)
  next
    case (early started e1 obj e2 v)
    have "quiet R T e2 (vs_env v)"
      using admit_steady [OF cluster_steady [OF assms(2)], of "first_visit obj pr e2" cfg obj] early(4) by (simp add: first_visit_def)
    moreover have "quiet R T (vs_env v) (oc_env oc)"
      unfolding early(1) by (rule leave_steady [OF cluster_steady [OF assms(2)]])
    ultimately have "T e \<le> T (oc_env oc)"
      using policy [OF early(2,3)] by (auto simp: quiet_def)
    moreover have "resized_events oc = {}"
      using early_events [OF early(4)] early(1) by (auto simp: first_visit_def resized_events_def)
    ultimately show ?thesis by simp
  next
    case (ran started e1 obj e2 ad li ctx st0 st aggs real unix sm v)
    note prep = prepare_times [OF assms(2) ran(4,5)]
    have start: "quiet R T e (rs_env st0)"
      using policy [OF ran(2,3)] prep(1) by (auto simp: first_visit_def intro: quiet_trans)
    note reports = prepare_reports [OF ran(5,4)]
    have "resting R T (rq_location cfg) (T e) st0"
      using start reports(1) by (simp add: resting_def quiet_def)
    then have rest: "resting R T (rq_location cfg) (T e) st"
      using outcome_resting [OF ran(6)] w prep(2,3) by simp
    note fin = finish_steady(1) [OF cluster_steady [OF assms(2)] ran(8), of "sm_requeue sm" "Some sm", folded ran(1)]
    have mono: "T (rs_env st0) \<le> T (rs_env st)"
    proof -
      have "resting R T (rq_location cfg) (T (rs_env st0)) st0"
        using reports(1) by (simp add: resting_def)
      then show ?thesis
        using outcome_resting [OF ran(6)] w prep(2,3) by (auto simp: resting_def)
    qed
    have events: "oc_events oc = rs_events st" using ran(1) finish_steady(2) [OF cluster_steady [OF assms(2)] ran(8)] by simp
    have "rests R (rq_location cfg) (T e) (ev_object ev) (oc_env oc)" if "ev \<in> resized_events oc"
      using that rest rests_quiet [OF fin] by (auto simp: resized_events_def events resting_def list_all_iff)
    moreover have "\<exists>(p :: 'q pod) now. ev_object ev = (pod_namespace p, pod_name p) \<and>
        anns_get (annotations p) annotationLastResizeTime = R e (ev_object ev) \<and>
        now \<le> T (oc_env oc) \<and> \<not> shouldSkipByCooldown (Some p) (cooldown (timing (po_spec obj))) now"
      if ev: "ev \<in> resized_events oc"
    proof -
      have "list_all (\<lambda>ev. \<exists>p \<in> set (sn_candidates (ls_selection li)). pod_event ctx p ev) (rs_events st)"
        using run_reports [OF ran(6) reports(2,3)] reports(1) by (auto simp: reports_ok_def)
      then obtain p where p: "p \<in> set (sn_candidates (ls_selection li))" "pod_event ctx p ev"
        using ev by (auto simp: resized_events_def events list_all_iff)
      then have key: "ev_object ev = (pod_namespace p, pod_name p)"
        by (auto simp: pod_event_def resized_event_def)
      have same: "R e2 = R e" using policy [OF ran(2,3)] by (simp add: quiet_def)
      from bspec [OF prep(4) p(1)] obtain now where
        now: "now \<le> T (rs_env st0)" "\<not> shouldSkipByCooldown (Some p) (cooldown (timing (po_spec obj))) now"
        and "anns_get (annotations p) annotationLastResizeTime =
          R (vs_env (first_visit obj pr e2)) (pod_namespace p, pod_name p)" by blast
      then have ann: "anns_get (annotations p) annotationLastResizeTime = R e (pod_namespace p, pod_name p)"
        by (simp add: first_visit_def same)
      have "now \<le> T (oc_env oc)" using now(1) mono fin by (simp add: quiet_def)
      with ann now(2) show ?thesis
        unfolding key by blast
    qed
    moreover have "T e \<le> T (oc_env oc)" using rest fin by (simp add: resting_def quiet_def)
    ultimately show ?thesis using ran(2,3) by simp
  qed
  then show "T e \<le> T (oc_env oc)"
    "ev \<in> resized_events oc \<Longrightarrow> rests R (rq_location cfg) (T e) (ev_object ev) (oc_env oc)"
    "ev \<in> resized_events oc \<Longrightarrow> cl_get_policy cl name (snd (w_now (cl_world cl) e)) = (Inr obj, e0) \<Longrightarrow>
      \<exists>(p :: 'q pod) now. ev_object ev = (pod_namespace p, pod_name p) \<and>
        anns_get (annotations p) annotationLastResizeTime = R e (ev_object ev) \<and>
        now \<le> T (oc_env oc) \<and> \<not> shouldSkipByCooldown (Some p) (cooldown (timing (po_spec obj))) now"
    by blast+
qed


definition ex_reading :: "string \<Rightarrow> ex_store \<Rightarrow> string \<times> string \<Rightarrow> string" where
  "ex_reading a e k = anns_get (fst e k) a"

lemma ex_reading_patch:
  "distinct (map fst m) \<Longrightarrow> ex_reading a ((fst e)(k := merge_patch m (fst e k)), log) =
    (ex_reading a e)(k := patched a m (ex_reading a e k))"
  by (auto simp: ex_reading_def patched_merge fun_eq_iff)

lemma ex_store_laws: "cluster_laws a (ex_reading a) (\<lambda>e. 0) ex_location ex_store_cluster"
proof -
  have "ex_reading a (fst e, log) = ex_reading a e" "w_get_fresh ex_store_world ns name e = (Inl (plain_error ''gone''), e)"
    "pod_namespace (ex_listed_pod e) = ''ns''" "pod_name (ex_listed_pod e) = ''p''"
    "anns_get (annotations (ex_listed_pod e)) a = ex_reading a e (''ns'', ''p'')" for e log ns name
    by (simp_all add: fun_eq_iff ex_reading_def ex_store_world_def ex_listed_pod_def)
  with ex_range show ?thesis
    by (auto simp: cluster_laws_def world_laws_def quiet_def ex_reading_patch)
qed


end
