(* ===== verification/Stability.thy ===== *)
theory Stability
  imports Cooldown
begin

text \<open>
  The stabilisation window over whole runs of \<open>Reconcile\<close>: the instant in the annotation
  \<open>annotationPendingSince\<close> is written by the runs themselves, so a pod without one is resized
  by no policy with a window before that window has passed, however many runs of whatever
  policies come in between. \<open>PodStateProps\<close> shows the protocol for one pod by itself.
\<close>

section \<open>A worker\<close>

text \<open>The annotation is empty or was written since \<open>t0\<close>.\<close>

definition young_text :: "location \<Rightarrow> time \<Rightarrow> string \<Rightarrow> bool" where
  "young_text loc t0 s \<longleftrightarrow> s = '''' \<or> (\<exists>t. t0 \<le> t \<and> writable loc t \<and> s = formatTime loc t)"

lemma young_stable:
  assumes "young_text loc t0 (anns_get (annotations p) annotationPendingSince)" "0 < w"
    and "stabilizationAllows (Some p) h w now"
  shows "t0 + w \<le> now"
proof -
  obtain ts where "anns_get (annotations p) annotationPendingSince \<noteq> ''''"
    "parseTime (anns_get (annotations p) annotationPendingSince) = Some ts" "w \<le> time_sub now ts"
    using assms(2,3) by (auto simp: stabilizationAllows_iff)
  with assms(1) time_sub_window [OF assms(2), of now ts] show ?thesis
    by (auto simp: young_text_def parse_written)
qed

text \<open>The decision to resize has been taken.\<close>

fun decided :: "'q phase \<Rightarrow> bool" where
  "decided (Decided res t) \<longleftrightarrow> True"
| "decided (Reserved res t) \<longleftrightarrow> True"
| "decided (Conflicted res t) \<longleftrightarrow> True"
| "decided (Retrying res t fresh) \<longleftrightarrow> True"
| "decided (Applied res t) \<longleftrightarrow> True"
| "decided (Committed res t) \<longleftrightarrow> True"
| "decided ph \<longleftrightarrow> False"

lemma advance_decided:
  assumes "advance ctx p (ph, st) = (ph', st')" "decided ph'"
  obtains "decided ph" | res where "ph = Computed res"
proof (cases ph)
  case Slotted
  with assms(1) have "evaluate_pod ctx p st = (ph', st')" by simp
  then have False by (cases rule: evaluate_pod_cases) (use assms(2) in simp_all)
  then show thesis ..
qed (use assms that in \<open>auto simp: pool_segments note_pending_def split: segment_splits\<close>)

text \<open>
  For the pod \<open>k\<close> and the instant \<open>b\<close> at which the window is over: nothing is decided, and no
  resize recorded, before the clock has reached \<open>b\<close>.
\<close>

definition patient ::
  "('e \<Rightarrow> string \<times> string \<Rightarrow> string) \<Rightarrow> ('e \<Rightarrow> time) \<Rightarrow> location \<Rightarrow> time \<Rightarrow> time \<Rightarrow> string \<times> string \<Rightarrow> 'e run_state \<Rightarrow> bool" where
  "patient R T loc t0 b k st \<longleftrightarrow>
     t0 \<le> T (rs_env st) \<and> young_text loc t0 (R (rs_env st) k) \<and>
     ((\<exists>ev \<in> set (rs_events st). ev_object ev = k) \<longrightarrow> b \<le> T (rs_env st))"

definition in_time ::
  "('e \<Rightarrow> time) \<Rightarrow> location \<Rightarrow> time \<Rightarrow> time \<Rightarrow> string \<times> string \<Rightarrow> 'e run_state \<Rightarrow> 'q pod \<Rightarrow> 'q phase \<Rightarrow> bool" where
  "in_time T loc t0 b k st p ph \<longleftrightarrow>
     timely loc t0 ph \<and> ((pod_namespace p, pod_name p) = k \<and> decided ph \<longrightarrow> b \<le> T (rs_env st))"

lemma advance_clock:
  assumes "advance ctx p (ph, st) = (ph', st')" "world_laws a R T loc (rc_world ctx)"
  shows "T (rs_env st) \<le> T (rs_env st')"
  using assms
proof (cases rule: advance_writes)
  case quiet
  then show ?thesis by (simp add: quiet_def)
next
  case (pending res t err)
  from pending_effect(1) [OF assms(2) pending(4)] show ?thesis .
next
  case (applied res t err)
  from patch_effect(2) [OF assms(2) applied(3) patches_distinct(1)] show ?thesis .
qed

lemma patched_since:
  "patched annotationPendingSince (patch_of (applied_patch loc h t)) old = ''''"
  "patched annotationPendingSince (patch_of (pending_patch loc anns h t)) old \<in>
    {old, if formatTime loc t = '''' then '''' else formatTime loc t}"
  by (auto simp: patched_def patch_of_def applied_patch_def pending_patch_def Let_def)

lemma advance_young:
  assumes "advance ctx p (ph, st) = (ph', st')" "world_laws annotationPendingSince R T loc (rc_world ctx)"
    and "rc_location ctx = loc" "timely loc t0 ph" "young_text loc t0 (R (rs_env st) k)"
  shows "young_text loc t0 (R (rs_env st') k)"
  using assms(1,2)
proof (cases rule: advance_writes)
  case quiet
  with assms(5) show ?thesis by (simp add: quiet_def)
next
  case (pending res t err)
  have "t0 \<le> t" "writable loc t" using assms(4) pending(1) by simp_all
  then have "young_text loc t0 (patched annotationPendingSince (patch_of (pending_patch loc anns h t)) old)"
    if "young_text loc t0 old" for anns h old
    using patched_since(2) [of loc anns h t old] that by (auto simp: young_text_def split: if_splits)
  with pending_effect(2) [OF assms(2) pending(4)] assms(3,5) show ?thesis by auto
next
  case (applied res t err)
  from patch_effect(3) [OF assms(2) applied(3) patches_distinct(1)] assms(5) show ?thesis
    by (simp add: patched_since(1)) (simp add: young_text_def)
qed

lemma advance_patient:
  assumes "advance ctx p (ph, st) = (ph', st')" "world_laws annotationPendingSince R T loc (rc_world ctx)"
    and "rc_location ctx = loc" "0 < stabilization_window (timing (rc_spec ctx))"
    and "young_text loc t0 (anns_get (annotations p) annotationPendingSince) \<or> (pod_namespace p, pod_name p) \<noteq> k"
    and "patient R T loc t0 (t0 + stabilization_window (timing (rc_spec ctx))) k st"
    and "in_time T loc t0 (t0 + stabilization_window (timing (rc_spec ctx))) k st p ph"
  shows "patient R T loc t0 (t0 + stabilization_window (timing (rc_spec ctx))) k st'"
    and "in_time T loc t0 (t0 + stabilization_window (timing (rc_spec ctx))) k st' p ph'"
    and "in_time T loc t0 b k st q qh \<Longrightarrow> in_time T loc t0 b k st' q qh"
proof -
  let ?b = "t0 + stabilization_window (timing (rc_spec ctx))"
  note clock = advance_clock [OF assms(1,2)]
  have t: "timely loc t0 ph" "t0 \<le> T (rs_env st)" using assms(6,7) by (simp_all add: patient_def in_time_def)
  show "in_time T loc t0 b k st q qh \<Longrightarrow> in_time T loc t0 b k st' q qh"
    using clock by (auto simp: in_time_def)
  have young: "young_text loc t0 (R (rs_env st') k)"
    using advance_young [OF assms(1-3) t(1)] assms(6) by (simp add: patient_def)
  have "?b \<le> T (rs_env st')" if "ev \<in> set (rs_events st')" "ev_object ev = k" for ev
    using assms(1,2)
  proof (cases rule: advance_writes)
    case (applied res u err)
    show ?thesis
    proof (cases "ev \<in> set (rs_events st)")
      case True
      with that(2) assms(6) clock show ?thesis by (auto simp: patient_def)
    next
      case False
      with that applied(4) have "(pod_namespace p, pod_name p) = k"
        by (auto simp: resized_event_def split: if_splits)
      with applied(1) assms(7) clock show ?thesis by (auto simp: in_time_def)
    qed
  qed (use that assms(6) clock in \<open>auto simp: patient_def\<close>)
  with young t(2) clock show "patient R T loc t0 ?b k st'" by (auto simp: patient_def)
  have "?b \<le> T (rs_env st')" if k: "(pod_namespace p, pod_name p) = k" "decided ph'"
    using assms(1) k(2)
  proof (cases rule: advance_decided)
    case 1
    with assms(7) k clock show ?thesis by (auto simp: in_time_def)
  next
    case (2 res)
    obtain now e where now: "w_now (rc_world ctx) (rs_env st) = (now, e)" by force
    then have "rs_env st' = e" "stabilizationAllows (Some p) (hash res) (stabilization_window (timing (rc_spec ctx))) now"
      using assms(1) 2 k(2) by (auto simp: check_stable_def split: if_splits)
    with young_stable [OF _ assms(4)] assms(5) k(1) now_quiet(3) [OF assms(2) now] show ?thesis by fastforce
  qed
  with advance_timely [OF assms(1,2) t(2,1)] show "in_time T loc t0 ?b k st' p ph'" by (simp add: in_time_def)
qed

section \<open>Runs\<close>

lemma outcome_young:
  assumes "pool_outcome ctx cands workers st st'" "world_laws annotationPendingSince R T loc (rc_world ctx)"
    and "rc_location ctx = loc" "t0 \<le> T (rs_env st)" "young_text loc t0 (R (rs_env st) k)"
  shows "t0 \<le> T (rs_env st') \<and> young_text loc t0 (R (rs_env st') k)"
  using assms(1)
proof (cases rule: pool_outcomeE)
  case idle
  with assms(4,5) show ?thesis by simp
next
  case (pool n s)
  let ?I = "\<lambda>st. t0 \<le> T (rs_env st) \<and> young_text loc t0 (R (rs_env st) k)"
  have "?I (pl_shared s)"
  proof (rule conjunct1 [OF pool_invariant [OF pool(1), of ?I "\<lambda>p. timely loc t0"]])
    show "?I st" using assms(4,5) by simp
    show "timely loc t0 Fresh" by simp
    show "?I st' \<and> timely loc t0 ph'"
      if "?I st" "timely loc t0 ph" "advance ctx p (ph, st) = (ph', st')" for p ph st ph' st'
      using advance_young [OF that(3) assms(2,3) that(2)] advance_timely [OF that(3) assms(2) _ that(2)]
        advance_clock [OF that(3) assms(2)] that(1) by simp
  qed
  with pool(3) show ?thesis by simp
qed

lemma outcome_patient:
  assumes "pool_outcome ctx cands workers st st'" "world_laws annotationPendingSince R T loc (rc_world ctx)"
    and "rc_location ctx = loc" "0 < stabilization_window (timing (rc_spec ctx))"
    and "\<forall>p \<in> set cands. young_text loc t0 (anns_get (annotations p) annotationPendingSince) \<or> (pod_namespace p, pod_name p) \<noteq> k"
    and "patient R T loc t0 (t0 + stabilization_window (timing (rc_spec ctx))) k st"
  shows "patient R T loc t0 (t0 + stabilization_window (timing (rc_spec ctx))) k st'"
  using assms(1)
proof (cases rule: pool_outcomeE)
  case idle
  with assms(6) show ?thesis by simp
next
  case (pool n s)
  let ?b = "t0 + stabilization_window (timing (rc_spec ctx))"
  have "patient R T loc t0 ?b k (pl_shared s)"
  proof (rule conjunct1 [OF pool_invariant_mono [OF pool(1), of "patient R T loc t0 ?b k" "in_time T loc t0 ?b k"]])
    show "patient R T loc t0 ?b k st" by (rule assms(6))
    show "in_time T loc t0 ?b k st p Fresh" for st :: "'c run_state" and p :: "'a pod" by (simp add: in_time_def)
    fix p ph st ph' st'
    assume a: "p \<in> set cands" "patient R T loc t0 ?b k st" "in_time T loc t0 ?b k st p ph" "advance ctx p (ph, st) = (ph', st')"
    note step = advance_patient [OF a(4) assms(2-4) bspec [OF assms(5) a(1)] a(2,3)]
    show "patient R T loc t0 ?b k st' \<and> in_time T loc t0 ?b k st' p ph' \<and>
        (\<forall>q qh. in_time T loc t0 ?b k st q qh \<longrightarrow> in_time T loc t0 ?b k st' q qh)"
      by (intro conjI allI impI) (rule step(1), rule step(2), erule step(3))
  qed
  with pool(3) show ?thesis by simp
qed

text \<open>What a run keeps of the annotation, and when it may have resized the pod.\<close>

lemma reconcile_young:
  fixes cl :: "('q, 'l, 's, 'e) cluster"
  assumes "cluster_laws annotationPendingSince R T (rq_location cfg) cl" "reconcile cfg cl name pr e oc"
    and "t0 \<le> T e" "young_text (rq_location cfg) t0 (R e k)"
  shows "t0 \<le> T (oc_env oc)" "young_text (rq_location cfg) t0 (R (oc_env oc) k)"
    and "cl_get_policy cl name (snd (w_now (cl_world cl) e)) = (Inr obj, e0) \<Longrightarrow>
      0 < stabilization_window (timing (po_spec obj)) \<Longrightarrow> ev \<in> resized_events oc \<Longrightarrow> ev_object ev = k \<Longrightarrow>
      t0 + stabilization_window (timing (po_spec obj)) \<le> T (oc_env oc)"
proof -
  let ?loc = "rq_location cfg"
  let ?good = "\<lambda>e. t0 \<le> T e \<and> young_text ?loc t0 (R e k)"
  note steady = cluster_steady [OF assms(1)]
  have quiet: "quiet R T e e' \<Longrightarrow> ?good e \<Longrightarrow> ?good e'" for e e' by (auto simp: quiet_def)
  have "?good (oc_env oc) \<and> (\<forall>obj e0. cl_get_policy cl name (snd (w_now (cl_world cl) e)) = (Inr obj, e0) \<longrightarrow>
      0 < stabilization_window (timing (po_spec obj)) \<longrightarrow> (\<exists>ev \<in> resized_events oc. ev_object ev = k) \<longrightarrow>
      t0 + stabilization_window (timing (po_spec obj)) \<le> T (oc_env oc))"
    using assms(2)
  proof cases
    case (missing started e1 err e2)
    with quiet [OF steady_policy [OF steady missing(2,3)]] assms(3,4) show ?thesis
      by (simp add: nothing_done_def resized_events_def)
  next
    case (failed started e1 err e2)
    with quiet [OF steady_policy [OF steady failed(2,3)]] assms(3,4) show ?thesis
      by (simp add: nothing_done_def resized_events_def)
  next
    case (early started e1 obj' e2 v)
    have "quiet R T e2 (vs_env v)"
      using admit_steady [OF steady, of "first_visit obj' pr e2" cfg obj'] early(4) by (simp add: first_visit_def)
    moreover have "quiet R T (vs_env v) (oc_env oc)"
      unfolding early(1) by (rule leave_steady [OF steady])
    ultimately have "?good (oc_env oc)"
      using quiet [OF steady_policy [OF steady early(2,3)]] quiet assms(3,4) by blast
    moreover have "resized_events oc = {}"
      using early_events [OF early(4)] early(1) by (auto simp: first_visit_def resized_events_def)
    ultimately show ?thesis by simp
  next
    case (ran started e1 obj' e2 ad li ctx st0 st aggs real unix sm v)
    let ?w = "stabilization_window (timing (po_spec obj'))"
    note prep = prepare_times [OF assms(1) ran(4,5)]
    have w: "world_laws annotationPendingSince R T ?loc (rc_world ctx)"
      using assms(1) prep(2) by (simp add: cluster_laws_def)
    have before: "?good (vs_env (first_visit obj' pr e2))"
      using quiet [OF steady_policy [OF steady ran(2,3)]] assms(3,4) by (simp add: first_visit_def)
    then have start: "?good (rs_env st0)" by (rule quiet [OF prep(1)])
    then have mid: "?good (rs_env st)" using outcome_young [OF ran(6) w prep(3), where ?t0.0 = t0 and k = k] by simp
    note fin = finish_steady(1) [OF steady ran(8), of "sm_requeue sm" "Some sm", folded ran(1)]
    have good: "?good (oc_env oc)" by (rule quiet [OF fin mid])
    have events: "oc_events oc = rs_events st" using ran(1) finish_steady(2) [OF steady ran(8)] by simp
    have "t0 + ?w \<le> T (oc_env oc)" if "0 < ?w" "ev \<in> resized_events oc" "ev_object ev = k" for ev
    proof -
      have "rc_spec ctx = po_spec obj'" by (rule prepareE [OF ran(5)]) (simp add: run_context_def)
      then have spec: "stabilization_window (timing (rc_spec ctx)) = ?w" by simp
      have cands: "\<forall>p \<in> set (sn_candidates (ls_selection li)).
          young_text ?loc t0 (anns_get (annotations p) annotationPendingSince) \<or> (pod_namespace p, pod_name p) \<noteq> k"
        using prep(4) before by auto
      have "patient R T ?loc t0 (t0 + ?w) k st0"
        using start prepare_reports(1) [OF ran(5,4)] by (simp add: patient_def)
      then have "patient R T ?loc t0 (t0 + ?w) k st"
        using outcome_patient [OF ran(6) w prep(3) _ cands] that(1) by (simp add: spec)
      with that(2,3) have "t0 + ?w \<le> T (rs_env st)"
        by (auto simp: patient_def resized_events_def events)
      with fin show ?thesis by (simp add: quiet_def)
    qed
    with good ran(2,3) show ?thesis by auto
  qed
  then show "t0 \<le> T (oc_env oc)" "young_text ?loc t0 (R (oc_env oc) k)"
    and "cl_get_policy cl name (snd (w_now (cl_world cl) e)) = (Inr obj, e0) \<Longrightarrow>
      0 < stabilization_window (timing (po_spec obj)) \<Longrightarrow> ev \<in> resized_events oc \<Longrightarrow> ev_object ev = k \<Longrightarrow>
      t0 + stabilization_window (timing (po_spec obj)) \<le> T (oc_env oc)"
    by blast+
qed

text \<open>
  Runs one after the other, of any policies, and what happens in between, as long as it
  leaves the annotation of the pod alone.
\<close>

inductive runs ::
  "('q, 'l, 's, 'r) reconciler \<Rightarrow> ('q, 'l, 's, 'e) cluster \<Rightarrow> ('e \<Rightarrow> string \<times> string \<Rightarrow> string) \<Rightarrow> ('e \<Rightarrow> time) \<Rightarrow>
    string \<times> string \<Rightarrow> 'e \<Rightarrow> 'e \<Rightarrow> bool"
  for cfg cl R T k where
  here: "runs cfg cl R T k e e"
| run: "runs cfg cl R T k e0 e \<Longrightarrow> reconcile cfg cl name pr e oc \<Longrightarrow> runs cfg cl R T k e0 (oc_env oc)"
| gap: "runs cfg cl R T k e0 e \<Longrightarrow> R e' k = R e k \<Longrightarrow> T e \<le> T e' \<Longrightarrow> runs cfg cl R T k e0 e'"

lemma runs_young:
  assumes "runs cfg cl R T k e0 e" "cluster_laws annotationPendingSince R T (rq_location cfg) cl"
    and "t0 \<le> T e0" "young_text (rq_location cfg) t0 (R e0 k)"
  shows "t0 \<le> T e \<and> young_text (rq_location cfg) t0 (R e k)"
  using assms(1,3,4)
proof induction
  case (run e0 e name pr oc)
  with reconcile_young(1,2) [OF assms(2) run(2)] show ?case by blast
qed auto



end
