(* ===== verification/PoolProgress.thy ===== *)
theory PoolProgress
  imports WorkerProps ReconcileLemmas
begin

text \<open>
  What the workers must do, beside what they may do: when the server answers, there is a slot
  for every candidate and the budget covers all increases together, then every candidate
  with a stable target is resized, in whatever order the workers go. The other theories
  bound what a run does; workers that do nothing would satisfy those bounds, and not this.
\<close>

section \<open>Nothing in the way\<close>

text \<open>What the workers rely on that stays the same: the support, the metrics and the answers of the server.\<close>

definition open_way :: "('q, 'l, 'e) run_ctx \<Rightarrow> bool" where
  "open_way ctx \<longleftrightarrow>
     cap_state (rc_cap ctx) = SupportSupported \<and> rc_recorder ctx \<and> (\<forall>err. rc_metrics ctx \<noteq> MetricsFailed err) \<and>
     (\<forall>ns nm d e. \<exists>out e'. w_update_resize (rc_world ctx) ns nm d e = (Inr out, e'))"

text \<open>The shared state: not cancelled, and with a resizer.\<close>

definition at_ease :: "'e run_state \<Rightarrow> bool" where
  "at_ease st \<longleftrightarrow> \<not> rs_cancelled st \<and> (\<exists>pr. rs_prober st = Some pr \<and> has_clientset pr)"

text \<open>The target of a pod, if it has one.\<close>

definition target_of :: "('q, 'l, 'e) run_ctx \<Rightarrow> 'q pod \<Rightarrow> 'q result option" where
  "target_of ctx p =
     (case getPodMetrics (rc_metrics ctx) (pod_namespace p) (pod_name p) of
        Inr (Some pm) \<Rightarrow>
          (case ComputeDesired (rc_q ctx) (Some p) (Some pm) (rc_spec ctx) of
             (res, None) \<Rightarrow> if changed res \<and> res_delta res \<noteq> zero_delta then Some res else None
           | (res, Some err) \<Rightarrow> None)
      | _ \<Rightarrow> None)"

lemma wanted_target: "wanted ctx p res \<longleftrightarrow> target_of ctx p = Some res"
  by (auto simp: wanted_def target_of_def split: sum.splits option.splits prod.splits)

lemma wanted_desired:
  assumes "wanted ctx p res"
  obtains d where "desired res = Some d"
proof -
  obtain pm where c: "ComputeDesired (rc_q ctx) (Some p) (Some pm) (rc_spec ctx) = (res, None)" and "changed res"
    using assms by (auto simp: wanted_def)
  from c show thesis
    by (cases rule: compute_desired_ok) (use that \<open>changed res\<close> in \<open>auto simp: unchanged_result_def\<close>)
qed

lemma evaluate_wanted:
  assumes "wanted ctx p res"
  shows "fst (evaluate_pod ctx p st) = Computed res"
  using assms by (auto simp: wanted_def nonzero_delta evaluate_pod_def act_on_result_def Let_def)

lemma apply_wanted:
  assumes "wanted ctx p res" "open_way ctx" "at_ease st"
  shows "fst (apply_resize ctx p res t st) = Applied res t"
proof -
  obtain d where d: "desired res = Some d" using assms(1) by (rule wanted_desired)
  obtain pr where "rs_prober st = Some pr" "has_clientset pr" using assms(3) by (auto simp: at_ease_def)
  moreover obtain out e' where "w_update_resize (rc_world ctx) (pod_namespace p) (pod_name p) d (rs_env st) = (Inr out, e')"
    using assms(2) unfolding open_way_def by blast
  ultimately show ?thesis
    using d assms(2) by (simp add: apply_resize_def count_api_call_def UpdateResize_def open_way_def Let_def)
qed

text \<open>The phases that a pod passes; the others follow an error of the resize call.\<close>

fun calm :: "'q phase \<Rightarrow> bool" where
  "calm (Conflicted res t) \<longleftrightarrow> False"
| "calm (Retrying res t fresh) \<longleftrightarrow> False"
| "calm (Refused res err) \<longleftrightarrow> False"
| "calm (Releasing res) \<longleftrightarrow> False"
| "calm ph \<longleftrightarrow> True"

lemma advance_calm:
  assumes "advance ctx p (ph, st) = (ph', st')" "open_way ctx" "at_ease st" "justified ctx p ph" "calm ph"
  shows "calm ph'"
proof (cases ph)
  case Slotted
  with assms(1) have "evaluate_pod ctx p st = (ph', st')" by simp
  then show ?thesis by (cases rule: evaluate_pod_cases) simp_all
next
  case (Reserved res t)
  with assms(1,4) apply_wanted [OF _ assms(2,3), of p res t] show ?thesis by simp
qed (use assms in \<open>auto simp: pool_segments check_stable_def note_pending_def annotate_pod_def take_slot_def Let_def
    split: segment_splits\<close>)

lemma advance_at_ease:
  assumes "advance ctx p (ph, st) = (ph', st')" "open_way ctx" "calm ph" "at_ease st"
  shows "at_ease st'"
  using assms(1)
proof (cases rule: advance_control)
  case same
  with assms(4) show ?thesis by (simp add: control_def at_ease_def)
next
  case (no_metrics err)
  with assms(2) show ?thesis by (simp add: open_way_def)
next
  case (refused res err)
  with assms(3) show ?thesis by simp
qed

section \<open>The way of one pod\<close>

definition always_stable :: "('q, 'l, 'e) run_ctx \<Rightarrow> 'q pod \<Rightarrow> 'q result \<Rightarrow> bool" where
  "always_stable ctx p res \<longleftrightarrow> (\<forall>e. stable ctx p res (fst (w_now (rc_world ctx) e)))"

text \<open>Between the start and the annotation, towards a given target.\<close>

fun on_track :: "'q result \<Rightarrow> 'q phase \<Rightarrow> bool" where
  "on_track res Fresh \<longleftrightarrow> True"
| "on_track res Slotted \<longleftrightarrow> True"
| "on_track res (Computed r) \<longleftrightarrow> r = res"
| "on_track res (Decided r t) \<longleftrightarrow> r = res"
| "on_track res (Reserved r t) \<longleftrightarrow> r = res"
| "on_track res (Applied r t) \<longleftrightarrow> r = res"
| "on_track res (Committed r t) \<longleftrightarrow> r = res"
| "on_track res ph \<longleftrightarrow> False"

text \<open>It goes on when it finds a slot and its part of the budget.\<close>

lemma advance_on_track:
  assumes "advance ctx p (ph, st) = (ph', st')" "open_way ctx" "at_ease st" "on_track res ph"
    and "wanted ctx p res" "always_stable ctx p res" "ph = Fresh \<Longrightarrow> 0 < rs_slots st"
    and "\<exists>t. ph = Decided res t \<Longrightarrow> tryReserveBudget (res_delta res) (rs_budget st) \<noteq> None"
  shows "on_track res ph' \<or> resized_event (rc_q ctx) p (res_delta res) \<in> set (rs_events st')"
proof (cases ph)
  case Fresh
  with assms(1,3,7) show ?thesis
    by (auto simp: begin_pod_def take_slot_def at_ease_def split: segment_splits)
next
  case Slotted
  with assms(1) evaluate_wanted [OF assms(5), of st] show ?thesis by simp
next
  case (Computed r)
  with assms(1,4,6) show ?thesis
    by (auto simp: check_stable_def always_stable_def stable_def Let_def split: prod.splits) (metis fst_conv)
next
  case (Decided r t)
  with assms(1,4,8) show ?thesis
    by (auto simp: reserve_budget_def split: option.splits)
next
  case (Reserved r t)
  with assms(1,4) apply_wanted [OF assms(5,2,3), of t] show ?thesis by simp
next
  case (Applied r t)
  with assms(1,4) show ?thesis by (auto simp: commit_resize_def)
next
  case (Committed r t)
  with assms(1,2,4) show ?thesis
    by (auto simp: annotate_pod_def open_way_def Let_def split: prod.splits)
qed (use assms(4) in simp_all)

section \<open>Slots and budget that are still needed\<close>

text \<open>What a pod may still take: the waiting ones, and those at work that have not reserved yet.\<close>

fun ahead :: "'q phase \<Rightarrow> bool" where
  "ahead Fresh \<longleftrightarrow> True"
| "ahead Slotted \<longleftrightarrow> True"
| "ahead (Computed res) \<longleftrightarrow> True"
| "ahead (Decided res t) \<longleftrightarrow> True"
| "ahead ph \<longleftrightarrow> False"

definition still_needed ::
  "('q pod \<Rightarrow> 'q phase \<Rightarrow> int) \<Rightarrow> 'q pod list \<Rightarrow> ('q pod \<times> 'q phase) option list \<Rightarrow> int" where
  "still_needed f q ws =
     sum_list (map (\<lambda>p. f p Fresh) q) + sum_list (map (\<lambda>w. case w of None \<Rightarrow> 0 | Some (p, ph) \<Rightarrow> f p ph) ws)"

lemma still_needed_update:
  assumes "i < length ws"
  shows "still_needed f q (ws[i := w']) =
    still_needed f q ws - (case ws ! i of None \<Rightarrow> 0 | Some (p, ph) \<Rightarrow> f p ph) +
      (case w' of None \<Rightarrow> 0 | Some (p, ph) \<Rightarrow> f p ph)"
  using sum_list_update_balance [OF assms, of "\<lambda>w. case w of None \<Rightarrow> 0 | Some (p, ph) \<Rightarrow> f p ph" w']
  by (simp add: still_needed_def)

lemma still_needed_start: "still_needed f q (replicate k None) = sum_list (map (\<lambda>p. f p Fresh) q)"
  by (induction k) (simp_all add: still_needed_def)

lemma still_needed_member:
  assumes "i < length ws" "ws ! i = Some (p, ph)" "\<And>p ph. 0 \<le> f p ph"
  shows "f p ph \<le> still_needed f q ws"
proof -
  have "0 \<le> still_needed f q (ws[i := None])"
    using assms(3) unfolding still_needed_def by (intro add_nonneg_nonneg sum_list_nonneg) (auto split: option.splits)
  then show ?thesis
    using still_needed_update [OF assms(1), of f q None] assms(2) by simp
qed

text \<open>
  How much a pod's target adds (\<open>s = 1\<close>) or takes away (\<open>s = -1\<close>) of one resource.
\<close>

definition part :: "int \<Rightarrow> (delta \<Rightarrow> int) \<Rightarrow> 'q result option \<Rightarrow> int" where
  "part s amt r = (case r of None \<Rightarrow> 0 | Some res \<Rightarrow> max 0 (s * amt (res_delta res)))"

definition slot_need :: "'q pod \<Rightarrow> 'q phase \<Rightarrow> int" where
  "slot_need p ph = (if ph = Fresh then 1 else 0)"

definition need :: "int \<Rightarrow> (delta \<Rightarrow> int) \<Rightarrow> ('q, 'l, 'e) run_ctx \<Rightarrow> 'q pod \<Rightarrow> 'q phase \<Rightarrow> int" where
  "need s amt ctx p ph = (if ahead ph then part s amt (target_of ctx p) else 0)"

lemma part_nonneg [simp]: "0 \<le> part s amt r"
  by (simp add: part_def split: option.split)

lemma need_nonneg [simp]: "0 \<le> need s amt ctx p ph" "0 \<le> slot_need p ph"
  by (simp_all add: need_def slot_need_def)

text \<open>One limit of the budget covers what is outstanding and all that is still needed, and nothing wraps.\<close>

definition covers :: "(delta \<Rightarrow> int) \<Rightarrow> (budget \<Rightarrow> int) \<Rightarrow> budget \<Rightarrow> int \<Rightarrow> int \<Rightarrow> bool" where
  "covers amt mx b up down \<longleftrightarrow>
     mx b \<le> 0 \<or>
     (budget_outstanding amt b + up \<le> mx b \<and> budget_outstanding amt b + up \<le> 4611686018427387903 \<and>
      down - budget_outstanding amt b \<le> 4611686018427387903)"

text \<open>The two limits.\<close>

definition limit_of :: "(delta \<Rightarrow> int) \<Rightarrow> (budget \<Rightarrow> int) \<Rightarrow> bool" where
  "limit_of amt mx \<longleftrightarrow> amt = cpu_request_milli \<and> mx = bm_max_cpu \<or> amt = memory_request_byte \<and> mx = bm_max_mem"

lemma limit_of [simp]: "limit_of cpu_request_milli bm_max_cpu" "limit_of memory_request_byte bm_max_mem"
  by (simp_all add: limit_of_def)

lemma limit_fields:
  assumes "limit_of amt mx"
  shows "mx (commitBudget a b) = mx b" "budget_outstanding amt (commitBudget a b) = budget_outstanding amt b"
    and "tryReserveBudget a b = Some b' \<Longrightarrow> mx b' = mx b"
    and "tryReserveBudget a b = Some b' \<Longrightarrow>
      budget_outstanding amt b' = i64 (budget_outstanding amt b + amt a)"
proof -
  show "mx (commitBudget a b) = mx b" "budget_outstanding amt (commitBudget a b) = budget_outstanding amt b"
    using assms by (auto simp: limit_of_def commit_outstanding)
  show "tryReserveBudget a b = Some b' \<Longrightarrow> mx b' = mx b"
    and "tryReserveBudget a b = Some b' \<Longrightarrow> budget_outstanding amt b' = i64 (budget_outstanding amt b + amt a)"
    using assms
    by (auto simp: limit_of_def tryReserveBudget_def budget_outstanding_def delta_add_def add.assoc Let_def split: if_splits)
qed

text \<open>What is covered can be reserved.\<close>

lemma covered_fits:
  assumes "covers amt mx b up down" "0 < mx b" "max 0 (amt d) \<le> up" "max 0 (- amt d) \<le> down"
  shows "i64 (budget_outstanding amt b + amt d) = budget_outstanding amt b + amt d"
    and "budget_outstanding amt b + amt d \<le> mx b"
proof -
  have *: "budget_outstanding amt b + amt d \<le> 4611686018427387903" "- 4611686018427387903 \<le> budget_outstanding amt b + amt d"
    "budget_outstanding amt b + amt d \<le> mx b"
    using assms by (auto simp: covers_def)
  then show "i64 (budget_outstanding amt b + amt d) = budget_outstanding amt b + amt d"
    by (intro i64_id) (simp add: in_i64_def)
  show "budget_outstanding amt b + amt d \<le> mx b" by (rule *(3))
qed

lemma covered_reserve:
  assumes "covers cpu_request_milli bm_max_cpu b cu cd" "max 0 (cpu_request_milli d) \<le> cu" "max 0 (- cpu_request_milli d) \<le> cd"
    and "covers memory_request_byte bm_max_mem b mu md" "max 0 (memory_request_byte d) \<le> mu" "max 0 (- memory_request_byte d) \<le> md"
  shows "tryReserveBudget d b \<noteq> None"
  using covered_fits [OF assms(1) _ assms(2,3)] covered_fits [OF assms(4) _ assms(5,6)]
  by (auto simp: tryReserveBudget_def budget_outstanding_def Let_def)

lemma covers_less: "covers amt mx b up down \<Longrightarrow> up' \<le> up \<Longrightarrow> down' \<le> down \<Longrightarrow> covers amt mx b up' down'"
  by (auto simp: covers_def)

text \<open>A segment keeps that.\<close>

lemma advance_covers:
  assumes "advance ctx p (ph, st) = (ph', st')" "ph \<noteq> Finished" "calm ph" "justified ctx p ph" "limit_of amt mx"
    and "covers amt mx (rs_budget st) up down"
    and "need 1 amt ctx p ph \<le> up" "need (-1) amt ctx p ph \<le> down"
  shows "covers amt mx (rs_budget st') (up - need 1 amt ctx p ph + need 1 amt ctx p ph')
    (down - need (-1) amt ctx p ph + need (-1) amt ctx p ph')"
proof -
  have less: "need s amt ctx p ph' \<le> need s amt ctx p ph" for s
  proof (cases ph)
    case Slotted
    then show ?thesis by (simp add: need_def)
  qed (use assms(1,2) in \<open>auto simp: need_def pool_segments call_segments Let_def split: segment_splits\<close>)
  have "rs_budget st' = rs_budget st \<or>
      (\<exists>res t. ph = Decided res t \<and> ph' = Reserved res t \<and> tryReserveBudget (res_delta res) (rs_budget st) = Some (rs_budget st')) \<or>
      (\<exists>res t. ph = Applied res t \<and> rs_budget st' = commitBudget (res_delta res) (rs_budget st))"
    using advance_moves [OF assms(1,2)] assms(3) by (auto simp: pools_move_def)
  then consider "rs_budget st' = rs_budget st"
    | res t where "ph = Decided res t" "ph' = Reserved res t" "tryReserveBudget (res_delta res) (rs_budget st) = Some (rs_budget st')"
    | res t where "ph = Applied res t" "rs_budget st' = commitBudget (res_delta res) (rs_budget st)"
    by blast
  then show ?thesis
  proof cases
    case 1
    with assms(6) less [of 1] less [of "-1"] show ?thesis by (auto intro: covers_less)
  next
    case (3 res t)
    then have "covers amt mx (rs_budget st') up down"
      using assms(6) limit_fields(1,2) [OF assms(5)] by (simp add: covers_def)
    with less [of 1] less [of "-1"] show ?thesis by (auto intro: covers_less)
  next
    case (2 res t)
    let ?d = "amt (res_delta res)"
    have "target_of ctx p = Some res" using assms(4) 2(1) by (simp add: wanted_target)
    then have n: "need 1 amt ctx p ph = max 0 ?d" "need (-1) amt ctx p ph = max 0 (- ?d)"
      "need 1 amt ctx p ph' = 0" "need (-1) amt ctx p ph' = 0"
      by (simp_all add: need_def part_def 2)
    show ?thesis
    proof (cases "mx (rs_budget st) \<le> 0")
      case True
      with limit_fields(3) [OF assms(5) 2(3)] show ?thesis by (simp add: covers_def)
    next
      case False
      then have "budget_outstanding amt (rs_budget st') = budget_outstanding amt (rs_budget st) + ?d"
        using covered_fits(1) [OF assms(6), of "res_delta res"] limit_fields(4) [OF assms(5) 2(3)] assms(7,8) n by simp
      with False limit_fields(3) [OF assms(5) 2(3)] assms(6) n show ?thesis
        by (auto simp: covers_def)
    qed
  qed
qed

section \<open>The pool\<close>

lemma advance_slot_need:
  assumes "advance ctx p (ph, st) = (ph', st')" "ph \<noteq> Finished"
  shows "int (rs_slots st) - slot_need p ph \<le> int (rs_slots st')" "slot_need p ph' = 0"
proof -
  have "rank ph \<le> 10" by (cases ph) simp_all
  with advance_slots(3) [OF assms] show "slot_need p ph' = 0" by (auto simp: slot_need_def)
  show "int (rs_slots st) - slot_need p ph \<le> int (rs_slots st')"
  proof (cases ph)
    case Slotted
    with assms(1) have "evaluate_pod ctx p st = (ph', st')" by simp
    then show ?thesis by (cases rule: evaluate_pod_cases) (simp_all add: slot_need_def)
  qed (use assms in \<open>auto simp: slot_need_def pool_segments call_segments take_slot_def put_slot_def keep_slot_def Let_def
      split: segment_splits\<close>)
qed

lemma events_stay:
  assumes "advance ctx p (ph, st) = (ph', st')" "ev \<in> set (rs_events st)"
  shows "ev \<in> set (rs_events st')"
  using advance_reports [OF assms(1)] assms(2) by (auto simp: reports_grow_def)

text \<open>
  Slots and budget cover what is still needed; the pod is still to come, on its way, or
  resized.
\<close>

definition pool_need :: "('q pod \<Rightarrow> 'q phase \<Rightarrow> int) \<Rightarrow> ('q, 'e) pool \<Rightarrow> int" where
  "pool_need f s = still_needed f (pl_queue s) (pl_workers s)"

definition pool_covers ::
  "('q, 'l, 'e) run_ctx \<Rightarrow> (delta \<Rightarrow> int) \<Rightarrow> (budget \<Rightarrow> int) \<Rightarrow> ('q, 'e) pool \<Rightarrow> bool" where
  "pool_covers ctx amt mx s \<longleftrightarrow>
     covers amt mx (rs_budget (pl_shared s)) (pool_need (need 1 amt ctx) s) (pool_need (need (-1) amt ctx) s)"

definition unhindered :: "('q, 'l, 'e) run_ctx \<Rightarrow> ('q, 'e) pool \<Rightarrow> bool" where
  "unhindered ctx s \<longleftrightarrow>
     at_ease (pl_shared s) \<and> pool_need slot_need s \<le> int (rs_slots (pl_shared s)) \<and>
     pool_covers ctx cpu_request_milli bm_max_cpu s \<and> pool_covers ctx memory_request_byte bm_max_mem s \<and>
     list_all (worker_all (\<lambda>p ph. calm ph \<and> justified ctx p ph)) (pl_workers s)"

definition under_way :: "('q, 'l, 'e) run_ctx \<Rightarrow> 'q pod \<Rightarrow> 'q result \<Rightarrow> ('q, 'e) pool \<Rightarrow> bool" where
  "under_way ctx p res s \<longleftrightarrow>
     p \<in> set (pl_queue s) \<or> (\<exists>i < length (pl_workers s). \<exists>ph. pl_workers s ! i = Some (p, ph) \<and> on_track res ph) \<or>
     resized_event (rc_q ctx) p (res_delta res) \<in> set (rs_events (pl_shared s))"

lemma pool_need_steps:
  shows "i < length (pl_workers s) \<Longrightarrow> pl_workers s ! i = None \<Longrightarrow> pl_queue s = p # ps \<Longrightarrow>
      pool_need f (s\<lparr>pl_queue := ps, pl_workers := (pl_workers s)[i := Some (p, Fresh)]\<rparr>) = pool_need f s"
    and "i < length (pl_workers s) \<Longrightarrow> pl_workers s ! i = Some (p, ph) \<Longrightarrow>
      pool_need f (s\<lparr>pl_workers := (pl_workers s)[i := Some (p, ph')], pl_shared := st'\<rparr>) =
        pool_need f s - f p ph + f p ph'"
    and "i < length (pl_workers s) \<Longrightarrow> pl_workers s ! i = Some (p, ph) \<Longrightarrow>
      pool_need f (s\<lparr>pl_workers := (pl_workers s)[i := None]\<rparr>) = pool_need f s - f p ph"
proof -
  show "i < length (pl_workers s) \<Longrightarrow> pl_workers s ! i = None \<Longrightarrow> pl_queue s = p # ps \<Longrightarrow>
      pool_need f (s\<lparr>pl_queue := ps, pl_workers := (pl_workers s)[i := Some (p, Fresh)]\<rparr>) = pool_need f s"
    using still_needed_update [of i "pl_workers s" f ps "Some (p, Fresh)"]
    by (simp add: pool_need_def) (simp add: still_needed_def)
qed (simp_all add: pool_need_def still_needed_update)

lemma pool_need_member:
  assumes "i < length (pl_workers s)" "pl_workers s ! i = Some (p, ph)" "\<And>p ph. 0 \<le> f p ph"
  shows "f p ph \<le> pool_need f s"
  unfolding pool_need_def by (rule still_needed_member [OF assms])

lemma work_covers:
  assumes "i < length (pl_workers s)" "pl_workers s ! i = Some (p, ph)" "ph \<noteq> Finished"
    and "advance ctx p (ph, pl_shared s) = (ph', st')" "calm ph" "justified ctx p ph" "limit_of amt mx" "pool_covers ctx amt mx s"
  shows "pool_covers ctx amt mx (s\<lparr>pl_workers := (pl_workers s)[i := Some (p, ph')], pl_shared := st'\<rparr>)"
  using advance_covers [OF assms(4,3,5-7) assms(8) [unfolded pool_covers_def]]
    pool_need_member [OF assms(1,2)] pool_need_steps(2) [OF assms(1,2)]
  by (simp add: pool_covers_def)

lemma step_unhindered:
  assumes "pool_step ctx s s'" "open_way ctx" "unhindered ctx s"
  shows "unhindered ctx s'"
  using assms(1)
proof cases
  case (take i p ps)
  with assms(3) pool_need_steps(1) [OF take(2-4)] show ?thesis
    by (auto simp: unhindered_def pool_covers_def intro: list_all_upd)
next
  case stop
  with assms(3) show ?thesis by (simp add: unhindered_def at_ease_def)
next
  case (work i p ph ph' st')
  have ok: "calm ph" "justified ctx p ph" "at_ease (pl_shared s)"
    using assms(3) work(2,3) unfolding unhindered_def by (metis list_all_length worker_all_simps(2))+
  have "pool_covers ctx amt mx s'" if "limit_of amt mx" "pool_covers ctx amt mx s" for amt mx
    unfolding work(1) by (rule work_covers [OF work(2-5) ok(1,2) that])
  moreover have "pool_need slot_need s' \<le> int (rs_slots (pl_shared s'))"
    using pool_need_steps(2) [OF work(2,3), where f = slot_need and ph' = ph' and st' = st'] advance_slot_need [OF work(5,4)] assms(3)
    by (simp add: work(1) unhindered_def)
  moreover have "at_ease (pl_shared s')"
    using advance_at_ease [OF work(5) assms(2) ok(1,3)] by (simp add: work(1))
  moreover have "list_all (worker_all (\<lambda>p ph. calm ph \<and> justified ctx p ph)) (pl_workers s')"
    using assms(3) advance_calm [OF work(5) assms(2) ok(3,2,1)] advance_justified [OF work(5) ok(2)]
    by (auto simp: work(1) unhindered_def intro: list_all_upd)
  ultimately show ?thesis using assms(3) by (simp add: unhindered_def)
next
  case (rest i p)
  have "pool_need f s' = pool_need f s" if "f p Finished = 0" for f
    using pool_need_steps(3) [OF rest(2,3), of f] that by (simp add: rest(1))
  then have "pool_need slot_need s' = pool_need slot_need s" "pool_need (need s0 amt ctx) s' = pool_need (need s0 amt ctx) s" for s0 amt
    by (simp_all add: slot_need_def need_def)
  with assms(3) rest show ?thesis
    by (auto simp: unhindered_def pool_covers_def intro: list_all_upd)
qed

lemma step_under_way:
  assumes "pool_step ctx s s'" "open_way ctx" "unhindered ctx s" "under_way ctx p res s"
    and "wanted ctx p res" "always_stable ctx p res"
  shows "under_way ctx p res s'"
  using assms(1)
proof cases
  case (take i q ps)
  with assms(4) show ?thesis
    by (auto simp: under_way_def nth_list_update) (metis option.distinct(1))
next
  case stop
  with assms(3) show ?thesis by (simp add: unhindered_def at_ease_def)
next
  case (work i q ph ph' st')
  consider "p \<in> set (pl_queue s)" | j ph0 where "j < length (pl_workers s)" "pl_workers s ! j = Some (p, ph0)" "on_track res ph0"
    | "resized_event (rc_q ctx) p (res_delta res) \<in> set (rs_events (pl_shared s))"
    using assms(4) unfolding under_way_def by blast
  then show ?thesis
  proof cases
    case 1
    with work(1) show ?thesis by (simp add: under_way_def)
  next
    case 3
    with work(1) events_stay [OF work(5)] show ?thesis by (simp add: under_way_def)
  next
    case (2 j)
    show ?thesis
    proof (cases "j = i")
      case False
      with 2 work(1) show ?thesis by (fastforce simp: under_way_def)
    next
      case True
      with 2 work(3) have same: "q = p" "ph0 = ph" by simp_all
      note member = pool_need_member [OF work(2) work(3) [unfolded same]]
      have slot: "0 < rs_slots (pl_shared s)" if "ph = Fresh"
        using member [of slot_need, OF need_nonneg(2)] assms(3) that by (simp add: unhindered_def slot_need_def)
      have budget: "tryReserveBudget (res_delta res) (rs_budget (pl_shared s)) \<noteq> None" if "\<exists>t. ph = Decided res t"
      proof -
        have n: "need s0 amt ctx p ph = max 0 (s0 * amt (res_delta res))" for s0 amt
          using that assms(5) by (auto simp: need_def part_def wanted_target)
        show ?thesis
          using assms(3) member [of "need 1 cpu_request_milli ctx", OF need_nonneg(1)] member [of "need (-1) cpu_request_milli ctx", OF need_nonneg(1)]
            member [of "need 1 memory_request_byte ctx", OF need_nonneg(1)] member [of "need (-1) memory_request_byte ctx", OF need_nonneg(1)]
          unfolding n unhindered_def pool_covers_def by (intro covered_reserve) simp_all
      qed
      have "at_ease (pl_shared s)" using assms(3) by (simp add: unhindered_def)
      from advance_on_track [OF work(5) [unfolded same] assms(2) this 2(3) [unfolded same] assms(5,6) slot budget]
      have "on_track res ph' \<or> resized_event (rc_q ctx) p (res_delta res) \<in> set (rs_events st')" .
      then show ?thesis using work(1,2) same by (auto simp: under_way_def)
    qed
  qed
next
  case (rest i q)
  with assms(4) show ?thesis
    by (auto simp: under_way_def nth_list_update) (metis on_track.simps(14) option.inject prod.inject)
qed

text \<open>So every pod with a stable target is resized when the pool is done.\<close>

lemma pool_resizes:
  assumes "pool_steps ctx n (start_pool cands k st0) s" "pool_done s" "open_way ctx" "at_ease st0"
    and "length cands \<le> rs_slots st0"
    and "\<And>amt mx. limit_of amt mx \<Longrightarrow> covers amt mx (rs_budget st0)
      (\<Sum>p\<leftarrow>cands. part 1 amt (target_of ctx p)) (\<Sum>p\<leftarrow>cands. part (-1) amt (target_of ctx p))"
    and "p \<in> set cands" "wanted ctx p res" "always_stable ctx p res"
  shows "resized_event (rc_q ctx) p (res_delta res) \<in> set (rs_events (pl_shared s))"
proof -
  have start: "pool_need f (start_pool cands k st0) = (\<Sum>p\<leftarrow>cands. f p Fresh)" for f
    by (simp add: pool_need_def start_pool_def still_needed_start)
  have slots: "pool_need slot_need (start_pool cands k st0) = int (length cands)"
    unfolding start by (simp add: slot_need_def sum_list_triv)
  have "unhindered ctx s \<and> under_way ctx p res s"
    using assms(1)
  proof (induction n "start_pool cands k st0" s)
    case none
    have "pool_covers ctx amt mx (start_pool cands k st0)" if "limit_of amt mx" for amt mx
      using assms(6) [OF that] unfolding pool_covers_def start by (simp add: need_def start_pool_def)
    with assms(4,5,7) slots show ?case
      by (simp add: unhindered_def under_way_def) (simp add: start_pool_def list_all_length)
  next
    case (more n s' s'')
    with step_unhindered [OF more(3) assms(3)] step_under_way [OF more(3) assms(3) _ _ assms(8,9)] show ?case by simp
  qed
  with assms(2) show ?thesis by (auto simp: under_way_def pool_done_def list_all_length)
qed

section \<open>Nothing else\<close>

text \<open>Only candidates with a target are resized, with that target's delta, whatever else happens.\<close>

definition only_targets :: "('q, 'l, 'e) run_ctx \<Rightarrow> 'q pod list \<Rightarrow> 'e run_state \<Rightarrow> bool" where
  "only_targets ctx cands st \<longleftrightarrow>
     (\<forall>ev \<in> set (rs_events st). \<exists>p \<in> set cands. \<exists>res. target_of ctx p = Some res \<and>
        ev = resized_event (rc_q ctx) p (res_delta res))"

lemma advance_events:
  assumes "advance ctx p (ph, st) = (ph', st')"
  obtains (same) "rs_events st' = rs_events st"
  | (resized) res t where "ph = Committed res t"
      "set (rs_events st') \<subseteq> insert (resized_event (rc_q ctx) p (res_delta res)) (set (rs_events st))"
proof (cases ph)
  case Slotted
  with assms have "evaluate_pod ctx p st = (ph', st')" by simp
  then show thesis by (cases rule: evaluate_pod_cases) (use same in auto)
next
  case (Refused res err)
  with assms same show thesis by auto
next
  case (Committed res t)
  with assms have "set (rs_events st') \<subseteq> insert (resized_event (rc_q ctx) p (res_delta res)) (set (rs_events st))"
    by (auto simp: annotate_pod_def count_api_call_def Let_def split: prod.splits if_splits)
  with Committed show thesis by (rule resized)
qed (use assms same in \<open>auto simp: pool_segments call_segments Let_def split: segment_splits\<close>)

lemma pool_only_targets:
  assumes "pool_steps ctx n (start_pool cands k st0) s" "rs_events st0 = []"
  shows "only_targets ctx cands (pl_shared s)"
proof (rule conjunct1 [OF pool_invariant [OF assms(1), of "only_targets ctx cands" "justified ctx"]])
  show "only_targets ctx cands st0" using assms(2) by (simp add: only_targets_def)
  fix p ph st ph' st'
  assume a: "p \<in> set cands" "only_targets ctx cands st" "justified ctx p ph" "advance ctx p (ph, st) = (ph', st')"
  from a(4) have "only_targets ctx cands st'"
  proof (cases rule: advance_events)
    case same
    with a(2) show ?thesis by (simp add: only_targets_def)
  next
    case (resized res t)
    then obtain res' where "target_of ctx p = Some res'" "res_delta res = res_delta res'"
      using a(3) by (auto simp: wanted_target)
    with resized(2) a(1,2) show ?thesis
      unfolding only_targets_def by (metis insertE subsetD)
  qed
  with advance_justified [OF a(4,3)] show "only_targets ctx cands st' \<and> justified ctx p ph'" by simp
qed simp

end
