(* ===== verification/Warranted.thy ===== *)
theory Warranted
  imports PoolProgress ReconcileProps
begin

text \<open>
  The whole of \<open>Reconcile\<close> on a cluster that answers every call with success: what
  \<open>PoolProgress\<close> shows of the workers, with its conditions traced back to the policy, the
  listed pods and their metrics.
\<close>

section \<open>A willing cluster\<close>

text \<open>
  A cluster that answers every call with success: the pods, their metrics, a discovery that
  knows the subresource, and updates that are accepted.
\<close>

definition willing :: "('q, 'l, 's, 'e) cluster \<Rightarrow> 'q pod list \<Rightarrow> 'q pod_metrics list \<Rightarrow> bool" where
  "willing cl pods ms \<longleftrightarrow>
     (\<forall>s e. fst (cl_list_pods cl s e) = (None, pods)) \<and>
     (\<exists>list. cl_list_metrics cl = Some list \<and> (\<forall>ns l e. fst (list ns l e) = Inr ms)) \<and>
     (\<exists>rs r. (\<forall>e. fst (cl_discover cl e) = Inr rs) \<and> find (\<lambda>r. res_name r = ''pods/resize'') rs = Some r \<and>
        ''update'' \<in> set (res_verbs r)) \<and>
     (\<forall>ns nm d e. \<exists>out e'. w_update_resize (cl_world cl) ns nm d e = (Inr out, e'))"

text \<open>A prober with both clients that remembers nothing, or that the subresource is there.\<close>

definition ready :: "prober \<Rightarrow> bool" where
  "ready pr \<longleftrightarrow> has_discovery pr \<and> has_clientset pr \<and>
     (cap_state (cache pr) = SupportSupported \<or> time_is_zero (cap_checked (cache pr)))"

text \<open>The target of a listed pod, if it has one.\<close>

definition target ::
  "('q, 'l, 's, 'r) reconciler \<Rightarrow> ('q, 'l) policy_object \<Rightarrow> 'q pod_metrics list \<Rightarrow> 'q pod \<Rightarrow> 'q result option" where
  "target cfg obj ms p =
     (case metrics_map ms (pod_namespace p, pod_name p) of
        None \<Rightarrow> None
      | Some pm \<Rightarrow>
          (case ComputeDesired (rq_quantities cfg) (Some p) (Some pm) (po_spec obj) of
             (res, None) \<Rightarrow> if changed res \<and> res_delta res \<noteq> zero_delta then Some res else None
           | (res, Some err) \<Rightarrow> None))"

text \<open>The pods of a list that a policy selects.\<close>

definition selected_pods ::
  "('q, 'l, 's, 'r) reconciler \<Rightarrow> 'r selector \<Rightarrow> 'q pod list \<Rightarrow> 'q pod list" where
  "selected_pods cfg sel pods = filter (\<lambda>p. Match (rq_regexps cfg) sel (pod_namespace p) \<and> isEligiblePod (Some p)) pods"

text \<open>
  There is enough for all of them: a slot each, and room in the budget for all increases
  together, where it has a limit.
\<close>

definition enough :: "('q, 'l, 's, 'r) reconciler \<Rightarrow> ('q, 'l) policy_object \<Rightarrow> 'q pod_metrics list \<Rightarrow> 'q pod list \<Rightarrow> bool" where
  "enough cfg obj ms chosen \<longleftrightarrow>
     (let b = newBudgetManager (rq_quantities cfg) (timing (po_spec obj));
          total = (\<lambda>s amt. \<Sum>p\<leftarrow>chosen. part s amt (target cfg obj ms p))
      in int (length chosen) \<le> lim_max_pods (run_limits_of cfg (timing (po_spec obj))) \<and>
         covers cpu_request_milli bm_max_cpu b (total 1 cpu_request_milli) (total (-1) cpu_request_milli) \<and>
         covers memory_request_byte bm_max_mem b (total 1 memory_request_byte) (total (-1) memory_request_byte))"

text \<open>A pod to be resized to \<open>res\<close>: not cooling down, and with a target that is stable, at every instant.\<close>

definition warranted ::
  "('q, 'l, 's, 'r) reconciler \<Rightarrow> ('q, 'l, 's, 'e) cluster \<Rightarrow> ('q, 'l) policy_object \<Rightarrow>
    'q pod_metrics list \<Rightarrow> 'q pod \<Rightarrow> 'q result \<Rightarrow> bool" where
  "warranted cfg cl obj ms p res \<longleftrightarrow>
     target cfg obj ms p = Some res \<and>
     (\<forall>e. let now = fst (w_now (cl_world cl) e); tm = timing (po_spec obj)
      in \<not> shouldSkipByCooldown (Some p) (cooldown tm) now \<and>
         stabilizationAllows (Some p) (hash res) (stabilization_window tm) now)"

lemma willing_support:
  assumes "willing cl pods ms" "ready pr" "vs_prober v = Some pr"
  shows "cap_state (fst (query_support cfg cl obj v)) = SupportSupported"
    and "\<exists>pr'. vs_prober (snd (query_support cfg cl obj v)) = Some pr' \<and> has_clientset pr'"
proof -
  obtain rs r where rs: "\<And>e. fst (cl_discover cl e) = Inr rs" "find (\<lambda>r. res_name r = ''pods/resize'') rs = Some r"
    "''update'' \<in> set (res_verbs r)"
    using assms(1) unfolding willing_def by blast
  have sup: "cap_state (fst (Supported ttl now (Inr rs) pr)) = SupportSupported" for ttl now
    using rs(2,3) assms(2) by (auto simp: supported_iff ready_def cap_fresh_def)
  have client: "has_clientset (snd (Supported ttl now d pr))" for ttl now d
    using assms(2) by (simp add: Supported_def ready_def Let_def)
  obtain now e1 where now: "w_now (cl_world cl) (vs_env v) = (now, e1)" by force
  obtain cap pr' e2 where ask: "ask_prober cl (lim_cap_ttl (run_limits_of cfg (timing (po_spec obj)))) now pr e1 = (cap, pr', e2)"
    using prod_cases3 by blast
  have "cap_state cap = SupportSupported" "has_clientset pr'"
    using ask_prober_cap [OF ask] sup client unfolding rs(1) by (metis fst_conv snd_conv)+
  then show "cap_state (fst (query_support cfg cl obj v)) = SupportSupported"
    "\<exists>pr'. vs_prober (snd (query_support cfg cl obj v)) = Some pr' \<and> has_clientset pr'"
    using assms(3) now ask by (simp_all add: query_support_def)
qed

lemma select_pods_keeps:
  assumes "select_pods cfg w sel cd pods e = (sn, e')" "p \<in> set pods" "Match (rq_regexps cfg) sel (pod_namespace p)"
    and "isEligiblePod (Some p)" "\<And>e. \<not> shouldSkipByCooldown (Some p) cd (fst (w_now w e))"
  shows "p \<in> set (sn_candidates sn)"
  using assms(1,2)
proof (induction pods arbitrary: sn e' rule: rev_induct)
  case (snoc q pods)
  obtain sn0 e0 where before: "select_pods cfg w sel cd pods e = (sn0, e0)" by force
  then have step: "select_pod cfg w sel cd q (sn0, e0) = (sn, e')"
    using snoc.prems by (simp add: select_pods_def)
  show ?case
  proof (cases "q = p")
    case True
    with step assms(3,4) assms(5) [of e0] show ?thesis
      by (auto simp: select_pod_def Let_def split: prod.splits if_splits)
  next
    case False
    with snoc.IH [OF before] snoc.prems(2) step show ?thesis
      by (auto simp: select_pod_def Let_def split: prod.splits if_splits)
  qed
qed simp

lemma subseq_sum_list:
  assumes "subseq xs ys" "\<And>y. 0 \<le> (f y :: int)"
  shows "(\<Sum>x\<leftarrow>xs. f x) \<le> (\<Sum>y\<leftarrow>ys. f y)"
  using assms(1)
proof (induction rule: list_emb.induct)
  case (list_emb_Nil ys)
  have "\<And>x. x \<in> set (map f ys) \<Longrightarrow> 0 \<le> x" using assms(2) by auto
  then show ?case by (simp only: list.map sum_list.Nil sum_list_nonneg)
qed (use assms(2) in \<open>simp_all add: add_increasing\<close>)

lemma select_pods_subseq:
  assumes "select_pods cfg w sel cd pods e = (sn, e')"
  shows "subseq (sn_candidates sn) (selected_pods cfg sel pods)"
proof -
  let ?P = "\<lambda>p. Match (rq_regexps cfg) sel (pod_namespace p) \<and> isEligiblePod (Some p)"
  have "subseq (filter ?P (sn_candidates sn)) (selected_pods cfg sel pods)"
    unfolding selected_pods_def using select_pods_facts [OF assms] by (intro subseq_filter) simp
  moreover have "filter ?P (sn_candidates sn) = sn_candidates sn"
    using select_pods_facts [OF assms] by (simp add: filter_id_conv)
  ultimately show ?thesis by simp
qed

text \<open>What is enough for the selected pods covers the candidates.\<close>

lemma enough_covers:
  assumes "enough cfg obj ms chosen" "limit_of amt mx" "subseq cands chosen"
  shows "covers amt mx (newBudgetManager (rq_quantities cfg) (timing (po_spec obj)))
    (\<Sum>p\<leftarrow>cands. part 1 amt (target cfg obj ms p)) (\<Sum>p\<leftarrow>cands. part (-1) amt (target cfg obj ms p))"
proof -
  have "covers amt mx (newBudgetManager (rq_quantities cfg) (timing (po_spec obj)))
    (\<Sum>p\<leftarrow>chosen. part 1 amt (target cfg obj ms p)) (\<Sum>p\<leftarrow>chosen. part (-1) amt (target cfg obj ms p))"
    using assms(1,2) by (auto simp: enough_def limit_of_def Let_def)
  then show ?thesis
    by (rule covers_less) (rule subseq_sum_list [OF assms(3)], simp)+
qed

lemma willing_admitted:
  assumes "runnable cfg obj" "ready pr" "willing cl pods ms"
  shows "\<exists>ad. admit cfg cl obj (first_visit obj (Some pr) e) = Inr ad"
proof -
  have "vs_prober (setCond cfg cl obj ty s r m (first_visit obj (Some pr) e)) = Some pr" for ty s r m
    by (simp add: first_visit_def)
  then show ?thesis
    unfolding admit_iff using assms(1) by (simp add: willing_support(1) [OF assms(3,2)])
qed

lemma willing_metrics:
  assumes "willing cl pods ms" "collect_metrics cfg cl obj sel li = (ans, u)" "\<not> ls_failed li"
    and "sn_candidates (ls_selection li) \<noteq> []"
  shows "ans = MetricsListed (metrics_map ms)" "vs_prober u = vs_prober (ls_visit li)"
  using assms
  by (auto simp: collect_metrics_def ListPodMetrics_def willing_def Let_def split: prod.splits sum.splits if_splits)
    (metis fst_conv sum.inject(2) Inl_Inr_False)+

text \<open>The run of an admitted policy finds nothing in the way.\<close>

lemma willing_prepared:
  assumes "willing cl pods ms" "ready pr" "rq_recorder cfg"
    and "admit cfg cl obj (first_visit obj (Some pr) e2) = Inr ad" "prepare cfg cl obj ad = (li, ctx, st0)"
    and "p \<in> set (selected_pods cfg (ad_namespaces ad) pods)" "warranted cfg cl obj ms p res"
    and "enough cfg obj ms (selected_pods cfg (ad_namespaces ad) pods)"
  shows "open_way ctx" "at_ease st0" "\<not> rs_stop_all st0" "length (sn_candidates (ls_selection li)) \<le> rs_slots st0"
    and "limit_of amt mx \<Longrightarrow> covers amt mx (rs_budget st0)
      (\<Sum>p\<leftarrow>sn_candidates (ls_selection li). part 1 amt (target_of ctx p))
      (\<Sum>p\<leftarrow>sn_candidates (ls_selection li). part (-1) amt (target_of ctx p))"
    and "p \<in> set (sn_candidates (ls_selection li))" "wanted ctx p res" "always_stable ctx p res"
    and "rc_q ctx = rq_quantities cfg"
proof -
  let ?tm = "timing (po_spec obj)"
  let ?chosen = "selected_pods cfg (ad_namespaces ad) pods"
  obtain ans u where pre: "li = list_candidates cfg cl obj ad" "collect_metrics cfg cl obj (ad_pods ad) li = (ans, u)"
    "ctx = run_context cfg cl obj (ad_cap ad) ans"
    "st0 = start_run (rq_quantities cfg) ?tm (lim_max_pods (run_limits_of cfg ?tm)) (ls_failed li) u"
    using prepareE [OF assms(5)] by metis
  obtain e3 where l: "cl_list_pods cl (ad_pods ad) (vs_env (ad_visit ad)) = ((None, pods), e3)"
    using assms(1) by (metis willing_def surj_pair fst_conv)
  obtain sn e4 where sn: "select_pods cfg (cl_world cl) (ad_namespaces ad) (cooldown ?tm) pods e3 = (sn, e4)"
    by force
  note li = listing_fields [OF pre(1) [symmetric] l sn]
  have sub: "subseq (sn_candidates (ls_selection li)) ?chosen"
    unfolding li(4) by (rule select_pods_subseq [OF sn])
  show cand: "p \<in> set (sn_candidates (ls_selection li))"
    unfolding li(4) using assms(6,7)
    by (intro select_pods_keeps [OF sn]) (simp_all add: selected_pods_def warranted_def Let_def)
  note ans = willing_metrics [OF assms(1) pre(2)]
  have ans: "ans = MetricsListed (metrics_map ms)" "vs_prober u = vs_prober (ls_visit li)"
    using ans li(1) cand by fastforce+
  let ?v = "setCond cfg cl obj conditionActive ConditionTrue ''Enabled'' ''policy is enabled'' (first_visit obj (Some pr) e2)"
  have "query_support cfg cl obj ?v = (ad_cap ad, ad_visit ad)"
    using assms(4) unfolding admit_Inr check_splits by auto
  with willing_support [OF assms(1,2), of ?v cfg obj]
  have support: "cap_state (ad_cap ad) = SupportSupported" "\<exists>pr'. vs_prober (ad_visit ad) = Some pr' \<and> has_clientset pr'"
    by (simp_all add: first_visit_def)
  have ctx: "rc_q ctx = rq_quantities cfg" "rc_world ctx = cl_world cl" "rc_spec ctx = po_spec obj" "rc_cap ctx = ad_cap ad"
    "rc_recorder ctx" "rc_metrics ctx = MetricsListed (metrics_map ms)"
    using assms(3) by (simp_all add: pre(3) ans(1) run_context_def)
  have tgt: "target_of ctx q = target cfg obj ms q" for q
    by (simp add: target_of_def target_def ctx getPodMetrics_def split: option.split)
  show "open_way ctx"
    using assms(1) support(1) by (simp add: open_way_def ctx willing_def)
  show "at_ease st0"
    using support(2) by (simp add: at_ease_def pre(4) start_run_def ans(2) li(6))
  show "\<not> rs_stop_all st0" by (simp add: pre(4) start_run_def li(1))
  have "length (sn_candidates (ls_selection li)) \<le> length ?chosen"
    using sub by (rule list_emb_length)
  moreover have "int (length ?chosen) \<le> lim_max_pods (run_limits_of cfg ?tm)"
    using assms(8) by (simp add: enough_def Let_def)
  ultimately show "length (sn_candidates (ls_selection li)) \<le> rs_slots st0"
    by (simp add: pre(4) start_run_def)
  show "covers amt mx (rs_budget st0) (\<Sum>p\<leftarrow>sn_candidates (ls_selection li). part 1 amt (target_of ctx p))
      (\<Sum>p\<leftarrow>sn_candidates (ls_selection li). part (-1) amt (target_of ctx p))" if "limit_of amt mx"
    using enough_covers [OF assms(8) that sub] by (simp add: tgt pre(4) start_run_def)
  show "wanted ctx p res"
    using assms(7) by (simp add: wanted_target tgt warranted_def)
  show "always_stable ctx p res"
    using assms(7) by (simp add: always_stable_def stable_def ctx warranted_def Let_def)
  show "rc_q ctx = rq_quantities cfg" by (rule ctx(1))
qed

text \<open>A run admits the policy, and its pool finds nothing in the way.\<close>

lemma run_resizes_warranted:
  assumes "reconcile cfg cl name (Some pr) e oc"
    and "cl_get_policy cl name (snd (w_now (cl_world cl) e)) = (Inr obj, e0)"
    and "runnable cfg obj" "rq_recorder cfg" "ready pr" "willing cl pods ms"
    and "Compile (rq_regexps cfg) (match_type (ns_selector (po_spec obj))) (sel_include (ns_selector (po_spec obj)))
      (sel_exclude (ns_selector (po_spec obj))) = Inr sel"
    and "enough cfg obj ms (selected_pods cfg sel pods)"
    and "p \<in> set (selected_pods cfg sel pods)" "warranted cfg cl obj ms p res"
  shows "resized_event (rq_quantities cfg) p (res_delta res) \<in> set (oc_events oc)"
  using assms(1)
proof cases
  case (early started e1 obj' e2 v)
  with willing_admitted [OF assms(3,5,6), of e2] assms(2) show ?thesis by auto
next
  case (ran started e1 obj' e2 ad li ctx st0 st aggs real unix sm v)
  have obj: "obj' = obj" using assms(2) ran(2,3) by simp
  have sel: "ad_namespaces ad = sel" using admit_fields(1) [OF ran(4)] assms(7) obj by simp
  note way = willing_prepared [OF assms(6,5,4) ran(4) [unfolded obj] ran(5) [unfolded obj] assms(9) [folded sel]
    assms(10) assms(8) [folded sel]]
  let ?cands = "sn_candidates (ls_selection li)"
  have "0 < run_workers cfg obj"
    by (simp add: run_workers_def concurrent_pods_def run_limits_of_def or_default_def Let_def)
  moreover have "?cands \<noteq> []" using way(6) by auto
  ultimately obtain n s where pool: "pool_steps ctx n (start_pool ?cands (nat (run_workers cfg obj)) st0) s" "pool_done s"
    "pl_shared s = st"
    using ran(6) way(3) by (auto simp: pool_outcome_def obj)
  have "resized_event (rc_q ctx) p (res_delta res) \<in> set (rs_events st)"
    using pool_resizes [OF pool(1,2) way(1,2,4-8)] pool(3) by simp
  moreover have "oc_events oc = rs_events st"
    using ran(1,8) by (auto simp: leave_def finish_run_def visit_of_def Let_def split: prod.splits)
  ultimately show ?thesis by (simp add: way(9))
qed (use assms(2) in simp_all)

text \<open>What a run is to do, as a set: the resizes of the selected pods that have a target.\<close>

definition due_resizes ::
  "('q, 'l, 's, 'r) reconciler \<Rightarrow> ('q, 'l) policy_object \<Rightarrow> 'r selector \<Rightarrow> 'q pod list \<Rightarrow> 'q pod_metrics list \<Rightarrow> event set" where
  "due_resizes cfg obj sel pods ms =
     {resized_event (rq_quantities cfg) p (res_delta res) | p res.
        p \<in> set (selected_pods cfg sel pods) \<and> target cfg obj ms p = Some res}"

text \<open>Conversely, a run resizes nothing but selected pods that have a target.\<close>

lemma run_only_targets:
  assumes "reconcile cfg cl name (Some pr) e oc"
    and "cl_get_policy cl name (snd (w_now (cl_world cl) e)) = (Inr obj, e0)"
    and "runnable cfg obj" "rq_recorder cfg" "ready pr" "willing cl pods ms"
    and "Compile (rq_regexps cfg) (match_type (ns_selector (po_spec obj))) (sel_include (ns_selector (po_spec obj)))
      (sel_exclude (ns_selector (po_spec obj))) = Inr sel"
  shows "set (oc_events oc) \<subseteq> due_resizes cfg obj sel pods ms"
  using assms(1)
proof cases
  case (early started e1 obj' e2 v)
  with willing_admitted [OF assms(3,5,6), of e2] assms(2) show ?thesis by auto
next
  case (ran started e1 obj' e2 ad li ctx st0 st aggs real unix sm v)
  have obj: "obj' = obj" using assms(2) ran(2,3) by simp
  have sel: "ad_namespaces ad = sel" using admit_fields(1) [OF ran(4)] assms(7) obj by simp
  let ?cands = "sn_candidates (ls_selection li)"
  obtain ans u where pre: "li = list_candidates cfg cl obj ad" "collect_metrics cfg cl obj (ad_pods ad) li = (ans, u)"
    "ctx = run_context cfg cl obj (ad_cap ad) ans"
    using prepareE [OF ran(5)] obj by metis
  obtain e3 where l: "cl_list_pods cl (ad_pods ad) (vs_env (ad_visit ad)) = ((None, pods), e3)"
    using assms(6) by (metis willing_def surj_pair fst_conv)
  obtain sn e4 where sn: "select_pods cfg (cl_world cl) (ad_namespaces ad) (cooldown (timing (po_spec obj))) pods e3 = (sn, e4)"
    by force
  note li = listing_fields [OF pre(1) [symmetric] l sn]
  have chosen: "set ?cands \<subseteq> set (selected_pods cfg sel pods)"
    using select_pods_subseq [OF sn] by (auto simp: li(4) sel elim: list_emb_set)
  have tgt: "target_of ctx p = target cfg obj ms p" if "?cands \<noteq> []" for p
    using willing_metrics [OF assms(6) pre(2)] that li(1)
    by (simp add: target_of_def target_def pre(3) run_context_def getPodMetrics_def split: option.split)
  note start = prepare_reports(1) [OF ran(5) ran(4)]
  have "only_targets ctx ?cands st"
    using ran(6)
  proof (cases rule: pool_outcomeE)
    case idle
    with start show ?thesis by (simp add: only_targets_def)
  next
    case (pool n s)
    with pool_only_targets [OF pool(1) start] show ?thesis by simp
  qed
  moreover have "oc_events oc = rs_events st"
    using ran(1,8) by (auto simp: leave_def finish_run_def visit_of_def Let_def split: prod.splits)
  moreover have "rc_q ctx = rq_quantities cfg" by (simp add: pre(3) run_context_def)
  ultimately show ?thesis
    using chosen tgt by (fastforce simp: only_targets_def due_resizes_def)
qed (use assms(2) in \<open>simp_all add: nothing_done_def\<close>)

text \<open>
  C4. A pod that is to be resized is resized: when the policy can run, the cluster answers every
  call with success, and there are slots and budget for all selected pods, then every run of
  the handler, whatever the number of its workers and their order, records the resize of every
  selected pod whose target differs from what it has and is stable, with that target's delta.
\<close>

theorem warranted_pod_is_resized:
  assumes "reconcile cfg cl name (Some pr) e oc"
    and "cl_get_policy cl name (snd (w_now (cl_world cl) e)) = (Inr obj, e0)"
    and "runnable cfg obj" "rq_recorder cfg" "ready pr" "willing cl pods ms"
    and "Compile (rq_regexps cfg) (match_type (ns_selector (po_spec obj))) (sel_include (ns_selector (po_spec obj)))
      (sel_exclude (ns_selector (po_spec obj))) = Inr sel"
    and "enough cfg obj ms (selected_pods cfg sel pods)"
    and "p \<in> set (selected_pods cfg sel pods)" "warranted cfg cl obj ms p res"
  shows "resized_event (rq_quantities cfg) p (res_delta res) \<in> set (oc_events oc)"
  using assms by (rule run_resizes_warranted)


section \<open>Witnesses\<close>

text \<open>One pod with metrics, one worker, and a limit of 100m for an increase of 50m.\<close>

definition ex_sel :: "string selector" where
  "ex_sel = \<lparr>sel_match_type = ''Glob'', include_ms = [GlobMatcher ''*''], exclude_ms = []\<rparr>"

definition ex_listed_metrics :: "int pod_metrics list" where
  "ex_listed_metrics = [ex_metrics (milli 101) (mebi 200)]"

lemma ex_target: "target ex_cfg ex_policy ex_listed_metrics ex_candidate = Some ex_result"
proof -
  have "metrics_map ex_listed_metrics (''ns'', ''p'') = Some (ex_metrics (milli 101) (mebi 200))"
    by (simp add: ex_listed_metrics_def metrics_map_def ex_metrics_def)
  then show ?thesis by (simp add: target_def ex_run_compute nonzero_delta)
qed

lemma ex_selected: "selected_pods ex_cfg ex_sel [ex_candidate] = [ex_candidate]"
proof -
  have "Match ex_regexp ex_sel ''ns''" "isEligiblePod (Some ex_candidate)"
    by code_simp (simp add: isEligiblePod_def ex_candidate_def ex_pod_def)
  then show ?thesis by (simp add: selected_pods_def)
qed

lemma ex_enough: "enough ex_cfg ex_policy ex_listed_metrics (selected_pods ex_cfg ex_sel [ex_candidate])"
proof -
  have "lim_max_pods (run_limits_of ex_cfg (timing ex_run_spec)) = 20"
    by (simp add: run_limits_of_def or_default_def)
  moreover have "timing ex_run_spec = ex_run_timing" by (simp add: ex_run_spec_def)
  ultimately show ?thesis
    by (simp add: enough_def ex_selected ex_target part_def covers_def ex_budget budget_outstanding_def zero_delta_def i64_small)
qed

lemma ex_warranted: "warranted ex_cfg ex_cluster ex_policy ex_listed_metrics ex_candidate ex_result"
  by (simp add: warranted_def ex_target shouldSkipByCooldown_def stabilizationAllows_def) (simp add: ex_candidate_def ex_pod_def)

lemma ex_willing: "willing ex_cluster [ex_candidate] ex_listed_metrics" "ready ex_prober"
  "Compile ex_regexp ''Glob'' [''*''] [] = Inr ex_sel"
  by (simp_all add: ex_cluster_def willing_def ex_listed_metrics_def ready_def ex_prober_def NewProber_def time_is_zero_def
      ex_compile ex_sel_def)

theorem warranted_pod_is_resized_witness:
  "\<exists>oc. reconcile ex_cfg ex_cluster ''p'' (Some ex_prober) 0 oc \<and>
     resized_event nano_ops ex_candidate (res_delta ex_result) \<in> set (oc_events oc)"
proof -
  obtain oc where oc: "reconcile ex_cfg ex_cluster ''p'' (Some ex_prober) 0 oc" using ex_ran by blast
  have "resized_event (rq_quantities ex_cfg) ex_candidate (res_delta ex_result) \<in> set (oc_events oc)"
    by (rule warranted_pod_is_resized [OF oc ex_got ex_runnable _ ex_willing(2,1) _ ex_enough _ ex_warranted])
      (simp_all add: ex_willing(3) ex_selected)
  with oc show ?thesis by auto
qed


end
