(* ===== verification/HeapCopy.thy ===== *)
theory HeapCopy
  imports Prelude
begin

text \<open>
  Deep copies on an explicit heap. Elsewhere in this library a value is a value; here
  pointers and slices are addresses, so that it can be said that a copy shares nothing with
  its original. The locale \<open>deep_copy\<close> says what a deep copy is and what follows of it; the
  lemmas show it of pointers, slices and structs whose parts are deep copies.
\<close>

section \<open>The heap\<close>

type_synonym addr = nat

record 'c heap =
  next_addr :: addr
  cell :: "addr \<Rightarrow> 'c"

definition alloc :: "'c \<Rightarrow> 'c heap \<Rightarrow> addr \<times> 'c heap" where
  "alloc c h = (next_addr h, h\<lparr>next_addr := Suc (next_addr h), cell := (cell h)(next_addr h := c)\<rparr>)"

definition write_cell :: "addr \<times> 'c \<Rightarrow> 'c heap \<Rightarrow> 'c heap" where
  "write_cell w h = h\<lparr>cell := (cell h)(fst w := snd w)\<rparr>"

definition extends :: "'c heap \<Rightarrow> 'c heap \<Rightarrow> bool" where
  "extends h h' \<longleftrightarrow> next_addr h \<le> next_addr h' \<and> (\<forall>a < next_addr h. cell h' a = cell h a)"

lemma extends_refl [simp]: "extends h h"
  by (simp add: extends_def)

lemma extends_trans: "extends h h1 \<Longrightarrow> extends h1 h2 \<Longrightarrow> extends h h2"
  by (simp add: extends_def)

section \<open>What a deep copy is\<close>

text \<open>
  \<open>into\<close> copies, \<open>view\<close> is what can be read through a value and \<open>ptrs\<close> are the addresses
  reached. A copy reads the same, reaches only new addresses, and leaves the old ones as
  they are.
\<close>

locale deep_copy =
  fixes into :: "'x \<Rightarrow> 'c heap \<Rightarrow> 'x \<times> 'c heap"
    and view :: "'c heap \<Rightarrow> 'x \<Rightarrow> 'v"
    and ptrs :: "'c heap \<Rightarrow> 'x \<Rightarrow> addr set"
  assumes copies: "ptrs h x \<subseteq> {..<next_addr h} \<Longrightarrow> into x h = (x', h') \<Longrightarrow>
      extends h h' \<and> view h' x' = view h x \<and> ptrs h' x' \<subseteq> {next_addr h..<next_addr h'}"
    and reached: "(\<And>a. a \<in> ptrs h x \<Longrightarrow> cell h' a = cell h a) \<Longrightarrow> view h' x = view h x \<and> ptrs h' x = ptrs h x"
begin

lemma extended: "ptrs h x \<subseteq> {..<next_addr h} \<Longrightarrow> extends h h' \<Longrightarrow> view h' x = view h x \<and> ptrs h' x = ptrs h x"
  by (rule reached) (auto simp: extends_def)

text \<open>Writes to other addresses do not show.\<close>

lemma writes_unseen:
  assumes "fst ` set ws \<inter> ptrs h x = {}"
  shows "view (fold write_cell ws h) x = view h x"
proof -
  have "cell (fold write_cell ws h) a = cell h a" if "a \<notin> fst ` set ws" for a
    using that by (induction ws arbitrary: h) (auto simp: write_cell_def)
  with assms show ?thesis using reached [of h x "fold write_cell ws h"] by blast
qed

text \<open>
  A copy and its original are isolated: writes through the one, or to what is allocated
  later, are not seen through the other.
\<close>

lemma isolated:
  assumes "ptrs h x \<subseteq> {..<next_addr h}" "into x h = (x', h')"
  shows "ptrs h' x' \<inter> ptrs h' x = {}"
    and "fst ` set ws \<subseteq> ptrs h' x \<union> {next_addr h'..} \<Longrightarrow> view (fold write_cell ws h') x' = view h x"
    and "fst ` set ws \<subseteq> ptrs h' x' \<union> {next_addr h'..} \<Longrightarrow> view (fold write_cell ws h') x = view h x"
proof -
  note c = copies [OF assms]
  note e = extended [OF assms(1) conjunct1 [OF c]]
  have old: "ptrs h' x \<subseteq> {..<next_addr h}" using e assms(1) by simp
  with c show "ptrs h' x' \<inter> ptrs h' x = {}" by fastforce
  show "view (fold write_cell ws h') x' = view h x" if "fst ` set ws \<subseteq> ptrs h' x \<union> {next_addr h'..}"
    using writes_unseen [of ws h' x'] c old that by fastforce
  show "view (fold write_cell ws h') x = view h x" if "fst ` set ws \<subseteq> ptrs h' x' \<union> {next_addr h'..}"
  proof -
    have "fst ` set ws \<inter> ptrs h' x = {}"
      using c old that by (fastforce simp: extends_def)
    then show ?thesis using writes_unseen [of ws h' x] e by simp
  qed
qed

end

section \<open>Building deep copies\<close>

text \<open>A value without pointers.\<close>

definition copy_value :: "'x \<Rightarrow> 'c heap \<Rightarrow> 'x \<times> 'c heap" where
  "copy_value x h = (x, h)"

definition value_view :: "'c heap \<Rightarrow> 'x \<Rightarrow> 'x" where "value_view h x = x"

definition value_ptrs :: "'c heap \<Rightarrow> 'x \<Rightarrow> addr set" where "value_ptrs h x = {}"

interpretation value_copy: deep_copy copy_value value_view value_ptrs
  by unfold_locales (auto simp: copy_value_def value_view_def value_ptrs_def)

text \<open>
  A pointer or a slice: \<open>nil\<close> stays; otherwise what is there is copied by \<open>f\<close> and put at a new
  address. \<open>box\<close> and \<open>unbox\<close> say what kind of cell it is.
\<close>

definition copy_ref ::
  "('x \<Rightarrow> 'c) \<Rightarrow> ('c \<Rightarrow> 'x) \<Rightarrow> ('x \<Rightarrow> 'c heap \<Rightarrow> 'x \<times> 'c heap) \<Rightarrow> addr option \<Rightarrow> 'c heap \<Rightarrow>
    addr option \<times> 'c heap" where
  "copy_ref box unbox f p h =
     (case p of
        None \<Rightarrow> (None, h)
      | Some a \<Rightarrow> (let (x, h1) = f (unbox (cell h a)) h; (b, h2) = alloc (box x) h1 in (Some b, h2)))"

definition ref_view :: "('c \<Rightarrow> 'x) \<Rightarrow> ('c heap \<Rightarrow> 'x \<Rightarrow> 'v) \<Rightarrow> 'c heap \<Rightarrow> addr option \<Rightarrow> 'v option" where
  "ref_view unbox v h p = map_option (\<lambda>a. v h (unbox (cell h a))) p"

definition ref_ptrs ::
  "('c \<Rightarrow> 'x) \<Rightarrow> ('c heap \<Rightarrow> 'x \<Rightarrow> addr set) \<Rightarrow> 'c heap \<Rightarrow> addr option \<Rightarrow> addr set" where
  "ref_ptrs unbox q h p = (case p of None \<Rightarrow> {} | Some a \<Rightarrow> insert a (q h (unbox (cell h a))))"

lemma deep_copy_ref:
  fixes f :: "'x \<Rightarrow> 'c heap \<Rightarrow> 'x \<times> 'c heap"
  assumes f: "deep_copy f v q" and unbox: "\<And>x. unbox (box x) = x"
  shows "deep_copy (copy_ref box unbox f) (ref_view unbox v) (ref_ptrs unbox q)"
proof
  fix h h' :: "'c heap" and p p'
  assume sub: "ref_ptrs unbox q h p \<subseteq> {..<next_addr h}" and run: "copy_ref box unbox f p h = (p', h')"
  show "extends h h' \<and> ref_view unbox v h' p' = ref_view unbox v h p \<and>
      ref_ptrs unbox q h' p' \<subseteq> {next_addr h..<next_addr h'}"
  proof (cases p)
    case None
    with run show ?thesis by (simp add: copy_ref_def ref_view_def ref_ptrs_def)
  next
    case (Some a)
    obtain x h1 where x: "f (unbox (cell h a)) h = (x, h1)" by force
    have h': "p' = Some (next_addr h1)" "next_addr h' = Suc (next_addr h1)" "cell h' (next_addr h1) = box x" "extends h1 h'"
      using run Some x by (auto simp: copy_ref_def alloc_def extends_def)
    have "q h (unbox (cell h a)) \<subseteq> {..<next_addr h}" using sub Some by (simp add: ref_ptrs_def)
    note c = deep_copy.copies [OF f this x]
    have "q h1 x \<subseteq> {..<next_addr h1}" using c by auto
    note e = deep_copy.extended [OF f this h'(4)]
    have le: "next_addr h \<le> next_addr h1" using c by (simp add: extends_def)
    have "ref_view unbox v h' p' = Some (v h (unbox (cell h a)))"
      using c e by (simp add: h'(1,3) ref_view_def unbox)
    moreover have "ref_ptrs unbox q h' p' = insert (next_addr h1) (q h1 x)"
      using e by (simp add: h'(1,3) ref_ptrs_def unbox)
    moreover have "q h1 x \<subseteq> {next_addr h..<next_addr h1}" using c by simp
    then have "insert (next_addr h1) (q h1 x) \<subseteq> {next_addr h..<next_addr h'}"
      using le unfolding h'(2) by auto
    moreover have "extends h h'" using c h'(4) extends_trans by blast
    ultimately show ?thesis by (simp add: Some ref_view_def)
  qed
next
  fix h h' :: "'c heap" and p
  assume same: "\<And>a. a \<in> ref_ptrs unbox q h p \<Longrightarrow> cell h' a = cell h a"
  show "ref_view unbox v h' p = ref_view unbox v h p \<and> ref_ptrs unbox q h' p = ref_ptrs unbox q h p"
  proof (cases p)
    case (Some a)
    have "cell h' a = cell h a" "\<And>b. b \<in> q h (unbox (cell h a)) \<Longrightarrow> cell h' b = cell h b"
      using same by (simp_all add: Some ref_ptrs_def)
    then show ?thesis
      using deep_copy.reached [OF f, of h "unbox (cell h a)" h'] by (simp add: Some ref_view_def ref_ptrs_def)
  qed (simp add: ref_view_def ref_ptrs_def)
qed

text \<open>One thing after the other: what the first copy made is still there after the second.\<close>

lemma copies_in_turn:
  assumes f: "deep_copy f vf pf"
    and g: "(\<And>a. a \<in> pg h y \<Longrightarrow> cell h1 a = cell h a) \<Longrightarrow> vg h1 y = vg h y \<and> pg h1 y = pg h y"
    and "pf h x \<subseteq> {..<next_addr h}" "pg h y \<subseteq> {..<next_addr h}"
    and c1: "extends h h1 \<and> vf h1 x' = vf h x \<and> pf h1 x' \<subseteq> {next_addr h..<next_addr h1}"
    and c2: "pg h1 y \<subseteq> {..<next_addr h1} \<Longrightarrow>
      extends h1 h2 \<and> vg h2 y' = vg h1 y \<and> pg h2 y' \<subseteq> {next_addr h1..<next_addr h2}"
  shows "extends h h2 \<and> vf h2 x' = vf h x \<and> vg h2 y' = vg h y \<and>
    pf h2 x' \<union> pg h2 y' \<subseteq> {next_addr h..<next_addr h2}"
proof -
  have le: "next_addr h \<le> next_addr h1" using c1 by (simp add: extends_def)
  have y1: "vg h1 y = vg h y \<and> pg h1 y = pg h y"
    using c1 assms(4) by (intro g) (auto simp: extends_def)
  have "pg h1 y \<subseteq> {..<next_addr h1}" using y1 assms(4) le by auto
  note c2 = c2 [OF this]
  have le': "next_addr h1 \<le> next_addr h2" using c2 by (simp add: extends_def)
  have "pf h1 x' \<subseteq> {..<next_addr h1}" using c1 by auto
  note x2 = deep_copy.extended [OF f this conjunct1 [OF c2]]
  show ?thesis using c1 c2 x2 y1 le le' extends_trans [of h h1 h2] by auto
qed

definition copy_pair ::
  "('x \<Rightarrow> 'c heap \<Rightarrow> 'x \<times> 'c heap) \<Rightarrow> ('y \<Rightarrow> 'c heap \<Rightarrow> 'y \<times> 'c heap) \<Rightarrow> 'x \<times> 'y \<Rightarrow> 'c heap \<Rightarrow>
    ('x \<times> 'y) \<times> 'c heap" where
  "copy_pair f g z h = (let (x, h1) = f (fst z) h; (y, h2) = g (snd z) h1 in ((x, y), h2))"

definition pair_view ::
  "('c heap \<Rightarrow> 'x \<Rightarrow> 'v) \<Rightarrow> ('c heap \<Rightarrow> 'y \<Rightarrow> 'w) \<Rightarrow> 'c heap \<Rightarrow> 'x \<times> 'y \<Rightarrow> 'v \<times> 'w" where
  "pair_view v w h z = (v h (fst z), w h (snd z))"

definition pair_ptrs ::
  "('c heap \<Rightarrow> 'x \<Rightarrow> addr set) \<Rightarrow> ('c heap \<Rightarrow> 'y \<Rightarrow> addr set) \<Rightarrow> 'c heap \<Rightarrow> 'x \<times> 'y \<Rightarrow> addr set" where
  "pair_ptrs p q h z = p h (fst z) \<union> q h (snd z)"

lemma deep_copy_pair:
  fixes f :: "'x \<Rightarrow> 'c heap \<Rightarrow> 'x \<times> 'c heap" and g :: "'y \<Rightarrow> 'c heap \<Rightarrow> 'y \<times> 'c heap"
  assumes f: "deep_copy f vf pf" and g: "deep_copy g vg pg"
  shows "deep_copy (copy_pair f g) (pair_view vf vg) (pair_ptrs pf pg)"
proof
  fix h h' :: "'c heap" and z z'
  assume sub: "pair_ptrs pf pg h z \<subseteq> {..<next_addr h}" and run: "copy_pair f g z h = (z', h')"
  obtain x' h1 where x: "f (fst z) h = (x', h1)" by force
  obtain y' where y: "g (snd z) h1 = (y', h')" "z' = (x', y')"
    using run x by (auto simp: copy_pair_def split: prod.splits)
  have "pf h (fst z) \<subseteq> {..<next_addr h}" "pg h (snd z) \<subseteq> {..<next_addr h}"
    using sub by (auto simp: pair_ptrs_def)
  from copies_in_turn [OF f deep_copy.reached [OF g] this deep_copy.copies [OF f this(1) x] deep_copy.copies [OF g _ y(1)]]
  show "extends h h' \<and> pair_view vf vg h' z' = pair_view vf vg h z \<and>
      pair_ptrs pf pg h' z' \<subseteq> {next_addr h..<next_addr h'}"
    by (simp add: pair_view_def pair_ptrs_def y(2))
next
  fix h h' :: "'c heap" and z
  assume "\<And>a. a \<in> pair_ptrs pf pg h z \<Longrightarrow> cell h' a = cell h a"
  then show "pair_view vf vg h' z = pair_view vf vg h z \<and> pair_ptrs pf pg h' z = pair_ptrs pf pg h z"
    using deep_copy.reached [OF f, of h "fst z" h'] deep_copy.reached [OF g, of h "snd z" h']
    by (simp add: pair_view_def pair_ptrs_def)
qed

text \<open>The loop over the elements of a slice.\<close>

primrec copy_all :: "('x \<Rightarrow> 'c heap \<Rightarrow> 'x \<times> 'c heap) \<Rightarrow> 'x list \<Rightarrow> 'c heap \<Rightarrow> 'x list \<times> 'c heap" where
  "copy_all f [] h = ([], h)"
| "copy_all f (x # xs) h = (let (x', h1) = f x h; (xs', h2) = copy_all f xs h1 in (x' # xs', h2))"

definition all_view :: "('c heap \<Rightarrow> 'x \<Rightarrow> 'v) \<Rightarrow> 'c heap \<Rightarrow> 'x list \<Rightarrow> 'v list" where
  "all_view v h xs = map (v h) xs"

definition all_ptrs :: "('c heap \<Rightarrow> 'x \<Rightarrow> addr set) \<Rightarrow> 'c heap \<Rightarrow> 'x list \<Rightarrow> addr set" where
  "all_ptrs p h xs = (\<Union>x \<in> set xs. p h x)"

lemma deep_copy_all:
  fixes f :: "'x \<Rightarrow> 'c heap \<Rightarrow> 'x \<times> 'c heap"
  assumes f: "deep_copy f v p"
  shows "deep_copy (copy_all f) (all_view v) (all_ptrs p)"
proof
  have reached: "all_view v h' xs = all_view v h xs \<and> all_ptrs p h' xs = all_ptrs p h xs"
    if "\<And>a. a \<in> all_ptrs p h xs \<Longrightarrow> cell h' a = cell h a" for h h' :: "'c heap" and xs
  proof -
    have "v h' x = v h x \<and> p h' x = p h x" if "x \<in> set xs" for x
      using deep_copy.reached [OF f, of h x h'] that \<open>\<And>a. a \<in> all_ptrs p h xs \<Longrightarrow> cell h' a = cell h a\<close>
      by (auto simp: all_ptrs_def)
    then show ?thesis by (simp add: all_view_def all_ptrs_def)
  qed
  show "all_view v h' xs = all_view v h xs \<and> all_ptrs p h' xs = all_ptrs p h xs"
    if "\<And>a. a \<in> all_ptrs p h xs \<Longrightarrow> cell h' a = cell h a" for h h' :: "'c heap" and xs
    using that by (rule reached)
  show "extends h h' \<and> all_view v h' xs' = all_view v h xs \<and> all_ptrs p h' xs' \<subseteq> {next_addr h..<next_addr h'}"
    if "all_ptrs p h xs \<subseteq> {..<next_addr h}" "copy_all f xs h = (xs', h')" for h h' :: "'c heap" and xs xs'
    using that
  proof (induction xs arbitrary: h xs')
    case Nil
    then show ?case by (simp add: all_ptrs_def all_view_def)
  next
    case (Cons x xs)
    obtain x' h1 where x: "f x h = (x', h1)" by force
    obtain ys where ys: "copy_all f xs h1 = (ys, h')" "xs' = x' # ys"
      using Cons.prems(2) x by (auto split: prod.splits)
    have "p h x \<subseteq> {..<next_addr h}" "all_ptrs p h xs \<subseteq> {..<next_addr h}"
      using Cons.prems(1) by (auto simp: all_ptrs_def)
    from copies_in_turn [OF f reached this deep_copy.copies [OF f this(1) x] Cons.IH [OF _ ys(1)]]
    show ?case by (simp add: all_view_def all_ptrs_def ys(2))
  qed
qed

text \<open>A \<open>DeepCopy\<close> around a \<open>DeepCopyInto\<close>.\<close>

definition DeepCopy :: "('x \<Rightarrow> 'c heap \<Rightarrow> 'x \<times> 'c heap) \<Rightarrow> 'x option \<Rightarrow> 'c heap \<Rightarrow> 'x option \<times> 'c heap" where
  "DeepCopy into p h =
     (case p of None \<Rightarrow> (None, h) | Some x \<Rightarrow> (let (out, h1) = into x h in (Some out, h1)))"

text \<open>
  A struct: \<open>get\<close> are the parts that hold pointers, \<open>put\<close> replaces them, and \<open>mk\<close> makes what can
  be read of the struct from what can be read of the parts.
\<close>

lemma deep_copy_struct:
  fixes f :: "'x \<Rightarrow> 'c heap \<Rightarrow> 'x \<times> 'c heap" and into :: "'y \<Rightarrow> 'c heap \<Rightarrow> 'y \<times> 'c heap"
  assumes f: "deep_copy f v p"
    and into: "\<And>y h. into y h = (let (x, h1) = f (get y) h in (put x y, h1))"
    and get: "\<And>x y. get (put x y) = x"
    and view: "\<And>h y. view h y = mk (v h (get y)) y" and mk: "\<And>w x y. mk w (put x y) = mk w y"
    and ptrs: "\<And>h y. ptrs h y = p h (get y)"
  shows "deep_copy into view ptrs"
proof
  fix h h' :: "'c heap" and y y'
  assume sub: "ptrs h y \<subseteq> {..<next_addr h}" and run: "into y h = (y', h')"
  obtain x where x: "f (get y) h = (x, h')" "y' = put x y"
    using run into by (auto split: prod.splits)
  show "extends h h' \<and> view h' y' = view h y \<and> ptrs h' y' \<subseteq> {next_addr h..<next_addr h'}"
    using deep_copy.copies [OF f _ x(1)] sub by (simp add: x(2) get view mk ptrs)
next
  fix h h' :: "'c heap" and y
  assume "\<And>a. a \<in> ptrs h y \<Longrightarrow> cell h' a = cell h a"
  then show "view h' y = view h y \<and> ptrs h' y = ptrs h y"
    using deep_copy.reached [OF f, of h "get y" h'] by (simp add: view ptrs)
qed

end
