(* ===== verification/DeepCopy.thy ===== *)
theory DeepCopy
  imports HeapCopy Reconcile
begin

text \<open>
  The deep copies of \<open>api/v1alpha1/zz_generated.deepcopy.go\<close>. \<open>Reconcile\<close> needs them: it keeps a
  copy of the policy as the base of the patch of the status and then changes conditions in
  place.

  The types of \<open>ApiTypes\<close> appear here as they are in memory (\<open>h_spec\<close>, \<open>h_status\<close>, \<open>h_policy\<close>), with
  addresses for pointers and slices; \<open>bounds_spec\<close> and \<open>timing_spec\<close> are the same records over
  addresses. The views (\<open>policy_view\<close> and its parts) read the values of \<open>ApiTypes\<close> from a heap. A
  \<open>DeepCopyInto\<close> gives what it writes to \<open>out\<close>; like the code it starts from \<open>*in\<close> and then replaces
  what holds pointers. A receiver is the struct it points to, \<open>None\<close> for \<open>nil\<close>. An address is
  taken when its contents are known; the code sometimes takes it before.

  \<open>Quantity\<close>, \<open>LabelSelector\<close>, \<open>ObjectMeta\<close> and \<open>ListMeta\<close> are types of the Kubernetes libraries
  that hold pointers of their own (\<open>OtherCell\<close>). Their copies are the parameter \<open>copiers\<close>, and
  the theorem relies on each being a \<open>deep_copy\<close>. \<open>Condition\<close> and \<open>Time\<close> hold none.
\<close>

section \<open>The types in memory\<close>

record h_namespace_selector =
  h_match_type :: string
  h_include :: "addr option"
  h_exclude :: "addr option"

record h_spec =
  h_enabled :: bool
  h_ns_selector :: h_namespace_selector
  h_pod_selector :: "addr option"
  h_resources :: managed_resources_spec
  h_algorithm :: algorithm_spec
  h_bounds :: "addr bounds_spec"
  h_thresholds :: thresholds_spec
  h_timing :: "addr timing_spec"

record h_status =
  h_conditions :: "addr option"
  h_observed_generation :: int
  h_last_run :: "addr option"
  h_last_cap_check :: "addr option"

record 'm h_policy =
  h_type_meta :: "string \<times> string"
  h_meta :: 'm
  h_spec_of :: h_spec
  h_status_of :: h_status

record 'k h_policy_list =
  hl_type_meta :: "string \<times> string"
  hl_meta :: 'k
  hl_items :: "addr option"

datatype ('q, 'l, 'm, 'x) cell =
    QuantityCell (quantity_of: 'q)
  | SelectorCell (selector_of: 'l)
  | StringsCell (strings_of: "string list")
  | ConditionsCell (conditions_of: "condition list")
  | TimeCell (time_of: time)
  | ItemsCell (items_of: "'m h_policy list")
  | OtherCell (other_of: 'x)

text \<open>The copies of the Kubernetes libraries.\<close>

record ('q, 'l, 'm, 'k, 'x) copiers =
  Quantity_DeepCopy :: "'q \<Rightarrow> ('q, 'l, 'm, 'x) cell heap \<Rightarrow> 'q \<times> ('q, 'l, 'm, 'x) cell heap"
  LabelSelector_DeepCopyInto :: "'l \<Rightarrow> ('q, 'l, 'm, 'x) cell heap \<Rightarrow> 'l \<times> ('q, 'l, 'm, 'x) cell heap"
  ObjectMeta_DeepCopyInto :: "'m \<Rightarrow> ('q, 'l, 'm, 'x) cell heap \<Rightarrow> 'm \<times> ('q, 'l, 'm, 'x) cell heap"
  ListMeta_DeepCopyInto :: "'k \<Rightarrow> ('q, 'l, 'm, 'x) cell heap \<Rightarrow> 'k \<times> ('q, 'l, 'm, 'x) cell heap"

section \<open>The copies\<close>

definition copy_quantity ::
  "('q, 'l, 'm, 'k, 'x) copiers \<Rightarrow> addr option \<Rightarrow> ('q, 'l, 'm, 'x) cell heap \<Rightarrow>
    addr option \<times> ('q, 'l, 'm, 'x) cell heap" where
  "copy_quantity C = copy_ref QuantityCell quantity_of (Quantity_DeepCopy C)"

definition copy_strings ::
  "addr option \<Rightarrow> ('q, 'l, 'm, 'x) cell heap \<Rightarrow> addr option \<times> ('q, 'l, 'm, 'x) cell heap" where
  "copy_strings = copy_ref StringsCell strings_of copy_value"

definition copy_conditions ::
  "addr option \<Rightarrow> ('q, 'l, 'm, 'x) cell heap \<Rightarrow> addr option \<times> ('q, 'l, 'm, 'x) cell heap" where
  "copy_conditions = copy_ref ConditionsCell conditions_of (copy_all copy_value)"

definition copy_time ::
  "addr option \<Rightarrow> ('q, 'l, 'm, 'x) cell heap \<Rightarrow> addr option \<times> ('q, 'l, 'm, 'x) cell heap" where
  "copy_time = copy_ref TimeCell time_of copy_value"

definition AlgorithmSpec_DeepCopyInto :: "algorithm_spec \<Rightarrow> 'c heap \<Rightarrow> algorithm_spec \<times> 'c heap" where
  "AlgorithmSpec_DeepCopyInto = copy_value"

definition AlgorithmSpec_DeepCopy :: "algorithm_spec option \<Rightarrow> 'c heap \<Rightarrow> algorithm_spec option \<times> 'c heap" where
  "AlgorithmSpec_DeepCopy = DeepCopy AlgorithmSpec_DeepCopyInto"

definition BoundsSpec_DeepCopyInto ::
  "('q, 'l, 'm, 'k, 'x) copiers \<Rightarrow> addr bounds_spec \<Rightarrow> ('q, 'l, 'm, 'x) cell heap \<Rightarrow>
    addr bounds_spec \<times> ('q, 'l, 'm, 'x) cell heap" where
  "BoundsSpec_DeepCopyInto C b h =
     (let (out_cpu_min, h1) = copy_quantity C (cpu_min b) h;
          (out_cpu_max, h2) = copy_quantity C (cpu_max b) h1;
          (out_memory_min, h3) = copy_quantity C (memory_min b) h2;
          (out_memory_max, h4) = copy_quantity C (memory_max b) h3;
          (out_min_change_cpu, h5) = copy_quantity C (min_change_cpu b) h4;
          (out_min_change_memory, h6) = copy_quantity C (min_change_memory b) h5
      in (b\<lparr>cpu_min := out_cpu_min, cpu_max := out_cpu_max, memory_min := out_memory_min,
            memory_max := out_memory_max, min_change_cpu := out_min_change_cpu,
            min_change_memory := out_min_change_memory\<rparr>, h6))"

definition BoundsSpec_DeepCopy ::
  "('q, 'l, 'm, 'k, 'x) copiers \<Rightarrow> addr bounds_spec option \<Rightarrow> ('q, 'l, 'm, 'x) cell heap \<Rightarrow>
    addr bounds_spec option \<times> ('q, 'l, 'm, 'x) cell heap" where
  "BoundsSpec_DeepCopy C = DeepCopy (BoundsSpec_DeepCopyInto C)"

definition ResourceToggles_DeepCopyInto :: "resource_toggles \<Rightarrow> 'c heap \<Rightarrow> resource_toggles \<times> 'c heap" where
  "ResourceToggles_DeepCopyInto = copy_value"

definition ResourceToggles_DeepCopy ::
  "resource_toggles option \<Rightarrow> 'c heap \<Rightarrow> resource_toggles option \<times> 'c heap" where
  "ResourceToggles_DeepCopy = DeepCopy ResourceToggles_DeepCopyInto"

definition ManagedResourcesSpec_DeepCopyInto ::
  "managed_resources_spec \<Rightarrow> 'c heap \<Rightarrow> managed_resources_spec \<times> 'c heap" where
  "ManagedResourcesSpec_DeepCopyInto r h = (r\<lparr>managed_requests := managed_requests r\<rparr>, h)"

definition ManagedResourcesSpec_DeepCopy ::
  "managed_resources_spec option \<Rightarrow> 'c heap \<Rightarrow> managed_resources_spec option \<times> 'c heap" where
  "ManagedResourcesSpec_DeepCopy = DeepCopy ManagedResourcesSpec_DeepCopyInto"

definition ThresholdsSpec_DeepCopyInto :: "thresholds_spec \<Rightarrow> 'c heap \<Rightarrow> thresholds_spec \<times> 'c heap" where
  "ThresholdsSpec_DeepCopyInto = copy_value"

definition ThresholdsSpec_DeepCopy :: "thresholds_spec option \<Rightarrow> 'c heap \<Rightarrow> thresholds_spec option \<times> 'c heap" where
  "ThresholdsSpec_DeepCopy = DeepCopy ThresholdsSpec_DeepCopyInto"

definition NamespaceSelector_DeepCopyInto ::
  "h_namespace_selector \<Rightarrow> ('q, 'l, 'm, 'x) cell heap \<Rightarrow> h_namespace_selector \<times> ('q, 'l, 'm, 'x) cell heap" where
  "NamespaceSelector_DeepCopyInto s h =
     (let (out_include, h1) = copy_strings (h_include s) h;
          (out_exclude, h2) = copy_strings (h_exclude s) h1
      in (s\<lparr>h_include := out_include, h_exclude := out_exclude\<rparr>, h2))"

definition NamespaceSelector_DeepCopy ::
  "h_namespace_selector option \<Rightarrow> ('q, 'l, 'm, 'x) cell heap \<Rightarrow>
    h_namespace_selector option \<times> ('q, 'l, 'm, 'x) cell heap" where
  "NamespaceSelector_DeepCopy = DeepCopy NamespaceSelector_DeepCopyInto"

definition TimingSpec_DeepCopyInto ::
  "('q, 'l, 'm, 'k, 'x) copiers \<Rightarrow> addr timing_spec \<Rightarrow> ('q, 'l, 'm, 'x) cell heap \<Rightarrow>
    addr timing_spec \<times> ('q, 'l, 'm, 'x) cell heap" where
  "TimingSpec_DeepCopyInto C t h =
     (let (out_cpu, h1) = copy_quantity C (max_total_cpu_increase t) h;
          (out_memory, h2) = copy_quantity C (max_total_memory_increase t) h1
      in (t\<lparr>interval := interval t, cooldown := cooldown t, stabilization_window := stabilization_window t,
            max_total_cpu_increase := out_cpu, max_total_memory_increase := out_memory,
            capability_check_interval := capability_check_interval t\<rparr>, h2))"

definition TimingSpec_DeepCopy ::
  "('q, 'l, 'm, 'k, 'x) copiers \<Rightarrow> addr timing_spec option \<Rightarrow> ('q, 'l, 'm, 'x) cell heap \<Rightarrow>
    addr timing_spec option \<times> ('q, 'l, 'm, 'x) cell heap" where
  "TimingSpec_DeepCopy C = DeepCopy (TimingSpec_DeepCopyInto C)"

definition InPlacePodResizeSpec_DeepCopyInto ::
  "('q, 'l, 'm, 'k, 'x) copiers \<Rightarrow> h_spec \<Rightarrow> ('q, 'l, 'm, 'x) cell heap \<Rightarrow> h_spec \<times> ('q, 'l, 'm, 'x) cell heap" where
  "InPlacePodResizeSpec_DeepCopyInto C s h =
     (let (out_ns, h1) = NamespaceSelector_DeepCopyInto (h_ns_selector s) h;
          (out_selector, h2) = copy_ref SelectorCell selector_of (LabelSelector_DeepCopyInto C) (h_pod_selector s) h1;
          (out_bounds, h3) = BoundsSpec_DeepCopyInto C (h_bounds s) h2;
          (out_timing, h4) = TimingSpec_DeepCopyInto C (h_timing s) h3
      in (s\<lparr>h_ns_selector := out_ns, h_pod_selector := out_selector, h_resources := h_resources s,
            h_algorithm := h_algorithm s, h_bounds := out_bounds, h_thresholds := h_thresholds s,
            h_timing := out_timing\<rparr>, h4))"

definition InPlacePodResizeSpec_DeepCopy ::
  "('q, 'l, 'm, 'k, 'x) copiers \<Rightarrow> h_spec option \<Rightarrow> ('q, 'l, 'm, 'x) cell heap \<Rightarrow>
    h_spec option \<times> ('q, 'l, 'm, 'x) cell heap" where
  "InPlacePodResizeSpec_DeepCopy C = DeepCopy (InPlacePodResizeSpec_DeepCopyInto C)"

definition InPlacePodResizeStatus_DeepCopyInto ::
  "h_status \<Rightarrow> ('q, 'l, 'm, 'x) cell heap \<Rightarrow> h_status \<times> ('q, 'l, 'm, 'x) cell heap" where
  "InPlacePodResizeStatus_DeepCopyInto s h =
     (let (out_conditions, h1) = copy_conditions (h_conditions s) h;
          (out_last_run, h2) = copy_time (h_last_run s) h1;
          (out_last_cap_check, h3) = copy_time (h_last_cap_check s) h2
      in (s\<lparr>h_conditions := out_conditions, h_last_run := out_last_run,
            h_last_cap_check := out_last_cap_check\<rparr>, h3))"

definition InPlacePodResizeStatus_DeepCopy ::
  "h_status option \<Rightarrow> ('q, 'l, 'm, 'x) cell heap \<Rightarrow> h_status option \<times> ('q, 'l, 'm, 'x) cell heap" where
  "InPlacePodResizeStatus_DeepCopy = DeepCopy InPlacePodResizeStatus_DeepCopyInto"

definition InPlacePodResize_DeepCopyInto ::
  "('q, 'l, 'm, 'k, 'x) copiers \<Rightarrow> 'm h_policy \<Rightarrow> ('q, 'l, 'm, 'x) cell heap \<Rightarrow>
    'm h_policy \<times> ('q, 'l, 'm, 'x) cell heap" where
  "InPlacePodResize_DeepCopyInto C p h =
     (let (out_meta, h1) = ObjectMeta_DeepCopyInto C (h_meta p) h;
          (out_spec, h2) = InPlacePodResizeSpec_DeepCopyInto C (h_spec_of p) h1;
          (out_status, h3) = InPlacePodResizeStatus_DeepCopyInto (h_status_of p) h2
      in (p\<lparr>h_type_meta := h_type_meta p, h_meta := out_meta, h_spec_of := out_spec,
            h_status_of := out_status\<rparr>, h3))"

definition InPlacePodResize_DeepCopy ::
  "('q, 'l, 'm, 'k, 'x) copiers \<Rightarrow> 'm h_policy option \<Rightarrow> ('q, 'l, 'm, 'x) cell heap \<Rightarrow>
    'm h_policy option \<times> ('q, 'l, 'm, 'x) cell heap" where
  "InPlacePodResize_DeepCopy C = DeepCopy (InPlacePodResize_DeepCopyInto C)"

definition InPlacePodResizeList_DeepCopyInto ::
  "('q, 'l, 'm, 'k, 'x) copiers \<Rightarrow> 'k h_policy_list \<Rightarrow> ('q, 'l, 'm, 'x) cell heap \<Rightarrow>
    'k h_policy_list \<times> ('q, 'l, 'm, 'x) cell heap" where
  "InPlacePodResizeList_DeepCopyInto C l h =
     (let (out_meta, h1) = ListMeta_DeepCopyInto C (hl_meta l) h;
          (out_items, h2) = copy_ref ItemsCell items_of (copy_all (InPlacePodResize_DeepCopyInto C)) (hl_items l) h1
      in (l\<lparr>hl_type_meta := hl_type_meta l, hl_meta := out_meta, hl_items := out_items\<rparr>, h2))"

definition InPlacePodResizeList_DeepCopy ::
  "('q, 'l, 'm, 'k, 'x) copiers \<Rightarrow> 'k h_policy_list option \<Rightarrow> ('q, 'l, 'm, 'x) cell heap \<Rightarrow>
    'k h_policy_list option \<times> ('q, 'l, 'm, 'x) cell heap" where
  "InPlacePodResizeList_DeepCopy C = DeepCopy (InPlacePodResizeList_DeepCopyInto C)"

text \<open>
  The objects of the API: the copy as a \<open>runtime.Object\<close>, and no object (rather than an
  interface that holds \<open>nil\<close>) for \<open>nil\<close>.
\<close>

datatype ('m, 'k) runtime_object = PolicyObject "'m h_policy" | PolicyListObject "'k h_policy_list"

definition InPlacePodResize_DeepCopyObject ::
  "('q, 'l, 'm, 'k, 'x) copiers \<Rightarrow> 'm h_policy option \<Rightarrow> ('q, 'l, 'm, 'x) cell heap \<Rightarrow>
    ('m, 'k) runtime_object option \<times> ('q, 'l, 'm, 'x) cell heap" where
  "InPlacePodResize_DeepCopyObject C p h =
     (case InPlacePodResize_DeepCopy C p h of
        (Some c, h1) \<Rightarrow> (Some (PolicyObject c), h1) | (None, h1) \<Rightarrow> (None, h1))"

definition InPlacePodResizeList_DeepCopyObject ::
  "('q, 'l, 'm, 'k, 'x) copiers \<Rightarrow> 'k h_policy_list option \<Rightarrow> ('q, 'l, 'm, 'x) cell heap \<Rightarrow>
    ('m, 'k) runtime_object option \<times> ('q, 'l, 'm, 'x) cell heap" where
  "InPlacePodResizeList_DeepCopyObject C l h =
     (case InPlacePodResizeList_DeepCopy C l h of
        (Some c, h1) \<Rightarrow> (Some (PolicyListObject c), h1) | (None, h1) \<Rightarrow> (None, h1))"

section \<open>What can be read\<close>

text \<open>In \<open>ApiTypes\<close> a slice that is \<open>nil\<close> is the empty list.\<close>

definition elements :: "'v list option \<Rightarrow> 'v list" where
  "elements xs = (case xs of None \<Rightarrow> [] | Some ys \<Rightarrow> ys)"

definition strings_view :: "('q, 'l, 'm, 'x) cell heap \<Rightarrow> addr option \<Rightarrow> string list option" where
  "strings_view = ref_view strings_of value_view"

definition conditions_view :: "('q, 'l, 'm, 'x) cell heap \<Rightarrow> addr option \<Rightarrow> condition list option" where
  "conditions_view = ref_view conditions_of (all_view value_view)"

definition time_view :: "('q, 'l, 'm, 'x) cell heap \<Rightarrow> addr option \<Rightarrow> time option" where
  "time_view = ref_view time_of value_view"

definition ns_selector_view :: "('q, 'l, 'm, 'x) cell heap \<Rightarrow> h_namespace_selector \<Rightarrow> namespace_selector" where
  "ns_selector_view h s =
     \<lparr>match_type = h_match_type s, sel_include = elements (strings_view h (h_include s)),
      sel_exclude = elements (strings_view h (h_exclude s))\<rparr>"

definition bounds_view ::
  "(('q, 'l, 'm, 'x) cell heap \<Rightarrow> 'q \<Rightarrow> 'v) \<Rightarrow> ('q, 'l, 'm, 'x) cell heap \<Rightarrow> addr bounds_spec \<Rightarrow> 'v bounds_spec" where
  "bounds_view qv h b =
     (let v = ref_view quantity_of qv h in
      \<lparr>cpu_min = v (cpu_min b), cpu_max = v (cpu_max b), memory_min = v (memory_min b),
       memory_max = v (memory_max b), min_change_cpu = v (min_change_cpu b),
       min_change_memory = v (min_change_memory b)\<rparr>)"

definition timing_view ::
  "(('q, 'l, 'm, 'x) cell heap \<Rightarrow> 'q \<Rightarrow> 'v) \<Rightarrow> ('q, 'l, 'm, 'x) cell heap \<Rightarrow> addr timing_spec \<Rightarrow> 'v timing_spec" where
  "timing_view qv h t =
     \<lparr>interval = interval t, cooldown = cooldown t, stabilization_window = stabilization_window t,
      max_pods_per_run = max_pods_per_run t, max_concurrent_pods = max_concurrent_pods t,
      max_total_cpu_increase = ref_view quantity_of qv h (max_total_cpu_increase t),
      max_total_memory_increase = ref_view quantity_of qv h (max_total_memory_increase t),
      capability_check_interval = capability_check_interval t\<rparr>"

definition spec_view ::
  "(('q, 'l, 'm, 'x) cell heap \<Rightarrow> 'q \<Rightarrow> 'v) \<Rightarrow> (('q, 'l, 'm, 'x) cell heap \<Rightarrow> 'l \<Rightarrow> 'w) \<Rightarrow>
    ('q, 'l, 'm, 'x) cell heap \<Rightarrow> h_spec \<Rightarrow> ('v, 'w) policy_spec" where
  "spec_view qv lv h s =
     \<lparr>enabled = h_enabled s, ns_selector = ns_selector_view h (h_ns_selector s),
      pod_selector = ref_view selector_of lv h (h_pod_selector s), resources = h_resources s,
      algorithm = h_algorithm s, bounds = bounds_view qv h (h_bounds s), thresholds = h_thresholds s,
      timing = timing_view qv h (h_timing s)\<rparr>"

definition status_view :: "('q, 'l, 'm, 'x) cell heap \<Rightarrow> h_status \<Rightarrow> policy_status" where
  "status_view h s =
     \<lparr>st_conditions = elements (conditions_view h (h_conditions s)),
      st_observed_generation = h_observed_generation s, st_last_run = time_view h (h_last_run s),
      st_last_cap_check = time_view h (h_last_cap_check s)\<rparr>"

text \<open>The type, the metadata, the spec and the status.\<close>

definition policy_view where
  "policy_view qv lv mv h p =
     (h_type_meta p, mv h (h_meta p), spec_view qv lv h (h_spec_of p), status_view h (h_status_of p))"

text \<open>The addresses reached.\<close>

abbreviation strings_ptrs :: "('q, 'l, 'm, 'x) cell heap \<Rightarrow> addr option \<Rightarrow> addr set" where
  "strings_ptrs \<equiv> ref_ptrs strings_of value_ptrs"

definition ns_selector_ptrs :: "('q, 'l, 'm, 'x) cell heap \<Rightarrow> h_namespace_selector \<Rightarrow> addr set" where
  "ns_selector_ptrs h s = strings_ptrs h (h_include s) \<union> strings_ptrs h (h_exclude s)"

definition bounds_ptrs ::
  "(('q, 'l, 'm, 'x) cell heap \<Rightarrow> 'q \<Rightarrow> addr set) \<Rightarrow> ('q, 'l, 'm, 'x) cell heap \<Rightarrow> addr bounds_spec \<Rightarrow> addr set" where
  "bounds_ptrs qp h b =
     (let r = ref_ptrs quantity_of qp h in
      r (cpu_min b) \<union> (r (cpu_max b) \<union> (r (memory_min b) \<union> (r (memory_max b) \<union>
        (r (min_change_cpu b) \<union> r (min_change_memory b))))))"

definition timing_ptrs ::
  "(('q, 'l, 'm, 'x) cell heap \<Rightarrow> 'q \<Rightarrow> addr set) \<Rightarrow> ('q, 'l, 'm, 'x) cell heap \<Rightarrow> addr timing_spec \<Rightarrow> addr set" where
  "timing_ptrs qp h t =
     ref_ptrs quantity_of qp h (max_total_cpu_increase t) \<union> ref_ptrs quantity_of qp h (max_total_memory_increase t)"

definition spec_ptrs ::
  "(('q, 'l, 'm, 'x) cell heap \<Rightarrow> 'q \<Rightarrow> addr set) \<Rightarrow> (('q, 'l, 'm, 'x) cell heap \<Rightarrow> 'l \<Rightarrow> addr set) \<Rightarrow>
    ('q, 'l, 'm, 'x) cell heap \<Rightarrow> h_spec \<Rightarrow> addr set" where
  "spec_ptrs qp lp h s =
     ns_selector_ptrs h (h_ns_selector s) \<union> (ref_ptrs selector_of lp h (h_pod_selector s) \<union>
       (bounds_ptrs qp h (h_bounds s) \<union> timing_ptrs qp h (h_timing s)))"

definition status_ptrs :: "('q, 'l, 'm, 'x) cell heap \<Rightarrow> h_status \<Rightarrow> addr set" where
  "status_ptrs h s =
     ref_ptrs conditions_of (all_ptrs value_ptrs) h (h_conditions s) \<union>
       (ref_ptrs time_of value_ptrs h (h_last_run s) \<union> ref_ptrs time_of value_ptrs h (h_last_cap_check s))"

definition policy_ptrs where
  "policy_ptrs qp lp mp h p = mp h (h_meta p) \<union> (spec_ptrs qp lp h (h_spec_of p) \<union> status_ptrs h (h_status_of p))"

section \<open>The copies are deep\<close>

lemmas struct_defs = copy_pair_def pair_view_def pair_ptrs_def Let_def split_beta

interpretation AlgorithmSpec_copy: deep_copy AlgorithmSpec_DeepCopyInto value_view value_ptrs
  unfolding AlgorithmSpec_DeepCopyInto_def by (rule value_copy.deep_copy_axioms)

interpretation ResourceToggles_copy: deep_copy ResourceToggles_DeepCopyInto value_view value_ptrs
  unfolding ResourceToggles_DeepCopyInto_def by (rule value_copy.deep_copy_axioms)

interpretation ThresholdsSpec_copy: deep_copy ThresholdsSpec_DeepCopyInto value_view value_ptrs
  unfolding ThresholdsSpec_DeepCopyInto_def by (rule value_copy.deep_copy_axioms)

interpretation ManagedResourcesSpec_copy: deep_copy ManagedResourcesSpec_DeepCopyInto value_view value_ptrs
  by unfold_locales (auto simp: ManagedResourcesSpec_DeepCopyInto_def value_view_def value_ptrs_def)

lemma quantity_deep:
  "deep_copy (Quantity_DeepCopy C) qv qp \<Longrightarrow>
    deep_copy (copy_quantity C) (ref_view quantity_of qv) (ref_ptrs quantity_of qp)"
  unfolding copy_quantity_def by (rule deep_copy_ref) simp_all

interpretation strings_copy: deep_copy copy_strings strings_view strings_ptrs
  unfolding copy_strings_def strings_view_def by (rule deep_copy_ref [OF value_copy.deep_copy_axioms]) simp

interpretation time_copy: deep_copy copy_time time_view "ref_ptrs time_of value_ptrs"
  unfolding copy_time_def time_view_def by (rule deep_copy_ref [OF value_copy.deep_copy_axioms]) simp

interpretation conditions_copy: deep_copy copy_conditions conditions_view "ref_ptrs conditions_of (all_ptrs value_ptrs)"
  unfolding copy_conditions_def conditions_view_def
  by (rule deep_copy_ref [OF deep_copy_all [OF value_copy.deep_copy_axioms]]) simp

interpretation NamespaceSelector_copy: deep_copy NamespaceSelector_DeepCopyInto ns_selector_view ns_selector_ptrs
  by (rule deep_copy_struct [OF deep_copy_pair [OF strings_copy.deep_copy_axioms strings_copy.deep_copy_axioms],
        where get = "\<lambda>s. (h_include s, h_exclude s)"
          and put = "\<lambda>(i, e) s. s\<lparr>h_include := i, h_exclude := e\<rparr>"
          and mk = "\<lambda>(i, e) s. \<lparr>match_type = h_match_type s, sel_include = elements i, sel_exclude = elements e\<rparr>"])
    (simp_all add: NamespaceSelector_DeepCopyInto_def ns_selector_view_def ns_selector_ptrs_def
      struct_defs)

interpretation InPlacePodResizeStatus_copy: deep_copy InPlacePodResizeStatus_DeepCopyInto status_view status_ptrs
  by (rule deep_copy_struct [OF deep_copy_pair [OF conditions_copy.deep_copy_axioms
          deep_copy_pair [OF time_copy.deep_copy_axioms time_copy.deep_copy_axioms]],
        where get = "\<lambda>s. (h_conditions s, h_last_run s, h_last_cap_check s)"
          and put = "\<lambda>(c, r, k) s. s\<lparr>h_conditions := c, h_last_run := r, h_last_cap_check := k\<rparr>"
          and mk = "\<lambda>(c, r, k) s. \<lparr>st_conditions = elements c,
            st_observed_generation = h_observed_generation s, st_last_run = r, st_last_cap_check = k\<rparr>"])
    (simp_all add: InPlacePodResizeStatus_DeepCopyInto_def status_view_def status_ptrs_def
      struct_defs)

lemma BoundsSpec_deep:
  assumes "deep_copy (Quantity_DeepCopy C) qv qp"
  shows "deep_copy (BoundsSpec_DeepCopyInto C) (bounds_view qv) (bounds_ptrs qp)"
proof -
  note q = quantity_deep [OF assms]
  show ?thesis
    by (rule deep_copy_struct [OF deep_copy_pair [OF q deep_copy_pair [OF q deep_copy_pair [OF q
            deep_copy_pair [OF q deep_copy_pair [OF q q]]]]],
          where get = "\<lambda>b. (cpu_min b, cpu_max b, memory_min b, memory_max b, min_change_cpu b, min_change_memory b)"
            and put = "\<lambda>(p1, p2, p3, p4, p5, p6) b. b\<lparr>cpu_min := p1, cpu_max := p2, memory_min := p3,
              memory_max := p4, min_change_cpu := p5, min_change_memory := p6\<rparr>"
            and mk = "\<lambda>(p1, p2, p3, p4, p5, p6) b. \<lparr>cpu_min = p1, cpu_max = p2, memory_min = p3,
              memory_max = p4, min_change_cpu = p5, min_change_memory = p6\<rparr>"])
      (simp_all add: BoundsSpec_DeepCopyInto_def bounds_view_def bounds_ptrs_def struct_defs)
qed

lemma TimingSpec_deep:
  assumes "deep_copy (Quantity_DeepCopy C) qv qp"
  shows "deep_copy (TimingSpec_DeepCopyInto C) (timing_view qv) (timing_ptrs qp)"
  by (rule deep_copy_struct [OF deep_copy_pair [OF quantity_deep [OF assms] quantity_deep [OF assms]],
        where get = "\<lambda>t. (max_total_cpu_increase t, max_total_memory_increase t)"
          and put = "\<lambda>(c, m) t. t\<lparr>max_total_cpu_increase := c, max_total_memory_increase := m\<rparr>"
          and mk = "\<lambda>(c, m) t. \<lparr>interval = interval t, cooldown = cooldown t,
            stabilization_window = stabilization_window t, max_pods_per_run = max_pods_per_run t,
            max_concurrent_pods = max_concurrent_pods t, max_total_cpu_increase = c,
            max_total_memory_increase = m, capability_check_interval = capability_check_interval t\<rparr>"])
    (simp_all add: TimingSpec_DeepCopyInto_def timing_view_def timing_ptrs_def struct_defs)

lemma InPlacePodResizeSpec_deep:
  assumes "deep_copy (Quantity_DeepCopy C) qv qp" "deep_copy (LabelSelector_DeepCopyInto C) lv lp"
  shows "deep_copy (InPlacePodResizeSpec_DeepCopyInto C) (spec_view qv lv) (spec_ptrs qp lp)"
proof -
  have l: "deep_copy (copy_ref SelectorCell selector_of (LabelSelector_DeepCopyInto C))
      (ref_view selector_of lv) (ref_ptrs selector_of lp)"
    by (rule deep_copy_ref [OF assms(2)]) simp
  show ?thesis
    by (rule deep_copy_struct [OF deep_copy_pair [OF NamespaceSelector_copy.deep_copy_axioms
            deep_copy_pair [OF l deep_copy_pair [OF BoundsSpec_deep [OF assms(1)] TimingSpec_deep [OF assms(1)]]]],
          where get = "\<lambda>s. (h_ns_selector s, h_pod_selector s, h_bounds s, h_timing s)"
            and put = "\<lambda>(n, l, b, t) s. s\<lparr>h_ns_selector := n, h_pod_selector := l, h_bounds := b, h_timing := t\<rparr>"
            and mk = "\<lambda>(n, l, b, t) s. \<lparr>enabled = h_enabled s, ns_selector = n, pod_selector = l,
              resources = h_resources s, algorithm = h_algorithm s, bounds = b, thresholds = h_thresholds s,
              timing = t\<rparr>"])
      (simp_all add: InPlacePodResizeSpec_DeepCopyInto_def spec_view_def spec_ptrs_def struct_defs)
qed

lemma InPlacePodResize_deep:
  assumes "deep_copy (Quantity_DeepCopy C) qv qp" "deep_copy (LabelSelector_DeepCopyInto C) lv lp"
    and "deep_copy (ObjectMeta_DeepCopyInto C) mv mp"
  shows "deep_copy (InPlacePodResize_DeepCopyInto C) (policy_view qv lv mv) (policy_ptrs qp lp mp)"
  by (rule deep_copy_struct [OF deep_copy_pair [OF assms(3) deep_copy_pair
          [OF InPlacePodResizeSpec_deep [OF assms(1,2)] InPlacePodResizeStatus_copy.deep_copy_axioms]],
        where get = "\<lambda>p. (h_meta p, h_spec_of p, h_status_of p)"
          and put = "\<lambda>(m, s, t) p. p\<lparr>h_meta := m, h_spec_of := s, h_status_of := t\<rparr>"
          and mk = "\<lambda>(m, s, t) p. (h_type_meta p, m, s, t)"])
    (simp_all add: InPlacePodResize_DeepCopyInto_def policy_view_def policy_ptrs_def struct_defs)

lemma InPlacePodResizeList_deep:
  assumes "deep_copy (Quantity_DeepCopy C) qv qp" "deep_copy (LabelSelector_DeepCopyInto C) lv lp"
    and "deep_copy (ObjectMeta_DeepCopyInto C) mv mp" "deep_copy (ListMeta_DeepCopyInto C) kv kp"
  shows "deep_copy (InPlacePodResizeList_DeepCopyInto C)
    (\<lambda>h l. (hl_type_meta l, kv h (hl_meta l), ref_view items_of (all_view (policy_view qv lv mv)) h (hl_items l)))
    (\<lambda>h l. kp h (hl_meta l) \<union> ref_ptrs items_of (all_ptrs (policy_ptrs qp lp mp)) h (hl_items l))"
proof -
  have items: "deep_copy (copy_ref ItemsCell items_of (copy_all (InPlacePodResize_DeepCopyInto C)))
      (ref_view items_of (all_view (policy_view qv lv mv))) (ref_ptrs items_of (all_ptrs (policy_ptrs qp lp mp)))"
    by (rule deep_copy_ref [OF deep_copy_all [OF InPlacePodResize_deep [OF assms(1-3)]]]) simp
  show ?thesis
    by (rule deep_copy_struct [OF deep_copy_pair [OF assms(4) items],
          where get = "\<lambda>l. (hl_meta l, hl_items l)"
            and put = "\<lambda>(k, i) l. l\<lparr>hl_meta := k, hl_items := i\<rparr>"
            and mk = "\<lambda>(k, i) l. (hl_type_meta l, k, i)"])
      (simp_all add: InPlacePodResizeList_DeepCopyInto_def struct_defs)
qed

text \<open>\<open>nil\<close> stays \<open>nil\<close>, and a slice that is not \<open>nil\<close> does not become so.\<close>

lemma copy_ref_nil: "copy_ref box unbox f p h = (p', h') \<Longrightarrow> p' = None \<longleftrightarrow> p = None"
  by (auto simp: copy_ref_def split: option.splits prod.splits)

lemma nil_stays_nil:
  "InPlacePodResizeStatus_DeepCopyInto s h = (s', h') \<Longrightarrow> h_conditions s' = None \<longleftrightarrow> h_conditions s = None"
  "NamespaceSelector_DeepCopyInto n h = (n', h') \<Longrightarrow> h_include n' = None \<longleftrightarrow> h_include n = None"
  "NamespaceSelector_DeepCopyInto n h = (n', h') \<Longrightarrow> h_exclude n' = None \<longleftrightarrow> h_exclude n = None"
  by (auto simp: InPlacePodResizeStatus_DeepCopyInto_def NamespaceSelector_DeepCopyInto_def
      copy_conditions_def copy_strings_def dest: copy_ref_nil split: prod.splits)

lemma DeepCopyObject_nil:
  "InPlacePodResize_DeepCopyObject C None h = (None, h)"
  "InPlacePodResizeList_DeepCopyObject C None h = (None, h)"
  by (simp_all add: InPlacePodResize_DeepCopyObject_def InPlacePodResizeList_DeepCopyObject_def
      InPlacePodResize_DeepCopy_def InPlacePodResizeList_DeepCopy_def DeepCopy_def)

text \<open>
  C27. The copy of a policy reads the same as the policy and shares no address with it. Whatever
  is then written through the policy, or through anything allocated later, the copy reads
  what the policy was when it was copied, and the other way round: so the base that \<open>Reconcile\<close>
  keeps for the patch of the status is the policy as it was read, although the conditions
  are changed in place.
\<close>

theorem policy_copy_isolated:
  assumes lib: "deep_copy (Quantity_DeepCopy C) qv qp" "deep_copy (LabelSelector_DeepCopyInto C) lv lp"
      "deep_copy (ObjectMeta_DeepCopyInto C) mv mp"
    and reach: "policy_ptrs qp lp mp h p \<subseteq> {..<next_addr h}"
    and run: "InPlacePodResize_DeepCopy C (Some p) h = (c, h')"
  shows "\<exists>p'. c = Some p' \<and> policy_view qv lv mv h' p' = policy_view qv lv mv h p \<and>
    policy_ptrs qp lp mp h' p' \<inter> policy_ptrs qp lp mp h' p = {} \<and>
    (\<forall>ws. fst ` set ws \<subseteq> policy_ptrs qp lp mp h' p \<union> {next_addr h'..} \<longrightarrow>
       policy_view qv lv mv (fold write_cell ws h') p' = policy_view qv lv mv h p) \<and>
    (\<forall>ws. fst ` set ws \<subseteq> policy_ptrs qp lp mp h' p' \<union> {next_addr h'..} \<longrightarrow>
       policy_view qv lv mv (fold write_cell ws h') p = policy_view qv lv mv h p)"
proof -
  note deep = InPlacePodResize_deep [OF lib]
  obtain p' where p': "InPlacePodResize_DeepCopyInto C p h = (p', h')" "c = Some p'"
    using run by (auto simp: InPlacePodResize_DeepCopy_def DeepCopy_def split: prod.splits)
  note iso = deep_copy.isolated [OF deep reach p'(1)]
  show ?thesis
    using p'(2) deep_copy.copies [OF deep reach p'(1)] iso by blast
qed

section \<open>An example\<close>

text \<open>
  The metadata is a pointer to a label; a label selector and a quantity are plain values. The
  policy has a condition, an include list and a maximum of the CPU.
\<close>

definition ex_copiers :: "(int, string, addr option, unit, string) copiers" where
  "ex_copiers = \<lparr>Quantity_DeepCopy = copy_value, LabelSelector_DeepCopyInto = copy_value,
     ObjectMeta_DeepCopyInto = copy_ref OtherCell other_of copy_value, ListMeta_DeepCopyInto = copy_value\<rparr>"

definition ex_condition :: "condition_status \<Rightarrow> condition" where
  "ex_condition s = \<lparr>cond_type = conditionActive, cond_status = s, cond_reason = ''Enabled'', cond_message = '''',
     cond_generation = 1, cond_transition = 0\<rparr>"

definition ex_heap :: "(int, string, addr option, string) cell heap" where
  "ex_heap = \<lparr>next_addr = 4, cell = (\<lambda>a. OtherCell ''app'')
     (0 := OtherCell ''app'', 1 := ConditionsCell [ex_condition ConditionTrue],
      2 := StringsCell [''prod''], 3 := QuantityCell 7)\<rparr>"

definition ex_memory_policy :: "addr option h_policy" where
  "ex_memory_policy = \<lparr>h_type_meta = (''InPlacePodResize'', ''v1alpha1''), h_meta = Some 0,
     h_spec_of = \<lparr>h_enabled = True,
       h_ns_selector = \<lparr>h_match_type = '''', h_include = Some 2, h_exclude = None\<rparr>, h_pod_selector = None,
       h_resources = \<lparr>managed_requests = \<lparr>tog_cpu = True, tog_memory = True\<rparr>, limits_mode = ''''\<rparr>,
       h_algorithm = \<lparr>headroom_percent = 20, allow_downscale = False\<rparr>,
       h_bounds = \<lparr>cpu_min = None, cpu_max = Some 3, memory_min = None, memory_max = None,
         min_change_cpu = None, min_change_memory = None\<rparr>,
       h_thresholds = \<lparr>up_percent = 10, down_percent = 10\<rparr>,
       h_timing = \<lparr>interval = 0, cooldown = 0, stabilization_window = 0, max_pods_per_run = 1,
         max_concurrent_pods = 1, max_total_cpu_increase = Some 3, max_total_memory_increase = None,
         capability_check_interval = 0\<rparr>\<rparr>,
     h_status_of = \<lparr>h_conditions = Some 1, h_observed_generation = 1, h_last_run = None,
       h_last_cap_check = None\<rparr>\<rparr>"

lemma ex_copiers_deep:
  "deep_copy (Quantity_DeepCopy ex_copiers) value_view value_ptrs"
  "deep_copy (LabelSelector_DeepCopyInto ex_copiers) value_view value_ptrs"
  "deep_copy (ObjectMeta_DeepCopyInto ex_copiers) (ref_view other_of value_view) (ref_ptrs other_of value_ptrs)"
  by (simp_all add: ex_copiers_def value_copy.deep_copy_axioms deep_copy_ref)

lemma ex_reach: "policy_ptrs value_ptrs value_ptrs (ref_ptrs other_of value_ptrs) ex_heap ex_memory_policy \<subseteq> {..<next_addr ex_heap}"
  by (simp add: policy_ptrs_def spec_ptrs_def status_ptrs_def ns_selector_ptrs_def bounds_ptrs_def timing_ptrs_def
      ref_ptrs_def value_ptrs_def all_ptrs_def ex_memory_policy_def ex_heap_def)

text \<open>The condition is changed in place after the copy; the copy still has the old one.\<close>

theorem policy_copy_isolated_witness:
  "\<exists>p' h'. InPlacePodResize_DeepCopy ex_copiers (Some ex_memory_policy) ex_heap = (Some p', h') \<and>
     status_view (write_cell (1, ConditionsCell [ex_condition ConditionFalse]) h') (h_status_of p') =
       status_view ex_heap (h_status_of ex_memory_policy) \<and>
     st_conditions (status_view ex_heap (h_status_of ex_memory_policy)) = [ex_condition ConditionTrue]"
proof -
  obtain c h' where run: "InPlacePodResize_DeepCopy ex_copiers (Some ex_memory_policy) ex_heap = (c, h')" by force
  from policy_copy_isolated [OF ex_copiers_deep ex_reach run]
  obtain p' where p': "c = Some p'" and w: "\<And>ws. fst ` set ws \<subseteq>
      policy_ptrs value_ptrs value_ptrs (ref_ptrs other_of value_ptrs) h' ex_memory_policy \<union> {next_addr h'..} \<Longrightarrow>
    policy_view value_view value_view (ref_view other_of value_view) (fold write_cell ws h') p' =
      policy_view value_view value_view (ref_view other_of value_view) ex_heap ex_memory_policy"
    by blast
  have "1 \<in> policy_ptrs value_ptrs value_ptrs (ref_ptrs other_of value_ptrs) h' ex_memory_policy"
    by (simp add: policy_ptrs_def status_ptrs_def ref_ptrs_def ex_memory_policy_def)
  with w [of "[(1, ConditionsCell [ex_condition ConditionFalse])]"] run p' show ?thesis
    by (auto simp: policy_view_def status_view_def conditions_view_def elements_def ref_view_def all_view_def
        value_view_def ex_memory_policy_def ex_heap_def)
qed

end
