(* ===== verification/Setup.thy ===== *)
theory Setup
  imports Reconcile
begin

text \<open>
  \<open>cmd/main.go\<close>, \<open>SetupWithManager\<close> and \<open>api/v1alpha1/groupversion_info.go\<close>: the start of the
  operator, with the registration of its types. The program is a sequence of calls of the Kubernetes libraries that may fail,
  with the tuning of the client's configuration, the choice of the time zone and the fields
  of the reconciler in between. The calls are the \<open>startup\<close> values, and the argument \<open>call\<close>
  answers each with an error or nothing. Floating point numbers are of the types \<open>'d\<close> (\<open>float64\<close>)
  and \<open>'f\<close> (\<open>float32\<close>), with what the code uses of them; the time zone database is the
  argument \<open>load\<close>. The parsing of the flags and the logger are not modelled.
\<close>

section \<open>Configuration\<close>

record ('d, 'f) float_ops =
  fo_zero :: 'd
  fo_positive :: "'d \<Rightarrow> bool"
  fo_narrow :: "'d \<Rightarrow> 'f"

record 'f rest_config =
  cfg_qps :: 'f
  cfg_burst :: int

definition applyConfigTuning ::
  "('d, 'f) float_ops \<Rightarrow> 'd \<Rightarrow> int \<Rightarrow> 'f rest_config option \<Rightarrow> 'f rest_config option" where
  "applyConfigTuning F qps burst cfg =
     (case cfg of
        None \<Rightarrow> None
      | Some c \<Rightarrow>
          (let c1 = (if fo_positive F qps then c\<lparr>cfg_qps := fo_narrow F qps\<rparr> else c)
           in Some (if 0 < burst then c1\<lparr>cfg_burst := burst\<rparr> else c1)))"

record 'd flags =
  fl_probe_addr :: string
  fl_leader_elect :: bool
  fl_time_zone :: string
  fl_metrics_addr :: string
  fl_qps :: 'd
  fl_burst :: int
  fl_metrics_timeout :: duration
  fl_resize_timeout :: duration
  fl_patch_timeout :: duration

definition default_flags :: "('d, 'f) float_ops \<Rightarrow> 'd flags" where
  "default_flags F =
     \<lparr>fl_probe_addr = '':8081'', fl_leader_elect = False, fl_time_zone = '''', fl_metrics_addr = '':8080'',
      fl_qps = fo_zero F, fl_burst = 0, fl_metrics_timeout = 5 * second, fl_resize_timeout = 10 * second,
      fl_patch_timeout = 5 * second\<rparr>"

definition choose_location :: "(string \<Rightarrow> string + zone) \<Rightarrow> string \<Rightarrow> zone" where
  "choose_location load name =
     (let utc = (\<lambda>s. 0)
      in if name \<noteq> '''' then (case load name of Inl err \<Rightarrow> utc | Inr l \<Rightarrow> l) else utc)"

text \<open>
  The reconciler that \<open>main\<close> builds: the flags set its time-outs and the location in which
  it writes instants; the rest are the libraries.
\<close>

definition build_reconciler ::
  "('q, 'l, 's, 'r) reconciler \<Rightarrow> (string \<Rightarrow> string + zone) \<Rightarrow> 'd flags \<Rightarrow> ('q, 'l, 's, 'r) reconciler" where
  "build_reconciler libs load fl =
     libs\<lparr>rq_location := Some (choose_location load (fl_time_zone fl)), rq_recorder := True,
       rq_metrics_timeout := fl_metrics_timeout fl, rq_resize_timeout := fl_resize_timeout fl,
       rq_patch_timeout := fl_patch_timeout fl\<rparr>"

text \<open>The defaults of the flags are the defaults of \<open>Reconcile\<close>, so that a flag set to 0 or less is ignored.\<close>

lemma build_limits:
  "run_limits_of (build_reconciler libs load fl) tm =
    (run_limits_of (build_reconciler libs load (default_flags F)) tm)
      \<lparr>lim_metrics_timeout := or_default (fl_metrics_timeout fl) (fl_metrics_timeout (default_flags F)),
       lim_resize_timeout := or_default (fl_resize_timeout fl) (fl_resize_timeout (default_flags F)),
       lim_patch_timeout := or_default (fl_patch_timeout fl) (fl_patch_timeout (default_flags F))\<rparr>"
  by (simp add: run_limits_of_def build_reconciler_def default_flags_def or_default_def)

lemma location_fallback:
  "load name = Inl err \<Longrightarrow> choose_location load name = (\<lambda>s. 0)"
  "choose_location load '''' = (\<lambda>s. 0)"
  by (simp_all add: choose_location_def Let_def)

section \<open>Start\<close>

record group_version =
  gv_group :: string
  gv_version :: string

definition GroupVersion :: group_version where
  "GroupVersion = \<lparr>gv_group = ''resize.halje.ru'', gv_version = ''v1alpha1''\<rparr>"

text \<open>
  \<open>SchemeBuilder\<close> and the \<open>init\<close> that registers the two kinds. The builder of controller-runtime
  is a parameter: \<open>sb_new\<close> makes one for a group version, \<open>sb_register\<close> adds objects to it.
  \<open>AddToScheme\<close> is the method of this one builder, taken before the registration: as
  \<open>SchemeBuilder\<close> is a pointer, the call sees what has been registered since.
\<close>

record 'b scheme_builder =
  sb_new :: "group_version \<Rightarrow> 'b"
  sb_register :: "string list \<Rightarrow> 'b \<Rightarrow> 'b"

definition SchemeBuilder :: "'b scheme_builder \<Rightarrow> 'b" where
  "SchemeBuilder B = sb_new B GroupVersion"

definition register_kinds :: "'b scheme_builder \<Rightarrow> 'b \<Rightarrow> 'b" where
  "register_kinds B b = sb_register B [''InPlacePodResize'', ''InPlacePodResizeList''] b"

record manager_options =
  mo_probe_addr :: string
  mo_metrics_addr :: string
  mo_leader_election :: bool
  mo_leader_election_id :: string

text \<open>What the manager is told of the controller: which objects, its name, which events.\<close>

datatype event_filter = AllEvents | GenerationChanged

record controller_options =
  co_for :: string
  co_name :: string
  co_filter :: event_filter

definition SetupWithManager :: controller_options where
  "SetupWithManager =
     \<lparr>co_for = ''InPlacePodResize'', co_name = ''inplacepodresize'', co_filter = GenerationChanged\<rparr>"

datatype ('b, 'f, 'r) startup =
    AddClientGoToScheme
  | AddToScheme 'b
  | GetConfig
  | NewManager "'f rest_config" manager_options
  | NewClientset "'f rest_config"
  | NewMetricsClientset "'f rest_config"
  | CompleteController controller_options 'r prober
  | AddHealthzCheck string
  | AddReadyzCheck string
  | StartManager

datatype exit = Panicked string | Exited nat

text \<open>
  The calls in order: the first that fails ends the program with \<open>stop\<close>. The result has the
  calls that were made.
\<close>

primrec run_steps ::
  "('s \<Rightarrow> 'e \<Rightarrow> string option \<times> 'e) \<Rightarrow> (string \<Rightarrow> exit) \<Rightarrow> 's list \<Rightarrow> 'e \<Rightarrow> (exit option \<times> 's list) \<times> 'e" where
  "run_steps call stop [] e = ((None, []), e)"
| "run_steps call stop (s # ss) e =
     (case call s e of
        (Some err, e1) \<Rightarrow> ((Some (stop err), [s]), e1)
      | (None, e1) \<Rightarrow> (let ((x, made), e2) = run_steps call stop ss e1 in ((x, s # made), e2)))"

text \<open>
  \<open>init\<close> of the package, after that of the package of the types: \<open>utilruntime.Must\<close> panics.
\<close>

definition init_steps :: "'b scheme_builder \<Rightarrow> ('b, 'f, 'r) startup list" where
  "init_steps B = [AddClientGoToScheme, AddToScheme (register_kinds B (SchemeBuilder B))]"

text \<open>
  \<open>main\<close> after the flags have been parsed. \<open>cfg\<close> is what \<open>GetConfigOrDie\<close> returns when it does;
  every error ends the program with status 1.
\<close>

definition main_steps ::
  "('d, 'f) float_ops \<Rightarrow> ('q, 'l, 's, 'r) reconciler \<Rightarrow> (string \<Rightarrow> string + zone) \<Rightarrow> 'f rest_config \<Rightarrow> 'd flags \<Rightarrow>
    ('b, 'f, ('q, 'l, 's, 'r) reconciler) startup list" where
  "main_steps F libs load cfg fl =
     (let tuned = the (applyConfigTuning F (fl_qps fl) (fl_burst fl) (Some cfg))
      in [GetConfig,
          NewManager tuned \<lparr>mo_probe_addr = fl_probe_addr fl, mo_metrics_addr = fl_metrics_addr fl,
            mo_leader_election = fl_leader_elect fl, mo_leader_election_id = ''57410f0d.halje.ru''\<rparr>,
          NewClientset tuned, NewMetricsClientset tuned,
          CompleteController SetupWithManager (build_reconciler libs load fl) (NewProber True True),
          AddHealthzCheck ''healthz'', AddReadyzCheck ''readyz'', StartManager])"

definition main ::
  "'b scheme_builder \<Rightarrow> ('d, 'f) float_ops \<Rightarrow> ('q, 'l, 's, 'r) reconciler \<Rightarrow> (string \<Rightarrow> string + zone) \<Rightarrow> 'f rest_config \<Rightarrow> 'd flags \<Rightarrow>
    (('b, 'f, ('q, 'l, 's, 'r) reconciler) startup \<Rightarrow> 'e \<Rightarrow> string option \<times> 'e) \<Rightarrow> 'e \<Rightarrow>
    (exit \<times> ('b, 'f, ('q, 'l, 's, 'r) reconciler) startup list) \<times> 'e" where
  "main B F libs load cfg fl call e =
     (case run_steps call Panicked (init_steps B) e of
        ((Some x, made), e1) \<Rightarrow> ((x, made), e1)
      | ((None, made), e1) \<Rightarrow>
          (case run_steps call (\<lambda>err. Exited 1) (main_steps F libs load cfg fl) e1 of
             ((Some x, made'), e2) \<Rightarrow> ((x, made @ made'), e2)
           | ((None, made'), e2) \<Rightarrow> ((Exited 0, made @ made'), e2)))"

text \<open>The steps are made in order up to the first that fails, and all of them when none does.\<close>

lemma run_steps_made:
  assumes "run_steps call stop ss e = ((x, made), e')"
  shows "\<exists>rest. ss = made @ rest \<and> (x = None \<longrightarrow> rest = []) \<and>
    (\<forall>y. x = Some y \<longrightarrow> (\<exists>err e1. made \<noteq> [] \<and> call (last made) e1 = (Some err, e') \<and> y = stop err))"
  using assms
proof (induction ss arbitrary: e x made)
  case (Cons s ss)
  show ?case
  proof (cases "call s e")
    case (Pair r e1)
    show ?thesis
    proof (cases r)
      case None
      obtain made1 where "run_steps call stop ss e1 = ((x, made1), e')" "made = s # made1"
        using Cons.prems Pair None by (auto split: prod.splits)
      with Cons.IH [OF this(1)] show ?thesis by auto
    qed (use Cons.prems Pair in \<open>auto, blast\<close>)
  qed
qed simp

text \<open>
  The manager is started only when everything before has succeeded, as the last call; the
  program ends with status 0 only when all calls were made, and with 1 or a panic only when
  the last one made has failed.
\<close>

text \<open>The kinds are registered before anything is added to the scheme, under the group version of the package.\<close>

lemma init_registers_kinds:
  "init_steps B = [AddClientGoToScheme,
    AddToScheme (sb_register B [''InPlacePodResize'', ''InPlacePodResizeList'']
      (sb_new B \<lparr>gv_group = ''resize.halje.ru'', gv_version = ''v1alpha1''\<rparr>))]"
  by (simp add: init_steps_def register_kinds_def SchemeBuilder_def GroupVersion_def)

lemma main_starts_last:
  assumes "main B F libs load cfg fl call e = ((x, made), e')"
  shows "\<exists>rest. init_steps B @ main_steps F libs load cfg fl = made @ rest \<and>
      (x = Exited 0 \<or> StartManager \<in> set made \<longrightarrow> rest = [])"
    and "x \<noteq> Exited 0 \<Longrightarrow> \<exists>err e1. call (last made) e1 = (Some err, e') \<and> x \<in> {Exited 1, Panicked err}"
proof -
  let ?ms = "main_steps F libs load cfg fl"
  obtain y made1 e1 where i: "run_steps call Panicked (init_steps B) e = ((y, made1), e1)" by (metis prod.exhaust)
  obtain r1 where r1: "init_steps B = made1 @ r1" "y = None \<longrightarrow> r1 = []"
      "\<forall>z. y = Some z \<longrightarrow> (\<exists>err e2. made1 \<noteq> [] \<and> call (last made1) e2 = (Some err, e1) \<and> z = Panicked err)"
    using run_steps_made [OF i] by blast
  have "(\<exists>rest. init_steps B @ ?ms = made @ rest \<and> (x = Exited 0 \<or> StartManager \<in> set made \<longrightarrow> rest = [])) \<and>
    (x \<noteq> Exited 0 \<longrightarrow> (\<exists>err e1. call (last made) e1 = (Some err, e') \<and> x \<in> {Exited 1, Panicked err}))"
  proof (cases y)
    case (Some z)
    then have m: "x = z" "made = made1" "e' = e1" using assms i by (simp_all add: main_def)
    have "StartManager \<notin> set (made1 @ r1)" by (simp add: init_steps_def flip: r1(1))
    then have "StartManager \<notin> set made" using m(2) by simp
    moreover have "init_steps B @ ?ms = made @ r1 @ ?ms" using r1(1) m(2) by simp
    moreover obtain err e2 where "call (last made) e2 = (Some err, e')" "x = Panicked err"
      using r1(3) Some m by blast
    ultimately show ?thesis by blast
  next
    case None
    obtain w made2 e2 where s: "run_steps call (\<lambda>err. Exited 1) ?ms e1 = ((w, made2), e2)" by (metis prod.exhaust)
    obtain r2 where r2: "?ms = made2 @ r2" "w = None \<longrightarrow> r2 = []"
        "\<forall>z. w = Some z \<longrightarrow> (\<exists>err e3. made2 \<noteq> [] \<and> call (last made2) e3 = (Some err, e2) \<and> z = Exited 1)"
      using run_steps_made [OF s] by blast
    have m: "x = (case w of None \<Rightarrow> Exited 0 | Some z \<Rightarrow> z)" "made = init_steps B @ made2" "e' = e2"
      using assms i s None r1 by (auto simp: main_def split: option.splits)
    have "StartManager \<notin> set (init_steps B @ butlast ?ms)" by (simp add: main_steps_def init_steps_def Let_def)
    moreover have "set made2 \<subseteq> set (butlast ?ms)" if "r2 \<noteq> []" using that by (auto simp: r2(1) butlast_append)
    ultimately have "r2 = []" if "StartManager \<in> set made" using that m(2) by auto
    with r2 m show ?thesis by (cases w) auto
  qed
  then show "\<exists>rest. init_steps B @ ?ms = made @ rest \<and> (x = Exited 0 \<or> StartManager \<in> set made \<longrightarrow> rest = [])"
    and "x \<noteq> Exited 0 \<Longrightarrow> \<exists>err e1. call (last made) e1 = (Some err, e') \<and> x \<in> {Exited 1, Panicked err}"
    by blast+
qed

end
